(* ===== verification/Hydra_Prelude.thy ===== *)
theory Hydra_Prelude
  imports Main "HOL-Library.Word" "HOL-Library.Multiset"
begin

text \<open>
  The shared vocabulary of the development: how the Go run-time appears in the model
  (byte slices, errors, panics, results), the short-circuit connective on expressions that may
  panic, and generic lemmas about lists and multisets that several components use.

  \<^item> \<open>go_error\<close> is the value behind a non-nil \<open>error\<close>; \<open>None\<close> stands for \<open>nil\<close>.
  \<^item> \<open>'a outcome\<close> is what a fallible Go function does: it returns a value (\<open>Ok\<close>), returns a
    non-nil error (\<open>Error\<close>), or panics (\<open>Panic\<close>).
  \<^item> In the small components where the only failure is a panic, \<open>'a option\<close> is used and
    \<open>None\<close> is the panic.
\<close>

unbundle bit_operations_syntax

type_synonym byte = "8 word"
type_synonym bytes = "byte list"

named_theorems go_simps \<open>unfolding rules for the elementary operations of the Go model\<close>
named_theorems inv_intros \<open>invariant preservation facts\<close>

subsection \<open>Errors, panics and results\<close>

datatype go_error =
    Errorf string                       \<comment> \<open>\<open>errors.New\<close>, or an error of an external call\<close>
  | Wrapf string go_error               \<comment> \<open>\<open>fmt.Errorf("... %w", err)\<close>\<close>
  | MultiError "go_error list"          \<comment> \<open>a non-nil \<open>*multierror.Error\<close>\<close>
  | TypedNil                            \<comment> \<open>an interface value holding a nil \<open>*multierror.Error\<close>\<close>

datatype panic =
    IndexOutOfRange | NilDereference | DivideByZero | CountNegative | MakeChanSize | NegativeRepeat
  | PanicValue go_error                 \<comment> \<open>\<open>panic(err)\<close>\<close>

datatype 'a outcome = Ok 'a | Error go_error | Panic panic

fun is_Ok :: "'a outcome \<Rightarrow> bool" where
  "is_Ok (Ok _) = True"
| "is_Ok _ = False"

lemma is_Ok_iff: "is_Ok r \<longleftrightarrow> (\<exists>x. r = Ok x)"
  by (cases r) auto

subsection \<open>Short-circuit conjunction of expressions that may panic\<close>

fun andalso :: "bool option \<Rightarrow> bool option \<Rightarrow> bool option" where
  "andalso None _ = None"
| "andalso (Some False) _ = Some False"
| "andalso (Some True) y = y"

lemma andalso_Some [simp]: "andalso (Some a) (Some b) = Some (a \<and> b)"
  by (cases a) auto

subsection \<open>Values that cross component boundaries\<close>

text \<open>\<^verbatim>\<open>peer.AddrInfo\<close> of libp2p: a peer ID (raw bytes) and its multiaddresses.\<close>

type_synonym peer_id = bytes

record 'ma addr_info =
  ai_ID :: peer_id
  ai_Addrs :: "'ma list"

subsection \<open>Updating one element of a list and sums over the list\<close>

lemma sum_list_update_add:
  fixes f :: "'a \<Rightarrow> 'b :: comm_monoid_add"
  shows "i < length xs \<Longrightarrow>
    sum_list (map f (xs[i := x])) + f (xs ! i) = sum_list (map f xs) + f x"
proof (induction xs arbitrary: i)
  case (Cons a xs)
  show ?case
  proof (cases i)
    case (Suc j)
    with Cons show ?thesis by (simp add: add.assoc)
  qed (simp add: ac_simps)
qed simp

end
