(* ===== verification/Providers_Finder.thy ===== *)
theory Providers_Finder
  imports Hydra_Prelude
begin

text \<open>
  \<^verbatim>\<open>src/providers/finder.go\<close>: the asynchronous provider finder, a bounded work queue served by
  worker goroutines, with a set of pending keys and a negative cache.

  The shared state is the record \<open>finder\<close>. Each step below is what one goroutine does while it
  holds a mutex or between two synchronisation points, so every interleaving of the Go program is
  a sequence of steps:
  \<^item> \<open>Find\<close> runs under \<open>pendingMut\<close>, one step;
  \<^item> a worker that handles a request takes it from the queue, receives providers one at a time,
    finishes (negative cache, metrics) and, in its deferred function, removes the key from
    \<open>pending\<close>: one step each;
  \<^item> \<open>Run\<close>, cancelling the context, a worker that notices it, and the metrics ticker are steps.

  The time cache library is a parameter \<open>tc\<close>; the router's answers and durations are chosen by the
  environment, so a step may receive any provider. The channel has a buffer of at least one slot
  (the program uses 1000), so a non-blocking send succeeds exactly when the buffer is not full.
  \<open>fs_prefetches\<close>, \<open>fs_provided\<close> and \<open>fs_gauges\<close> record the calls of \<open>recordPrefetches\<close>, of the
  \<open>onProvider\<close> callbacks and of the periodic metrics.
\<close>

section \<open>The code\<close>

subsection \<open>The negative cache\<close>

record 'c timecache =
  tc_Has :: "'c \<Rightarrow> bytes \<Rightarrow> bool"
  tc_Add :: "int \<Rightarrow> 'c \<Rightarrow> bytes \<Rightarrow> 'c option"   \<comment> \<open>time, cache, key; \<open>None\<close> is a panic\<close>
  tc_len :: "'c \<Rightarrow> nat"

definition idempotentTimeCache_Add :: "'c timecache \<Rightarrow> int \<Rightarrow> 'c \<Rightarrow> bytes \<Rightarrow> 'c option" where
  "idempotentTimeCache_Add tc now c s = (if \<not> tc_Has tc c s then tc_Add tc now c s else Some c)"

definition idempotentTimeCache_Len :: "'c timecache \<Rightarrow> 'c \<Rightarrow> nat" where
  "idempotentTimeCache_Len tc c = tc_len tc c"

definition idempotentTimeCache_Has :: "'c timecache \<Rightarrow> 'c \<Rightarrow> bytes \<Rightarrow> bool" where
  "idempotentTimeCache_Has tc c s = tc_Has tc c s"

subsection \<open>The finder\<close>

record ('r, 'cb) find_request =
  fr_router :: 'r
  fr_key :: bytes
  fr_onProvider :: 'cb

text \<open>What a worker goroutine is doing; \<open>WHandling\<close> carries \<open>foundProviders\<close>.\<close>

datatype ('r, 'cb) worker =
    WIdle
  | WHandling "('r, 'cb) find_request" bool
  | WDone "('r, 'cb) find_request"
  | WStopped

datatype prefetch_status = Failed_cached | Discarded | Failed | Succeeded

record ('c, 'r, 'cb, 'ma) finder =
  fs_workQueueSize :: nat
  fs_workQueue :: "('r, 'cb) find_request list"
  fs_pending :: "bytes set"
  fs_negativeCacheTTL :: int
  fs_negativeCache :: 'c
  fs_ctxDone :: bool
  fs_workers :: "('r, 'cb) worker list"
  fs_prefetches :: "(prefetch_status \<times> int option) list"
  fs_provided :: "('cb \<times> 'ma addr_info) list"
  fs_gauges :: "(nat \<times> nat \<times> int \<times> nat) list"

definition NewAsyncProvidersFinder ::
    "nat \<Rightarrow> int \<Rightarrow> (int \<Rightarrow> 'c) \<Rightarrow> ('c, 'r, 'cb, 'ma) finder" where
  "NewAsyncProvidersFinder queueSize negativeCacheTTL NewTimeCache =
     \<lparr>fs_workQueueSize = queueSize, fs_workQueue = [], fs_pending = {},
      fs_negativeCacheTTL = negativeCacheTTL, fs_negativeCache = NewTimeCache negativeCacheTTL,
      fs_ctxDone = False, fs_workers = [], fs_prefetches = [], fs_provided = [], fs_gauges = []\<rparr>"

definition recordPrefetches ::
    "prefetch_status \<Rightarrow> int option \<Rightarrow> ('c, 'r, 'cb, 'ma) finder \<Rightarrow> ('c, 'r, 'cb, 'ma) finder" where
  "recordPrefetches status duration a =
     a\<lparr>fs_prefetches := fs_prefetches a @ [(status, duration)]\<rparr>"

text \<open>\<open>Find\<close> always returns nil, so only the new state is returned.\<close>

definition asyncProvidersFinder_Find ::
    "'c timecache \<Rightarrow> ('c, 'r, 'cb, 'ma) finder \<Rightarrow> 'r \<Rightarrow> bytes \<Rightarrow> 'cb \<Rightarrow> ('c, 'r, 'cb, 'ma) finder" where
  "asyncProvidersFinder_Find tc a router key onProvider =
     (if key \<in> fs_pending a then a
      else if idempotentTimeCache_Has tc (fs_negativeCache a) key
      then recordPrefetches Failed_cached None a
      else if length (fs_workQueue a) < fs_workQueueSize a
      then a\<lparr>fs_workQueue := fs_workQueue a @
               [\<lparr>fr_router = router, fr_key = key, fr_onProvider = onProvider\<rparr>],
             fs_pending := insert key (fs_pending a)\<rparr>
      else recordPrefetches Discarded None a)"

definition asyncProvidersFinder_Run ::
    "('c, 'r, 'cb, 'ma) finder \<Rightarrow> nat \<Rightarrow> ('c, 'r, 'cb, 'ma) finder" where
  "asyncProvidersFinder_Run a numWorkers = a\<lparr>fs_workers := fs_workers a @ replicate numWorkers WIdle\<rparr>"

text \<open>\<open>int64(a.negativeCacheTTL.Seconds())\<close> for a duration in nanoseconds: truncation towards zero.\<close>

definition ttl_seconds :: "int \<Rightarrow> int" where
  "ttl_seconds d = sgn d * (\<bar>d\<bar> div 1000000000)"

definition publish_metrics ::
    "'c timecache \<Rightarrow> ('c, 'r, 'cb, 'ma) finder \<Rightarrow> ('c, 'r, 'cb, 'ma) finder" where
  "publish_metrics tc a =
     a\<lparr>fs_gauges := fs_gauges a @
         [(card (fs_pending a), idempotentTimeCache_Len tc (fs_negativeCache a),
           ttl_seconds (fs_negativeCacheTTL a), fs_workQueueSize a)]\<rparr>"

text \<open>\<open>case req := <-a.workQueue\<close> in worker \<open>i\<close>, up to the loop over the router's channel.\<close>

definition worker_take :: "nat \<Rightarrow> ('c, 'r, 'cb, 'ma) finder \<Rightarrow> ('c, 'r, 'cb, 'ma) finder" where
  "worker_take i a =
     (case fs_workQueue a of
        [] \<Rightarrow> a
      | req # rest \<Rightarrow>
          a\<lparr>fs_workQueue := rest, fs_workers := (fs_workers a)[i := WHandling req False]\<rparr>)"

text \<open>One iteration of \<open>for addrInfo := range req.router.FindProvidersAsync(...)\<close>.\<close>

definition worker_provider ::
    "nat \<Rightarrow> ('r, 'cb) find_request \<Rightarrow> 'ma addr_info \<Rightarrow>
     ('c, 'r, 'cb, 'ma) finder \<Rightarrow> ('c, 'r, 'cb, 'ma) finder" where
  "worker_provider i req addrInfo a =
     a\<lparr>fs_provided := fs_provided a @ [(fr_onProvider req, addrInfo)],
       fs_workers := (fs_workers a)[i := WHandling req True]\<rparr>"

text \<open>\<open>findTime.Milliseconds()\<close> for a duration in nanoseconds.\<close>

definition duration_Milliseconds :: "int \<Rightarrow> int" where
  "duration_Milliseconds d = sgn d * (\<bar>d\<bar> div 1000000)"

text \<open>The channel is closed: the rest of \<open>handleRequest\<close> up to its deferred function.\<close>

definition worker_finish ::
    "'c timecache \<Rightarrow> int \<Rightarrow> int \<Rightarrow> nat \<Rightarrow> ('r, 'cb) find_request \<Rightarrow> bool \<Rightarrow>
     ('c, 'r, 'cb, 'ma) finder \<Rightarrow> ('c, 'r, 'cb, 'ma) finder option" where
  "worker_finish tc now findTime i req foundProviders a =
     (let a1 = a\<lparr>fs_workers := (fs_workers a)[i := WDone req]\<rparr>
      in if \<not> foundProviders
         then (case idempotentTimeCache_Add tc now (fs_negativeCache a1) (fr_key req) of
                 None \<Rightarrow> None
               | Some c \<Rightarrow>
                   Some (recordPrefetches Failed (Some (duration_Milliseconds findTime)) (a1\<lparr>fs_negativeCache := c\<rparr>)))
         else Some (recordPrefetches Succeeded (Some (duration_Milliseconds findTime)) a1))"

text \<open>The deferred function: \<open>delete(a.pending, string(req.key))\<close>.\<close>

definition worker_done ::
    "nat \<Rightarrow> ('r, 'cb) find_request \<Rightarrow> ('c, 'r, 'cb, 'ma) finder \<Rightarrow> ('c, 'r, 'cb, 'ma) finder" where
  "worker_done i req a =
     a\<lparr>fs_pending := fs_pending a - {fr_key req}, fs_workers := (fs_workers a)[i := WIdle]\<rparr>"

text \<open>One whole \<open>handleRequest\<close> of worker \<open>i\<close> with the providers the router delivers.\<close>

definition handleRequest ::
    "'c timecache \<Rightarrow> int \<Rightarrow> int \<Rightarrow> nat \<Rightarrow> ('r, 'cb) find_request \<Rightarrow> 'ma addr_info list \<Rightarrow>
     ('c, 'r, 'cb, 'ma) finder \<Rightarrow> ('c, 'r, 'cb, 'ma) finder option" where
  "handleRequest tc now findTime i req addrInfos a =
     (let a1 = fold (worker_provider i req) addrInfos a
      in case worker_finish tc now findTime i req (addrInfos \<noteq> []) a1 of
           None \<Rightarrow> None
         | Some a2 \<Rightarrow> Some (worker_done i req a2))"

section \<open>Steps\<close>

inductive worker_step ::
    "'c timecache \<Rightarrow> ('c, 'r, 'cb, 'ma) finder \<Rightarrow> ('c, 'r, 'cb, 'ma) finder \<Rightarrow> bool" for tc where
  take: "i < length (fs_workers a) \<Longrightarrow> fs_workers a ! i = WIdle \<Longrightarrow> fs_workQueue a \<noteq> [] \<Longrightarrow>
    worker_step tc a (worker_take i a)"
| provider: "i < length (fs_workers a) \<Longrightarrow> fs_workers a ! i = WHandling req found \<Longrightarrow>
    worker_step tc a (worker_provider i req addrInfo a)"
| finish: "i < length (fs_workers a) \<Longrightarrow> fs_workers a ! i = WHandling req found \<Longrightarrow>
    worker_finish tc now findTime i req found a = Some a' \<Longrightarrow> worker_step tc a a'"
| complete: "i < length (fs_workers a) \<Longrightarrow> fs_workers a ! i = WDone req \<Longrightarrow>
    worker_step tc a (worker_done i req a)"

definition find_accepts :: "'c timecache \<Rightarrow> ('c, 'r, 'cb, 'ma) finder \<Rightarrow> bytes \<Rightarrow> bool" where
  "find_accepts tc a key \<longleftrightarrow> key \<notin> fs_pending a \<and>
     \<not> idempotentTimeCache_Has tc (fs_negativeCache a) key \<and>
     length (fs_workQueue a) < fs_workQueueSize a"

text \<open>
  Reachable states, from a new finder. The number \<open>n\<close> counts the calls of \<open>Find\<close> that were queued.
\<close>

inductive finder_reach ::
    "'c timecache \<Rightarrow> ('c, 'r, 'cb, 'ma) finder \<Rightarrow> nat \<Rightarrow> bool" for tc where
  new: "finder_reach tc (NewAsyncProvidersFinder queueSize ttl NewTimeCache) 0"
| find: "finder_reach tc a n \<Longrightarrow>
    finder_reach tc (asyncProvidersFinder_Find tc a router key onProvider)
      (if find_accepts tc a key then Suc n else n)"
| run: "finder_reach tc a n \<Longrightarrow> finder_reach tc (asyncProvidersFinder_Run a numWorkers) n"
| worker: "finder_reach tc a n \<Longrightarrow> worker_step tc a a' \<Longrightarrow> finder_reach tc a' n"
| cancel: "finder_reach tc a n \<Longrightarrow> finder_reach tc (a\<lparr>fs_ctxDone := True\<rparr>) n"
| stop: "finder_reach tc a n \<Longrightarrow> fs_ctxDone a \<Longrightarrow> i < length (fs_workers a) \<Longrightarrow>
    fs_workers a ! i = WIdle \<Longrightarrow>
    finder_reach tc (a\<lparr>fs_workers := (fs_workers a)[i := WStopped]\<rparr>) n"
| publish: "finder_reach tc a n \<Longrightarrow> finder_reach tc (publish_metrics tc a) n"


section \<open>Invariants\<close>

text \<open>The requests a worker is working on, and all requests being worked on.\<close>

fun worker_reqs :: "('r, 'cb) worker \<Rightarrow> ('r, 'cb) find_request multiset" where
  "worker_reqs WIdle = {#}"
| "worker_reqs (WHandling req _) = {#req#}"
| "worker_reqs (WDone req) = {#req#}"
| "worker_reqs WStopped = {#}"

definition inflight :: "('c, 'r, 'cb, 'ma) finder \<Rightarrow> ('r, 'cb) find_request multiset" where
  "inflight a = sum_list (map worker_reqs (fs_workers a))"

definition work_keys :: "('c, 'r, 'cb, 'ma) finder \<Rightarrow> bytes multiset" where
  "work_keys a = image_mset fr_key (mset (fs_workQueue a) + inflight a)"

definition finder_inv :: "('c, 'r, 'cb, 'ma) finder \<Rightarrow> bool" where
  "finder_inv a \<longleftrightarrow> finite (fs_pending a) \<and> mset_set (fs_pending a) = work_keys a \<and>
     length (fs_workQueue a) \<le> fs_workQueueSize a"

definition busy :: "('r, 'cb) worker \<Rightarrow> nat" where
  "busy w = (case w of WHandling _ _ \<Rightarrow> 1 | _ \<Rightarrow> 0)"

definition completed :: "('c, 'r, 'cb, 'ma) finder \<Rightarrow> nat" where
  "completed a = length (filter (\<lambda>(s, _). s = Succeeded \<or> s = Failed) (fs_prefetches a))"

definition accounted :: "('c, 'r, 'cb, 'ma) finder \<Rightarrow> nat" where
  "accounted a = length (fs_workQueue a) + sum_list (map busy (fs_workers a)) + completed a"

lemmas finder_defs = asyncProvidersFinder_Find_def asyncProvidersFinder_Run_def worker_take_def
  worker_provider_def worker_done_def publish_metrics_def recordPrefetches_def
  NewAsyncProvidersFinder_def

text \<open>Changing one worker changes the requests in flight by that worker's requests.\<close>

lemma inflight_update:
  assumes "i < length (fs_workers a)"
  shows "inflight (a\<lparr>fs_workers := (fs_workers a)[i := w]\<rparr>) + worker_reqs (fs_workers a ! i) =
    inflight a + worker_reqs w"
  using sum_list_update_add [OF assms, of worker_reqs w] by (simp add: inflight_def)

lemma busy_update:
  assumes "i < length ws"
  shows "sum_list (map busy (ws[i := w])) + busy (ws ! i) = sum_list (map busy ws) + busy w"
  by (rule sum_list_update_add [OF assms])

lemma worker_take_inflight:
  assumes "i < length (fs_workers a)" "fs_workers a ! i = WIdle" "fs_workQueue a = req # rest"
  shows "inflight (worker_take i a) = add_mset req (inflight a)"
  using inflight_update [OF assms(1), of "WHandling req False"] assms(2,3)
  by (simp add: worker_take_def inflight_def)

lemma worker_same_inflight:
  assumes "i < length (fs_workers a)" "worker_reqs (fs_workers a ! i) = worker_reqs w"
  shows "sum_list (map worker_reqs ((fs_workers a)[i := w])) = inflight a"
  using inflight_update [OF assms(1), of w] assms(2) by (simp add: inflight_def)

lemma worker_done_inflight:
  assumes "i < length (fs_workers a)" "fs_workers a ! i = WDone req"
  shows "inflight a = add_mset req (sum_list (map worker_reqs ((fs_workers a)[i := WIdle])))"
  using inflight_update [OF assms(1), of WIdle] assms(2) by (simp add: inflight_def)

lemma worker_finish_frame:
  assumes "worker_finish tc now ft i req found a = Some a'"
  shows "fs_workers a' = (fs_workers a)[i := WDone req]" "fs_workQueue a' = fs_workQueue a"
    "fs_pending a' = fs_pending a" "fs_workQueueSize a' = fs_workQueueSize a"
    "fs_prefetches a' = fs_prefetches a @ [(if found then Succeeded else Failed, Some (duration_Milliseconds ft))]"
  using assms
  by (auto simp: worker_finish_def recordPrefetches_def Let_def split: if_splits option.splits)

lemma worker_step_inv [inv_intros]:
  assumes "worker_step tc a a'" "finder_inv a"
  shows "finder_inv a'"
  using assms(1)
proof (cases rule: worker_step.cases)
  case (take i)
  then obtain req rest where "fs_workQueue a = req # rest" by (cases "fs_workQueue a") auto
  with take assms(2) worker_take_inflight [of i a req rest] show ?thesis
    by (auto simp: finder_inv_def work_keys_def worker_take_def)
next
  case (provider i req found addrInfo)
  with assms(2) worker_same_inflight [of i a "WHandling req True"] show ?thesis
    by (simp add: finder_inv_def work_keys_def worker_provider_def inflight_def)
next
  case (finish i req found now findTime)
  with assms(2) worker_same_inflight [of i a "WDone req"] worker_finish_frame [OF finish(3)]
  show ?thesis by (simp add: finder_inv_def work_keys_def inflight_def)
next
  case (complete i req)
  note d = worker_done_inflight [OF complete(2,3)]
  then have "fr_key req \<in># mset_set (fs_pending a)"
    using assms(2) by (simp add: work_keys_def finder_inv_def)
  moreover have fin: "finite (fs_pending a)" using assms(2) by (simp add: finder_inv_def)
  ultimately have "fr_key req \<in> fs_pending a" by simp
  then have "mset_set (fs_pending a) = add_mset (fr_key req) (mset_set (fs_pending a - {fr_key req}))"
    by (rule mset_set.remove [OF fin])
  with complete d assms(2) show ?thesis
    by (simp add: finder_inv_def work_keys_def worker_done_def inflight_def)
qed

lemma Find_inv [inv_intros]:
  "finder_inv a \<Longrightarrow> finder_inv (asyncProvidersFinder_Find tc a router key onProvider)"
  by (auto simp: finder_inv_def work_keys_def asyncProvidersFinder_Find_def recordPrefetches_def
      inflight_def)

lemma sum_list_replicate_empty [simp]: "sum_list (replicate n {#}) = {#}"
  by (induction n) auto

lemma Run_inv [inv_intros]: "finder_inv a \<Longrightarrow> finder_inv (asyncProvidersFinder_Run a n)"
  by (simp add: finder_inv_def work_keys_def asyncProvidersFinder_Run_def inflight_def)

lemma finder_reach_inv: "finder_reach tc a n \<Longrightarrow> finder_inv a"
proof (induction rule: finder_reach.induct)
  case (stop a n i)
  then show ?case
    using worker_same_inflight [of i a WStopped]
    by (simp add: finder_inv_def work_keys_def inflight_def)
next
  case (cancel a n)
  then show ?case by (simp add: finder_inv_def work_keys_def inflight_def)
next
  case (publish a n)
  then show ?case by (simp add: finder_inv_def work_keys_def inflight_def publish_metrics_def)
next
  case (new queueSize ttl NewTimeCache)
  show ?case by (simp add: finder_inv_def work_keys_def inflight_def NewAsyncProvidersFinder_def)
qed (auto intro: inv_intros)

subsection \<open>Accounting\<close>

lemma busy_simps [simp]:
  "busy WIdle = 0" "busy (WHandling r f) = 1" "busy (WDone r) = 0" "busy WStopped = 0"
  by (simp_all add: busy_def)

lemma worker_step_accounted:
  assumes "worker_step tc a a'"
  shows "accounted a' = accounted a"
  using assms
proof (cases rule: worker_step.cases)
  case (take i)
  then show ?thesis
    using busy_update [of i "fs_workers a"]
    by (cases "fs_workQueue a") (auto simp: accounted_def worker_take_def completed_def)
next
  case (provider i req found addrInfo)
  then show ?thesis
    using busy_update [of i "fs_workers a" "WHandling req True"]
    by (simp add: accounted_def worker_provider_def completed_def)
next
  case (finish i req found now findTime)
  then show ?thesis
    using busy_update [of i "fs_workers a" "WDone req"] worker_finish_frame [OF finish(3)]
    by (simp add: accounted_def completed_def)
next
  case (complete i req)
  then show ?thesis
    using busy_update [of i "fs_workers a" WIdle]
    by (simp add: accounted_def worker_done_def completed_def)
qed

lemma finder_reach_accounted: "finder_reach tc a n \<Longrightarrow> accounted a = n"
proof (induction rule: finder_reach.induct)
  case (find a n router key onProvider)
  then show ?case
    by (auto simp: accounted_def completed_def asyncProvidersFinder_Find_def recordPrefetches_def
        find_accepts_def)
next
  case (worker a n a')
  then show ?case using worker_step_accounted by metis
next
  case (stop a n i)
  then show ?case
    using busy_update [of i "fs_workers a" WStopped] by (simp add: accounted_def completed_def)
qed (simp_all add: accounted_def completed_def finder_defs sum_list_replicate)

subsection \<open>Progress\<close>

text \<open>
  What the code relies on of the time cache: adding an absent key succeeds and makes it present.
\<close>

definition timecache_ok :: "'c timecache \<Rightarrow> bool" where
  "timecache_ok tc \<longleftrightarrow>
     (\<forall>now c s. \<not> tc_Has tc c s \<longrightarrow> (\<exists>c'. tc_Add tc now c s = Some c' \<and> tc_Has tc c' s))"

lemma idempotentTimeCache_Add_ok:
  assumes "timecache_ok tc"
  shows "\<exists>c'. idempotentTimeCache_Add tc now c s = Some c' \<and> idempotentTimeCache_Has tc c' s"
  using assms by (auto simp: timecache_ok_def idempotentTimeCache_Add_def idempotentTimeCache_Has_def)

lemma worker_finish_ok:
  assumes "timecache_ok tc"
  shows "\<exists>a'. worker_finish tc now ft i req found a = Some a'"
  using idempotentTimeCache_Add_ok [OF assms, of now "fs_negativeCache a" "fr_key req"]
  by (auto simp: worker_finish_def Let_def)

fun work :: "('r, 'cb) worker \<Rightarrow> nat" where
  "work (WHandling _ _) = 2"
| "work (WDone _) = 1"
| "work _ = 0"

definition work_left :: "('c, 'r, 'cb, 'ma) finder \<Rightarrow> nat" where
  "work_left a = 3 * length (fs_workQueue a) + sum_list (map work (fs_workers a))"

lemma work_update:
  assumes "i < length ws"
  shows "sum_list (map work (ws[i := w])) + work (ws ! i) = sum_list (map work ws) + work w"
  by (rule sum_list_update_add [OF assms])

lemma work_progress:
  assumes tc: "timecache_ok tc" and live: "\<exists>w \<in> set (fs_workers a). w \<noteq> WStopped"
    and left: "0 < work_left a"
  shows "\<exists>a'. worker_step tc a a' \<and> work_left a' < work_left a \<and>
    (\<exists>w \<in> set (fs_workers a'). w \<noteq> WStopped)"
proof -
  let ?ws = "fs_workers a"
  consider (Handling) i req found where "i < length ?ws" "?ws ! i = WHandling req found"
    | (Done) i req where "i < length ?ws" "?ws ! i = WDone req"
    | (Idle) i where "i < length ?ws" "?ws ! i = WIdle"
        "\<forall>w \<in> set ?ws. work w = 0"
    using live by (metis in_set_conv_nth work.elims)
  then show ?thesis
  proof cases
    case (Handling i req found)
    obtain a' where a': "worker_finish tc 0 0 i req found a = Some a'"
      using worker_finish_ok [OF tc] by blast
    then have "worker_step tc a a'" using Handling worker_step.finish by blast
    moreover have "work_left a' < work_left a" "WDone req \<in> set (fs_workers a')"
      using worker_finish_frame [OF a'] work_update [of i ?ws "WDone req"] Handling
      by (auto simp: work_left_def set_update_memI)
    ultimately show ?thesis by (intro exI [of _ a']) auto
  next
    case (Done i req)
    then have "worker_step tc a (worker_done i req a)" by (rule worker_step.complete)
    moreover have "work_left (worker_done i req a) < work_left a"
        "WIdle \<in> set (fs_workers (worker_done i req a))"
      using work_update [of i ?ws WIdle] Done by (auto simp: work_left_def worker_done_def set_update_memI)
    ultimately show ?thesis by auto
  next
    case (Idle i)
    have "sum_list (map work ?ws) = 0" using Idle(3) by simp
    then have "0 < length (fs_workQueue a)" using left unfolding work_left_def by linarith
    then obtain req rest where q: "fs_workQueue a = req # rest" by (cases "fs_workQueue a") auto
    then have "worker_step tc a (worker_take i a)" using Idle(1,2) by (intro worker_step.take) auto
    moreover have "work_left (worker_take i a) < work_left a"
        "WHandling req False \<in> set (fs_workers (worker_take i a))"
      using work_update [of i ?ws "WHandling req False"] Idle q
      by (auto simp: work_left_def worker_take_def set_update_memI)
    ultimately show ?thesis by (intro exI [of _ "worker_take i a"]) auto
  qed
qed

lemma work_left_0:
  assumes "finder_inv a" "work_left a = 0"
  shows "fs_pending a = {}"
proof -
  have "worker_reqs w = {#}" if "w \<in> set (fs_workers a)" for w
    using assms(2) that by (cases w) (auto simp: work_left_def)
  then have "map worker_reqs (fs_workers a) = map (\<lambda>_. {#}) (fs_workers a)" by simp
  then have "inflight a = {#}" unfolding inflight_def by (metis map_replicate_const sum_list_replicate_empty)
  with assms show ?thesis
    by (auto simp: finder_inv_def work_keys_def work_left_def mset_set_empty_iff)
qed

lemma worker_steps_drain:
  assumes tc: "timecache_ok tc"
  shows "\<exists>w \<in> set (fs_workers a). w \<noteq> WStopped \<Longrightarrow>
    \<exists>a'. (worker_step tc)\<^sup>*\<^sup>* a a' \<and> work_left a' = 0"
proof (induction "work_left a" arbitrary: a rule: less_induct)
  case less
  show ?case
  proof (cases "work_left a = 0")
    case False
    then obtain a1 where "worker_step tc a a1" "work_left a1 < work_left a"
        "\<exists>w \<in> set (fs_workers a1). w \<noteq> WStopped"
      using work_progress [OF tc less.prems] by auto
    with less.hyps [of a1] show ?thesis by (meson converse_rtranclp_into_rtranclp)
  qed auto
qed

lemma work_busy: "busy w \<le> work w"
  by (cases w) simp_all

lemma inflight_bound: "size (inflight a) \<le> length (fs_workers a)"
proof -
  have "size (sum_list (map worker_reqs ws)) \<le> length ws" for ws :: "('a, 'b) worker list"
  proof (induction ws)
    case (Cons w ws)
    then show ?case by (cases w) simp_all
  qed simp
  then show ?thesis by (simp add: inflight_def)
qed

section \<open>A whole request\<close>

lemma worker_providers_fold:
  assumes "i < length (fs_workers a)" "fs_workers a ! i = WHandling req found"
  shows "fold (worker_provider i req) addrInfos a =
    a\<lparr>fs_provided := fs_provided a @ map (Pair (fr_onProvider req)) addrInfos,
      fs_workers := (fs_workers a)[i := WHandling req (found \<or> addrInfos \<noteq> [])]\<rparr>"
  using assms
proof (induction addrInfos arbitrary: a found)
  case Nil
  then have "(fs_workers a)[i := WHandling req found] = fs_workers a" by (metis list_update_id)
  then show ?case by simp
next
  case (Cons x xs)
  from Cons.prems Cons.IH [of "worker_provider i req x a" True] show ?case
    by (simp add: worker_provider_def)
qed

lemma handleRequest_eq:
  assumes "i < length (fs_workers a)" "fs_workers a ! i = WHandling req False"
  shows "handleRequest tc now ft i req addrInfos a =
    (if addrInfos = []
     then map_option (\<lambda>c. a\<lparr>fs_pending := fs_pending a - {fr_key req}, fs_negativeCache := c,
            fs_workers := (fs_workers a)[i := WIdle],
            fs_prefetches := fs_prefetches a @ [(Failed, Some (duration_Milliseconds ft))]\<rparr>)
          (idempotentTimeCache_Add tc now (fs_negativeCache a) (fr_key req))
     else Some (a\<lparr>fs_pending := fs_pending a - {fr_key req},
            fs_workers := (fs_workers a)[i := WIdle],
            fs_prefetches := fs_prefetches a @ [(Succeeded, Some (duration_Milliseconds ft))],
            fs_provided := fs_provided a @ map (Pair (fr_onProvider req)) addrInfos\<rparr>))"
  using worker_providers_fold [OF assms, of addrInfos]
  by (simp add: handleRequest_def worker_finish_def worker_done_def recordPrefetches_def Let_def
      split: option.split)

lemma providers_steps:
  assumes "i < length (fs_workers a)" "fs_workers a ! i = WHandling req found"
  shows "(worker_step tc)\<^sup>*\<^sup>* a (fold (worker_provider i req) addrInfos a)"
  using assms
proof (induction addrInfos arbitrary: a found)
  case (Cons x xs)
  then have "worker_step tc a (worker_provider i req x a)" by (intro worker_step.provider)
  moreover have "(worker_step tc)\<^sup>*\<^sup>* (worker_provider i req x a)
      (fold (worker_provider i req) xs (worker_provider i req x a))"
    using Cons.prems by (intro Cons.IH [of _ True]) (simp_all add: worker_provider_def)
  ultimately show ?case by simp
qed simp

lemma handleRequest_worker_steps:
  assumes i: "i < length (fs_workers a)" "fs_workers a ! i = WHandling req False"
    and h: "handleRequest tc now ft i req addrInfos a = Some a'"
  shows "(worker_step tc)\<^sup>*\<^sup>* a a'"
proof -
  let ?a1 = "fold (worker_provider i req) addrInfos a"
  obtain a2 where a2: "worker_finish tc now ft i req (addrInfos \<noteq> []) ?a1 = Some a2"
      "a' = worker_done i req a2"
    using h by (auto simp: handleRequest_def Let_def split: option.splits)
  have w: "i < length (fs_workers ?a1)" "fs_workers ?a1 ! i = WHandling req (addrInfos \<noteq> [])"
    using worker_providers_fold [OF i, of addrInfos] i(1) by simp_all
  have "(worker_step tc)\<^sup>*\<^sup>* a ?a1" by (rule providers_steps [OF i])
  also have "worker_step tc ?a1 a2" by (rule worker_step.finish [OF w a2(1)])
  also have "worker_step tc a2 a'"
    unfolding a2(2) using worker_finish_frame(1) [OF a2(1)] w
    by (intro worker_step.complete) simp_all
  finally show ?thesis .
qed

lemma finder_reach_steps:
  "(worker_step tc)\<^sup>*\<^sup>* a a' \<Longrightarrow> finder_reach tc a n \<Longrightarrow> finder_reach tc a' n"
  by (induction rule: rtranclp_induct) (auto intro: finder_reach.worker)

section \<open>Properties\<close>

text \<open>A concrete time cache and session for the witnesses.\<close>

definition list_timecache :: "bytes list timecache" where
  "list_timecache = \<lparr>tc_Has = (\<lambda>c k. k \<in> set c),
     tc_Add = (\<lambda>_ c k. if k \<in> set c then None else Some (k # c)), tc_len = length\<rparr>"

lemma list_timecache_ok: "timecache_ok list_timecache"
  by (simp add: timecache_ok_def list_timecache_def)

type_synonym example_finder = "(bytes list, unit, nat, nat) finder"

definition example_finder0 :: example_finder where
  "example_finder0 = NewAsyncProvidersFinder 2 60000000000 (\<lambda>_. [])"

definition example_finder1 :: example_finder where
  "example_finder1 = asyncProvidersFinder_Find list_timecache
     (asyncProvidersFinder_Find list_timecache example_finder0 () [1] 7) () [2] 8"

definition example_finder2 :: example_finder where
  "example_finder2 = worker_take 0 (asyncProvidersFinder_Run example_finder1 1)"

lemma example_finder1_reach: "finder_reach list_timecache example_finder1 2"
proof -
  have "finder_reach list_timecache example_finder0 0"
    unfolding example_finder0_def by (rule finder_reach.new)
  from finder_reach.find [OF finder_reach.find [OF this, of "()" "[1]" 7], of "()" "[2]" 8]
  show ?thesis
    by (simp add: example_finder1_def find_accepts_def example_finder0_def finder_defs
        list_timecache_def idempotentTimeCache_Has_def numeral_2_eq_2)
qed

lemma example_finder2_reach: "finder_reach list_timecache example_finder2 2"
proof -
  have "worker_step list_timecache (asyncProvidersFinder_Run example_finder1 1) example_finder2"
    unfolding example_finder2_def
    by (rule worker_step.take) (simp_all add: example_finder1_def example_finder0_def finder_defs
        list_timecache_def idempotentTimeCache_Has_def)
  with finder_reach.run [OF example_finder1_reach, of 1] show ?thesis
    by (rule finder_reach.worker)
qed

lemmas example_finder_defs = example_finder2_def example_finder1_def example_finder0_def
  finder_defs list_timecache_def idempotentTimeCache_Has_def idempotentTimeCache_Add_def

text \<open>
  C6: in every reachable state of the finder the pending map holds exactly the keys that are in
  the work queue or being handled by a worker, and each of them exactly once: no key is ever
  queried twice at the same time, and no key stays pending without work for it. The queue never
  exceeds its capacity, and there are never more pending keys than queue slots and workers.
\<close>

theorem finder_pending_exact:
  assumes "finder_reach tc a n"
  shows "finite (fs_pending a) \<and>
    (\<forall>key. count (work_keys a) key = (if key \<in> fs_pending a then 1 else 0)) \<and>
    length (fs_workQueue a) \<le> fs_workQueueSize a \<and>
    card (fs_pending a) \<le> fs_workQueueSize a + length (fs_workers a)"
proof -
  have inv: "finite (fs_pending a)" "work_keys a = mset_set (fs_pending a)"
      "length (fs_workQueue a) \<le> fs_workQueueSize a"
    using finder_reach_inv [OF assms] by (simp_all add: finder_inv_def)
  have "size (inflight a) \<le> length (fs_workers a)"
    by (rule inflight_bound)
  moreover have "card (fs_pending a) = length (fs_workQueue a) + size (inflight a)"
    using arg_cong [OF inv(2), of size] by (simp add: work_keys_def)
  ultimately show ?thesis using inv by (simp add: count_mset_set')
qed

theorem finder_pending_exact_witness:
  "finder_reach list_timecache example_finder2 2 \<and>
   fs_pending example_finder2 = {[1], [2]} \<and> work_keys example_finder2 = {#[1], [2]#} \<and>
   card (fs_pending example_finder2) \<le> 2 + 1"
proof -
  have "card (fs_pending example_finder2) \<le>
      fs_workQueueSize example_finder2 + length (fs_workers example_finder2)"
    using finder_pending_exact [OF example_finder2_reach] by simp
  then show ?thesis
    using example_finder2_reach
    by (auto simp: example_finder_defs work_keys_def inflight_def)
qed

text \<open>
  C7: nothing is lost and nothing is handled twice. In every reachable state the number of calls
  of \<open>Find\<close> that were accepted is the number of queued requests, plus the requests whose handler
  is running, plus the prefetches recorded as succeeded or failed.
\<close>

theorem finder_accounting:
  assumes "finder_reach tc a n"
  shows "n = length (fs_workQueue a) + sum_list (map busy (fs_workers a)) +
    length (filter (\<lambda>(s, _). s = Succeeded \<or> s = Failed) (fs_prefetches a))"
  using finder_reach_accounted [OF assms] by (simp add: accounted_def completed_def)

theorem finder_accounting_witness:
  "finder_reach list_timecache example_finder2 2 \<and>
   2 = length (fs_workQueue example_finder2) + sum_list (map busy (fs_workers example_finder2)) +
     length (filter (\<lambda>(s, _). s = Succeeded \<or> s = Failed) (fs_prefetches example_finder2))"
  using finder_accounting [OF example_finder2_reach] example_finder2_reach by simp

text \<open>
  C20: the workers can always finish the work. From every reachable state in which at least one
  worker has not stopped, and with a time cache that accepts absent keys, some sequence of worker
  steps (whose routers close their channels) empties the queue and the pending map, having
  recorded a result for every accepted request.
\<close>

theorem finder_drains:
  assumes "timecache_ok tc" "finder_reach tc a n" "\<exists>w \<in> set (fs_workers a). w \<noteq> WStopped"
  shows "\<exists>a'. (worker_step tc)\<^sup>*\<^sup>* a a' \<and> fs_pending a' = {} \<and> fs_workQueue a' = [] \<and>
    completed a' = n"
proof -
  obtain a' where a': "(worker_step tc)\<^sup>*\<^sup>* a a'" "work_left a' = 0"
    using worker_steps_drain [OF assms(1) assms(3)] by blast
  have r: "finder_reach tc a' n" by (rule finder_reach_steps [OF a'(1) assms(2)])
  have "sum_list (map busy (fs_workers a')) = 0"
    using a'(2) by (auto simp: work_left_def intro: le_0_eq [THEN iffD1, OF le_trans [OF work_busy]])
  then have "completed a' = n" "fs_workQueue a' = []"
    using finder_reach_accounted [OF r] a'(2) unfolding accounted_def work_left_def by auto
  with a' work_left_0 [OF finder_reach_inv [OF r]] show ?thesis by blast
qed

theorem finder_drains_witness:
  "finder_reach list_timecache example_finder2 2 \<and>
   (\<exists>a'. (worker_step list_timecache)\<^sup>*\<^sup>* example_finder2 a' \<and> fs_pending a' = {} \<and>
      fs_workQueue a' = [] \<and> completed a' = 2)"
proof -
  have "WHandling \<lparr>fr_router = (), fr_key = [1], fr_onProvider = 7\<rparr> False
      \<in> set (fs_workers example_finder2)"
    by (simp add: example_finder_defs)
  then have "\<exists>w \<in> set (fs_workers example_finder2). w \<noteq> WStopped" by (intro bexI) auto
  from finder_drains [OF list_timecache_ok example_finder2_reach this] example_finder2_reach
  show ?thesis by blast
qed

text \<open>
  \<open>Find\<close> does not block and drops what it cannot queue. A key that is pending changes
  nothing; a key in the negative cache or a full queue only records the reason; otherwise the
  request goes to the end of the queue and its key becomes pending. So a second \<open>Find\<close> for the
  same key, whoever asks, never queues a second request.
\<close>

theorem Find_queues_once:
  "fs_workQueue (asyncProvidersFinder_Find tc a router key onProvider) =
     (if find_accepts tc a key
      then fs_workQueue a @ [\<lparr>fr_router = router, fr_key = key, fr_onProvider = onProvider\<rparr>]
      else fs_workQueue a) \<and>
   fs_pending (asyncProvidersFinder_Find tc a router key onProvider) =
     (if find_accepts tc a key then insert key (fs_pending a) else fs_pending a) \<and>
   fs_prefetches (asyncProvidersFinder_Find tc a router key onProvider) = fs_prefetches a @
     (if key \<in> fs_pending a \<or> find_accepts tc a key then []
      else if idempotentTimeCache_Has tc (fs_negativeCache a) key then [(Failed_cached, None)]
      else [(Discarded, None)]) \<and>
   fs_workQueue (asyncProvidersFinder_Find tc
       (asyncProvidersFinder_Find tc a router key onProvider) router' key onProvider') =
     fs_workQueue (asyncProvidersFinder_Find tc a router key onProvider)"
  by (auto simp: asyncProvidersFinder_Find_def find_accepts_def recordPrefetches_def)

text \<open>
  One whole \<open>handleRequest\<close>, with a time cache that accepts absent keys, never panics. It
  calls \<open>onProvider\<close> once for each provider the router delivers, in order, and releases its key
  and its worker. With no provider the key goes to the negative cache, so the next \<open>Find\<close> for it
  is recorded as failed-cached and queues nothing; with a provider the cache is left alone.
\<close>

theorem handleRequest_correct:
  assumes "timecache_ok tc" "i < length (fs_workers a)" "fs_workers a ! i = WHandling req False"
  shows "\<exists>a'. handleRequest tc now ft i req addrInfos a = Some a' \<and>
    (worker_step tc)\<^sup>*\<^sup>* a a' \<and>
    fs_workers a' = (fs_workers a)[i := WIdle] \<and> fs_workQueue a' = fs_workQueue a \<and>
    fs_pending a' = fs_pending a - {fr_key req} \<and>
    fs_provided a' = fs_provided a @ map (Pair (fr_onProvider req)) addrInfos \<and>
    (addrInfos \<noteq> [] \<longrightarrow> fs_negativeCache a' = fs_negativeCache a) \<and>
    (addrInfos = [] \<longrightarrow> asyncProvidersFinder_Find tc a' router (fr_key req) onProvider =
       recordPrefetches Failed_cached None a')"
proof -
  obtain c where c: "idempotentTimeCache_Add tc now (fs_negativeCache a) (fr_key req) = Some c"
      "idempotentTimeCache_Has tc c (fr_key req)"
    using idempotentTimeCache_Add_ok [OF assms(1)] by blast
  note eq = handleRequest_eq [OF assms(2,3), of tc now ft addrInfos]
  obtain a' where a': "handleRequest tc now ft i req addrInfos a = Some a'"
    using eq c by (simp split: if_splits)
  with eq c handleRequest_worker_steps [OF assms(2,3) a'] show ?thesis
    by (auto simp: asyncProvidersFinder_Find_def split: if_splits)
qed

theorem handleRequest_correct_witness:
  "handleRequest list_timecache 0 0 0 \<lparr>fr_router = (), fr_key = [1], fr_onProvider = 7\<rparr> []
     example_finder2 \<noteq> None \<and>
   fs_workers example_finder2 ! 0 = WHandling \<lparr>fr_router = (), fr_key = [1], fr_onProvider = 7\<rparr> False"
proof -
  have "0 < length (fs_workers example_finder2)"
      "fs_workers example_finder2 ! 0 =
         WHandling \<lparr>fr_router = (), fr_key = [1], fr_onProvider = 7\<rparr> False"
    by (simp_all add: example_finder_defs)
  with handleRequest_correct [OF list_timecache_ok this, of 0 0 "[]"] show ?thesis by auto
qed

end
