(* ===== verification/Provider_Stores.thy ===== *)
theory Provider_Stores
  imports Hydra_Prelude "HOL-Library.AList"
begin

text \<open>
  \<^verbatim>\<open>src/providers/{noop,unsupported,combined,httpapi}.go\<close>: the provider stores that hold no
  records of their own, and the contract every provider store of the program keeps.

  A provider store is a pair of operations on a world \<open>'s\<close> that all stores share (tables, peer
  stores, the network). \<open>GetProviders\<close> may block for ever, which is the result \<open>None\<close>; otherwise
  it returns the new world, the providers and the error. A nil slice is the empty list.

  Goroutines of \<open>CombinedProviderStore\<close> run one atomic backend call each; the order in which their
  results arrive on the channel is the parameter \<open>arrive\<close>. Go's iteration over maps has an
  unspecified order: every such iteration has a parameter that permutes the entries. The
  \<open>go-multierror\<close> library, \<open>peer.ID.Validate\<close>, \<open>Multiaddr.String\<close>, \<open>multihash.Cast\<close> and CIDs are
  parameters; log messages are not modelled.

  The locale \<open>provider_store\<close> is the contract: a store never invents providers. Stores built from
  other stores (\<open>AddProviderNotSupported\<close>, \<open>CombineProviders\<close>) keep it when their parts do.
\<close>

section \<open>The interface\<close>

type_synonym ('s, 'ma) add_op = "bytes \<Rightarrow> 'ma addr_info \<Rightarrow> 's \<Rightarrow> 's \<times> go_error option"
type_synonym ('s, 'ma) get_op =
  "bytes \<Rightarrow> 's \<Rightarrow> ('s \<times> 'ma addr_info list \<times> go_error option) option"

record ('s, 'ma) provider_ops =
  ps_AddProvider :: "('s, 'ma) add_op"
  ps_GetProviders :: "('s, 'ma) get_op"

section \<open>The no-op store\<close>

definition NoopProviderStore_AddProvider :: "('s, 'ma) add_op" where
  "NoopProviderStore_AddProvider key prov s = (s, None)"

definition NoopProviderStore_GetProviders :: "('s, 'ma) get_op" where
  "NoopProviderStore_GetProviders key s = Some (s, [], None)"

definition NoopProviderStore :: "('s, 'ma) provider_ops" where
  "NoopProviderStore = \<lparr>ps_AddProvider = NoopProviderStore_AddProvider,
     ps_GetProviders = NoopProviderStore_GetProviders\<rparr>"

section \<open>Stores that cannot add\<close>

definition AddProviderNotSupportedProviderStore_AddProvider ::
    "('s, 'ma) provider_ops \<Rightarrow> ('s, 'ma) add_op" where
  "AddProviderNotSupportedProviderStore_AddProvider backend key prov s = (s, None)"

definition AddProviderNotSupportedProviderStore_GetProviders ::
    "('s, 'ma) provider_ops \<Rightarrow> ('s, 'ma) get_op" where
  "AddProviderNotSupportedProviderStore_GetProviders backend key s =
     ps_GetProviders backend key s"

definition AddProviderNotSupported ::
    "('s, 'ma) provider_ops \<Rightarrow> ('s, 'ma) provider_ops" where
  "AddProviderNotSupported backend =
     \<lparr>ps_AddProvider = AddProviderNotSupportedProviderStore_AddProvider backend,
      ps_GetProviders = AddProviderNotSupportedProviderStore_GetProviders backend\<rparr>"

section \<open>Combined stores\<close>

text \<open>
  \<open>*multierror.Error\<close> is \<open>'m option\<close> (\<open>None\<close> the nil pointer). \<open>Append\<close> returns its result; it
  cannot change the caller's nil pointer. A nil \<open>*multierror.Error\<close> returned as an \<open>error\<close> is a
  non-nil interface value, \<open>TypedNil\<close>.
\<close>

record 'm multierror_lib =
  me_Append :: "'m option \<Rightarrow> go_error \<Rightarrow> 'm"
  me_WrappedErrors :: "'m option \<Rightarrow> go_error list"
  me_AsError :: "'m \<Rightarrow> go_error"

definition errs_as_error :: "'m multierror_lib \<Rightarrow> 'm option \<Rightarrow> go_error" where
  "errs_as_error me errs = (case errs of None \<Rightarrow> TypedNil | Some m \<Rightarrow> me_AsError me m)"

text \<open>
  The receive loop of \<open>AddProvider\<close>. The statement \<open>multierror.Append(errs, e)\<close> drops its result,
  so \<open>errs\<close> keeps its value.
\<close>

fun combined_add_loop ::
    "'m multierror_lib \<Rightarrow> bytes \<Rightarrow> 'ma addr_info \<Rightarrow> ('s, 'ma) provider_ops list \<Rightarrow> 's \<Rightarrow>
     'm option \<Rightarrow> 's \<times> 'm option" where
  "combined_add_loop me key prov [] s errs = (s, errs)"
| "combined_add_loop me key prov (b # bs) s errs =
     (case ps_AddProvider b key prov s of
        (s', None) \<Rightarrow> combined_add_loop me key prov bs s' errs
      | (s', Some e) \<Rightarrow>
          (let discarded = me_Append me errs e in combined_add_loop me key prov bs s' errs))"

definition CombinedProviderStore_AddProvider ::
    "'m multierror_lib \<Rightarrow> (('s, 'ma) provider_ops list \<Rightarrow> ('s, 'ma) provider_ops list) \<Rightarrow>
     ('s, 'ma) provider_ops list \<Rightarrow> ('s, 'ma) add_op" where
  "CombinedProviderStore_AddProvider me arrive backends key prov s =
     (let (s', errs) = combined_add_loop me key prov (arrive backends) s None
      in (s', if length (me_WrappedErrors me errs) = length backends
              then Some (errs_as_error me errs) else None))"

definition mergeMultiaddrs ::
    "('ma \<Rightarrow> string) \<Rightarrow> ((string \<times> 'ma) list \<Rightarrow> (string \<times> 'ma) list) \<Rightarrow> 'ma list \<Rightarrow> 'ma list" where
  "mergeMultiaddrs str iter addrs =
     map snd (iter (fold (\<lambda>addr m. AList.update (str addr) addr m) addrs []))"

text \<open>The loop over \<open>infos\<close>; \<open>n\<close> numbers the calls of \<open>mergeMultiaddrs\<close>.\<close>

fun merge_loop ::
    "('ma \<Rightarrow> string) \<Rightarrow> (nat \<Rightarrow> (string \<times> 'ma) list \<Rightarrow> (string \<times> 'ma) list) \<Rightarrow> nat \<Rightarrow>
     'ma addr_info list \<Rightarrow> (peer_id \<times> 'ma list) list \<Rightarrow> (peer_id \<times> 'ma list) list" where
  "merge_loop str iterA n [] m = m"
| "merge_loop str iterA n (info # infos) m =
     merge_loop str iterA (Suc n) infos
       (AList.update (ai_ID info)
          (mergeMultiaddrs str (iterA n)
             ((case map_of m (ai_ID info) of None \<Rightarrow> [] | Some v \<Rightarrow> v) @ ai_Addrs info)) m)"

record 'ma merge_env =
  mv_String :: "'ma \<Rightarrow> string"                      \<comment> \<open>\<open>Multiaddr.String\<close>\<close>
  mv_Validate :: "peer_id \<Rightarrow> go_error option"       \<comment> \<open>\<open>peer.ID.Validate\<close>\<close>
  mv_iterA :: "nat \<Rightarrow> (string \<times> 'ma) list \<Rightarrow> (string \<times> 'ma) list"
  mv_iterI :: "(peer_id \<times> 'ma list) list \<Rightarrow> (peer_id \<times> 'ma list) list"

definition mergeAddrInfos :: "'ma merge_env \<Rightarrow> 'ma addr_info list \<Rightarrow> 'ma addr_info list" where
  "mergeAddrInfos mv infos =
     (let m = merge_loop (mv_String mv) (mv_iterA mv) 0 infos []
      in map (\<lambda>(k, v). \<lparr>ai_ID = k, ai_Addrs = v\<rparr>)
           (filter (\<lambda>(k, v). mv_Validate mv k = None) (mv_iterI mv m)))"

fun combined_get_loop ::
    "'m multierror_lib \<Rightarrow> bytes \<Rightarrow> ('s, 'ma) provider_ops list \<Rightarrow> 's \<Rightarrow> 'ma addr_info list \<Rightarrow>
     'm option \<Rightarrow> ('s \<times> 'ma addr_info list \<times> 'm option) option" where
  "combined_get_loop me key [] s infos errs = Some (s, infos, errs)"
| "combined_get_loop me key (b # bs) s infos errs =
     (case ps_GetProviders b key s of
        None \<Rightarrow> None
      | Some (s', AddrInfo, None) \<Rightarrow> combined_get_loop me key bs s' (infos @ AddrInfo) errs
      | Some (s', AddrInfo, Some e) \<Rightarrow>
          (let discarded = me_Append me errs e in combined_get_loop me key bs s' infos errs))"

definition CombinedProviderStore_GetProviders ::
    "'m multierror_lib \<Rightarrow> (('s, 'ma) provider_ops list \<Rightarrow> ('s, 'ma) provider_ops list) \<Rightarrow>
     'ma merge_env \<Rightarrow> ('s, 'ma) provider_ops list \<Rightarrow> ('s, 'ma) get_op" where
  "CombinedProviderStore_GetProviders me arrive mv backends key s =
     (case combined_get_loop me key (arrive backends) s [] None of
        None \<Rightarrow> None
      | Some (s', infos, errs) \<Rightarrow>
          (let infos = mergeAddrInfos mv infos
           in if length (me_WrappedErrors me errs) = length backends
              then Some (s', infos, Some (errs_as_error me errs))
              else Some (s', infos, None)))"

definition CombineProviders ::
    "'m multierror_lib \<Rightarrow> (('s, 'ma) provider_ops list \<Rightarrow> ('s, 'ma) provider_ops list) \<Rightarrow>
     'ma merge_env \<Rightarrow> ('s, 'ma) provider_ops list \<Rightarrow> ('s, 'ma) provider_ops" where
  "CombineProviders me arrive mv backends =
     \<lparr>ps_AddProvider = CombinedProviderStore_AddProvider me arrive backends,
      ps_GetProviders = CombinedProviderStore_GetProviders me arrive mv backends\<rparr>"

section \<open>The HTTP store\<close>

text \<open>
  The \<open>select\<close> of \<open>GetProviders\<close>: either the context is done, or the channel delivers a provider
  or is closed. A finite list of such events stands for what happens to one call; when it is used
  up the call waits for ever.
\<close>

datatype 'ma select_event =
    CtxDone go_error
  | Recv "'ma addr_info"
  | Closed

fun http_collect ::
    "'ma select_event list \<Rightarrow> 'ma addr_info list \<Rightarrow> ('ma addr_info list \<times> go_error option) option" where
  "http_collect [] provs = None"
| "http_collect (CtxDone e # evs) provs = Some (provs, Some e)"
| "http_collect (Closed # evs) provs = Some (provs, None)"
| "http_collect (Recv prov # evs) provs = http_collect evs (provs @ [prov])"

record ('s, 'cid, 'ma) http_env =
  he_Cast :: "bytes \<Rightarrow> bytes outcome"                \<comment> \<open>\<open>multihash.Cast\<close>\<close>
  he_NewCidV1 :: "nat \<Rightarrow> bytes \<Rightarrow> 'cid"
  he_FindProvidersAsync :: "'cid \<Rightarrow> nat \<Rightarrow> 's \<Rightarrow> 's \<times> 'ma select_event list"

definition cid_Raw :: nat where
  "cid_Raw = 0x55"

text \<open>\<open>NewHTTPProviderStore\<close>: \<open>newClient\<close> is \<open>drc.New\<close> followed by \<open>NewContentRoutingClient\<close>.\<close>

definition NewHTTPProviderStore :: "(string \<Rightarrow> 'cr outcome) \<Rightarrow> string \<Rightarrow> 'cr outcome" where
  "NewHTTPProviderStore newClient endpointURL =
     (case newClient endpointURL of
        Error e \<Rightarrow> Error (Wrapf ''building delegated routing HTTP client: '' e)
      | r \<Rightarrow> r)"

definition httpProvider_AddProvider :: "('s, 'cid, 'ma) http_env \<Rightarrow> ('s, 'ma) add_op" where
  "httpProvider_AddProvider he key prov s = (s, None)"

definition httpProvider_GetProviders :: "('s, 'cid, 'ma) http_env \<Rightarrow> ('s, 'ma) get_op" where
  "httpProvider_GetProviders he key s =
     (case he_Cast he key of
        Ok mh \<Rightarrow>
          (let c = he_NewCidV1 he cid_Raw mh;
               (s', evs) = he_FindProvidersAsync he c 100 s
           in case http_collect evs [] of
                None \<Rightarrow> None
              | Some (provs, err) \<Rightarrow> Some (s', provs, err))
      | Error e \<Rightarrow> Some (s, [], Some e)
      | Panic p \<Rightarrow> None)"

definition httpProvider :: "('s, 'cid, 'ma) http_env \<Rightarrow> ('s, 'ma) provider_ops" where
  "httpProvider he = \<lparr>ps_AddProvider = httpProvider_AddProvider he,
     ps_GetProviders = httpProvider_GetProviders he\<rparr>"

section \<open>Merging\<close>

definition iter_ok :: "('x list \<Rightarrow> 'x list) \<Rightarrow> bool" where
  "iter_ok iter \<longleftrightarrow> (\<forall>xs. mset (iter xs) = mset xs)"

definition merge_env_ok :: "'ma merge_env \<Rightarrow> bool" where
  "merge_env_ok mv \<longleftrightarrow> (\<forall>n. iter_ok (mv_iterA mv n)) \<and> iter_ok (mv_iterI mv)"

text \<open>What a list of infos says: the peers, and the printed addresses of a peer.\<close>

definition info_ids :: "'ma addr_info list \<Rightarrow> peer_id set" where
  "info_ids infos = ai_ID ` set infos"

definition info_addrs :: "'ma addr_info list \<Rightarrow> peer_id \<Rightarrow> 'ma set" where
  "info_addrs infos k = (\<Union>info \<in> {i \<in> set infos. ai_ID i = k}. set (ai_Addrs info))"

lemma info_append [simp]:
  "info_ids (xs @ ys) = info_ids xs \<union> info_ids ys"
  "info_addrs (xs @ ys) k = info_addrs xs k \<union> info_addrs ys k"
  by (auto simp: info_ids_def info_addrs_def)

lemma info_Cons [simp]:
  "info_ids (x # xs) = insert (ai_ID x) (info_ids xs)"
  "info_addrs (x # xs) k = (if ai_ID x = k then set (ai_Addrs x) else {}) \<union> info_addrs xs k"
  by (auto simp: info_ids_def info_addrs_def)

lemma info_Nil [simp]: "info_ids [] = {}" "info_addrs [] k = {}"
  by (simp_all add: info_ids_def info_addrs_def)

lemma iter_ok_set: "iter_ok iter \<Longrightarrow> set (iter xs) = set xs"
  unfolding iter_ok_def by (metis set_mset_mset)

lemma iter_ok_distinct:
  assumes "iter_ok iter" "distinct (map f xs)"
  shows "distinct (map f (iter xs))"
  using assms unfolding iter_ok_def by (metis mset_eq_imp_distinct_iff mset_map)

definition addr_map :: "('ma \<Rightarrow> string) \<Rightarrow> 'ma list \<Rightarrow> (string \<times> 'ma) list" where
  "addr_map str addrs = fold (\<lambda>addr m. AList.update (str addr) addr m) addrs []"

lemma addr_map_props:
  "distinct (map fst (addr_map str addrs)) \<and> fst ` set (addr_map str addrs) = str ` set addrs \<and>
   (\<forall>(k, v) \<in> set (addr_map str addrs). str v = k \<and> v \<in> set addrs)"
proof (induction addrs rule: rev_induct)
  case (snoc a addrs)
  let ?m = "addr_map str addrs"
  have "addr_map str (addrs @ [a]) = AList.update (str a) a ?m" by (simp add: addr_map_def)
  moreover have "set (AList.update (str a) a ?m) \<subseteq> insert (str a, a) (set ?m)"
  proof -
    have "set (AList.update k v m) \<subseteq> insert (k, v) (set m)" for k v and m :: "(string \<times> 'a) list"
      by (induction m) auto
    then show ?thesis .
  qed
  ultimately show ?case using snoc by (auto simp: distinct_update dom_update)
qed (simp add: addr_map_def)

lemma mergeMultiaddrs_props:
  assumes "iter_ok iter"
  shows "distinct (map str (mergeMultiaddrs str iter addrs))"
    "str ` set (mergeMultiaddrs str iter addrs) = str ` set addrs"
    "set (mergeMultiaddrs str iter addrs) \<subseteq> set addrs"
proof -
  let ?m = "addr_map str addrs"
  note p = addr_map_props [of str addrs]
  have eq: "mergeMultiaddrs str iter addrs = map snd (iter ?m)"
    by (simp add: mergeMultiaddrs_def addr_map_def)
  have st: "\<forall>e \<in> set (iter ?m). str (snd e) = fst e"
    using p iter_ok_set [OF assms, of ?m] by auto
  then have "map str (mergeMultiaddrs str iter addrs) = map fst (iter ?m)"
    unfolding eq by simp
  then show "distinct (map str (mergeMultiaddrs str iter addrs))"
    using iter_ok_distinct [OF assms] p by metis
  have "str ` set (mergeMultiaddrs str iter addrs) = fst ` set (iter ?m)"
    unfolding eq using st by (force simp: image_iff)
  then show "str ` set (mergeMultiaddrs str iter addrs) = str ` set addrs"
    using p iter_ok_set [OF assms, of ?m] by simp
  show "set (mergeMultiaddrs str iter addrs) \<subseteq> set addrs"
    unfolding eq using p iter_ok_set [OF assms, of ?m] by auto
qed

text \<open>The map after merging some infos.\<close>

definition merged :: "('ma \<Rightarrow> string) \<Rightarrow> 'ma addr_info list \<Rightarrow> (peer_id \<times> 'ma list) list \<Rightarrow> bool" where
  "merged str infos m \<longleftrightarrow> distinct (map fst m) \<and> fst ` set m = info_ids infos \<and>
     (\<forall>(k, v) \<in> set m. distinct (map str v) \<and> str ` set v = str ` info_addrs infos k \<and>
        set v \<subseteq> info_addrs infos k)"

lemma mergedD:
  assumes "merged str infos m" "(k, v) \<in> set m"
  shows "distinct (map str v)" "str ` set v = str ` info_addrs infos k"
    "set v \<subseteq> info_addrs infos k"
  using assms unfolding merged_def by fast+

lemma merged_lookup:
  assumes "merged str infos m"
  shows "str ` set (case map_of m k of None \<Rightarrow> [] | Some v \<Rightarrow> v) = str ` info_addrs infos k"
    "set (case map_of m k of None \<Rightarrow> [] | Some v \<Rightarrow> v) \<subseteq> info_addrs infos k"
proof -
  have "info_addrs infos k = {}" if "map_of m k = None"
    using that assms by (auto simp: merged_def map_of_eq_None_iff info_ids_def info_addrs_def)
  then show "str ` set (case map_of m k of None \<Rightarrow> [] | Some v \<Rightarrow> v) = str ` info_addrs infos k"
      "set (case map_of m k of None \<Rightarrow> [] | Some v \<Rightarrow> v) \<subseteq> info_addrs infos k"
    using mergedD [OF assms map_of_SomeD [of m k]] by (cases "map_of m k"; simp)+
qed

lemma merged_update:
  assumes m: "merged str infos m" and iter: "iter_ok iter"
  shows "merged str (infos @ [info])
    (AList.update (ai_ID info)
       (mergeMultiaddrs str iter
          ((case map_of m (ai_ID info) of None \<Rightarrow> [] | Some v \<Rightarrow> v) @ ai_Addrs info)) m)"
proof -
  let ?k = "ai_ID info"
  let ?l = "(case map_of m ?k of None \<Rightarrow> [] | Some v \<Rightarrow> v) @ ai_Addrs info"
  let ?v = "mergeMultiaddrs str iter ?l"
  note v = mergeMultiaddrs_props [OF iter, of str ?l]
  have v': "str ` set ?v = str ` info_addrs (infos @ [info]) ?k"
      "set ?v \<subseteq> info_addrs (infos @ [info]) ?k"
    using v(2,3) merged_lookup [OF m, of ?k] by (auto simp: image_Un)
  have sub: "(k, w) \<in> set (AList.update ?k ?v m) \<Longrightarrow>
      k = ?k \<and> w = ?v \<or> k \<noteq> ?k \<and> (k, w) \<in> set m" for k w
  proof -
    assume a: "(k, w) \<in> set (AList.update ?k ?v m)"
    have "distinct (map fst (AList.update ?k ?v m))"
      using m by (simp add: merged_def distinct_update)
    with a have "map_of (AList.update ?k ?v m) k = Some w" by simp
    then have "(if k = ?k then Some ?v else map_of m k) = Some w" by (simp add: update_conv')
    then show ?thesis by (auto split: if_splits dest: map_of_SomeD)
  qed
  have "distinct (map str w) \<and> str ` set w = str ` info_addrs (infos @ [info]) k \<and>
      set w \<subseteq> info_addrs (infos @ [info]) k"
    if "(k, w) \<in> set (AList.update ?k ?v m)" for k w
    using sub [OF that]
  proof
    assume "k = ?k \<and> w = ?v"
    then show ?thesis using v(1) v' by blast
  next
    assume "k \<noteq> ?k \<and> (k, w) \<in> set m"
    then show ?thesis using mergedD [OF m, of k w] by auto
  qed
  then have "\<forall>(k, w) \<in> set (AList.update ?k ?v m). distinct (map str w) \<and>
      str ` set w = str ` info_addrs (infos @ [info]) k \<and> set w \<subseteq> info_addrs (infos @ [info]) k"
    by fast
  moreover have "distinct (map fst (AList.update ?k ?v m))"
      "fst ` set (AList.update ?k ?v m) = info_ids (infos @ [info])"
    using m by (auto simp: merged_def distinct_update dom_update)
  ultimately show ?thesis unfolding merged_def by blast
qed

lemma merge_loop_merged:
  assumes "\<forall>n. iter_ok (iterA n)"
  shows "merged str seen m \<Longrightarrow> merged str (seen @ infos) (merge_loop str iterA n infos m)"
proof (induction infos arbitrary: n seen m)
  case (Cons info infos)
  from Cons.IH [OF merged_update [OF Cons.prems, of "iterA n" info]] assms show ?case by simp
qed simp

lemma mergeAddrInfos_props:
  assumes "merge_env_ok mv"
  shows "distinct (map ai_ID (mergeAddrInfos mv infos))"
    "info_ids (mergeAddrInfos mv infos) = {k \<in> info_ids infos. mv_Validate mv k = None}"
    "info \<in> set (mergeAddrInfos mv infos) \<Longrightarrow>
       distinct (map (mv_String mv) (ai_Addrs info)) \<and>
       mv_String mv ` set (ai_Addrs info) = mv_String mv ` info_addrs infos (ai_ID info) \<and>
       set (ai_Addrs info) \<subseteq> info_addrs infos (ai_ID info)"
proof -
  let ?m = "merge_loop (mv_String mv) (mv_iterA mv) 0 infos []"
  let ?f = "filter (\<lambda>(k, v). mv_Validate mv k = None) (mv_iterI mv ?m)"
  have m: "merged (mv_String mv) infos ?m"
    using merge_loop_merged [of "mv_iterA mv" "mv_String mv" "[]" "[]" infos 0] assms
    by (simp add: merge_env_ok_def merged_def)
  have it: "iter_ok (mv_iterI mv)" using assms by (simp add: merge_env_ok_def)
  have eq: "mergeAddrInfos mv infos = map (\<lambda>(k, v). \<lparr>ai_ID = k, ai_Addrs = v\<rparr>) ?f"
    by (simp add: mergeAddrInfos_def Let_def)
  have "map ai_ID (mergeAddrInfos mv infos) = map fst ?f" by (auto simp: eq)
  moreover have "distinct (map fst (mv_iterI mv ?m))"
    using m iter_ok_distinct [OF it] by (auto simp: merged_def)
  ultimately show "distinct (map ai_ID (mergeAddrInfos mv infos))"
    by (simp add: distinct_map_filter)
  have "info_ids (mergeAddrInfos mv infos) = {k \<in> fst ` set ?m. mv_Validate mv k = None}"
    by (force simp: info_ids_def eq iter_ok_set [OF it])
  then show "info_ids (mergeAddrInfos mv infos) = {k \<in> info_ids infos. mv_Validate mv k = None}"
    using m by (simp add: merged_def)
  show "distinct (map (mv_String mv) (ai_Addrs info)) \<and>
       mv_String mv ` set (ai_Addrs info) = mv_String mv ` info_addrs infos (ai_ID info) \<and>
       set (ai_Addrs info) \<subseteq> info_addrs infos (ai_ID info)"
    if mem: "info \<in> set (mergeAddrInfos mv infos)"
  proof -
    obtain k v where "(k, v) \<in> set ?m" "info = \<lparr>ai_ID = k, ai_Addrs = v\<rparr>"
      using mem by (auto simp: eq iter_ok_set [OF it])
    then show ?thesis using mergedD [OF m, of k v] by simp
  qed
qed

section \<open>The contract of provider stores\<close>

text \<open>
  \<open>ids w key\<close> is the set of providers the world \<open>w\<close> has for a key. Adding may only add the given
  provider for the given key, looking up adds nothing, and a look-up returns providers of the key.
\<close>

locale provider_store =
  fixes add :: "('s, 'ma) add_op"
    and get :: "('s, 'ma) get_op"
    and ids :: "'s \<Rightarrow> bytes \<Rightarrow> peer_id set"
  assumes add_ids:
    "ids (fst (add key prov s)) k \<subseteq> ids s k \<union> (if k = key then {ai_ID prov} else {})"
    and get_ids: "get key s = Some (s', infos, err) \<Longrightarrow> ids s' k \<subseteq> ids s k"
    and get_sound: "get key s = Some (s', infos, err) \<Longrightarrow> info_ids infos \<subseteq> ids s key"

text \<open>Operations of a session and the providers each look-up returned.\<close>

datatype 'ma store_op = PutOp bytes "'ma addr_info" | GetOp bytes

fun store_run ::
    "('s, 'ma) add_op \<Rightarrow> ('s, 'ma) get_op \<Rightarrow> 'ma store_op list \<Rightarrow> 's \<Rightarrow>
     ('s \<times> (bytes \<times> 'ma addr_info list) list) option" where
  "store_run add get [] s = Some (s, [])"
| "store_run add get (PutOp key prov # ops) s = store_run add get ops (fst (add key prov s))"
| "store_run add get (GetOp key # ops) s =
     (case get key s of
        None \<Rightarrow> None
      | Some (s', infos, err) \<Rightarrow>
          map_option (\<lambda>(s'', outs). (s'', (key, infos) # outs)) (store_run add get ops s'))"

definition added :: "'ma store_op list \<Rightarrow> bytes \<Rightarrow> peer_id set" where
  "added ops key = {ai_ID prov |prov. PutOp key prov \<in> set ops}"

lemma added_simps [simp]:
  "added [] k = {}"
  "added (PutOp key prov # ops) k = (if k = key then {ai_ID prov} else {}) \<union> added ops k"
  "added (GetOp key # ops) k = added ops k"
  by (auto simp: added_def)

context provider_store
begin

lemma run_ids:
  "store_run add get ops s = Some (s', outs) \<Longrightarrow> ids s' k \<subseteq> ids s k \<union> added ops k"
proof (induction ops arbitrary: s outs)
  case (Cons oper ops)
  show ?case
  proof (cases oper)
    case (PutOp key prov)
    with Cons.prems have "ids s' k \<subseteq> ids (fst (add key prov s)) k \<union> added ops k"
      by (intro Cons.IH) simp
    with add_ids [of key prov s k] PutOp show ?thesis by auto
  next
    case (GetOp key)
    with Cons.prems obtain s1 infos err outs' where g: "get key s = Some (s1, infos, err)"
        "store_run add get ops s1 = Some (s', outs')"
      by (auto split: option.splits)
    from Cons.IH [OF g(2)] get_ids [OF g(1), of k] GetOp show ?thesis by auto
  qed
qed simp

lemma run_sound:
  "store_run add get ops s = Some (s', outs) \<Longrightarrow> (key, infos) \<in> set outs \<Longrightarrow>
   info_ids infos \<subseteq> ids s key \<union> added ops key"
proof (induction ops arbitrary: s outs)
  case (Cons oper ops)
  show ?case
  proof (cases oper)
    case (PutOp k prov)
    with Cons.prems have "info_ids infos \<subseteq> ids (fst (add k prov s)) key \<union> added ops key"
      by (intro Cons.IH) simp_all
    with add_ids [of k prov s key] PutOp show ?thesis by auto
  next
    case (GetOp k)
    with Cons.prems obtain s1 infos1 err outs' where g: "get k s = Some (s1, infos1, err)"
        "store_run add get ops s1 = Some (s', outs')" "outs = (k, infos1) # outs'"
      by (auto split: option.splits)
    show ?thesis
    proof (cases "(key, infos) = (k, infos1)")
      case True
      with get_sound [OF g(1)] show ?thesis by auto
    next
      case False
      with Cons.prems g(3) have "(key, infos) \<in> set outs'" by auto
      from Cons.IH [OF g(2) this] get_ids [OF g(1), of key] GetOp show ?thesis by auto
    qed
  qed
qed simp

end

text \<open>A store as a record keeps the contract.\<close>

definition store_ok :: "('s \<Rightarrow> bytes \<Rightarrow> peer_id set) \<Rightarrow> ('s, 'ma) provider_ops \<Rightarrow> bool" where
  "store_ok ids b \<longleftrightarrow> provider_store (ps_AddProvider b) (ps_GetProviders b) ids"

interpretation noop: provider_store NoopProviderStore_AddProvider NoopProviderStore_GetProviders
    "\<lambda>_ _. {}"
  by unfold_locales
    (auto simp: NoopProviderStore_AddProvider_def NoopProviderStore_GetProviders_def)

text \<open>Stores built from stores that keep the contract keep it.\<close>

locale delegating_store =
  fixes backend :: "('s, 'ma) provider_ops" and ids :: "'s \<Rightarrow> bytes \<Rightarrow> peer_id set"
  assumes backend_ok: "store_ok ids backend"

lemma store_okD:
  assumes "store_ok ids b"
  shows "ids (fst (ps_AddProvider b key prov s)) k \<subseteq> ids s k \<union> (if k = key then {ai_ID prov} else {})"
    "ps_GetProviders b key s = Some (s', infos, err) \<Longrightarrow> ids s' k \<subseteq> ids s k"
    "ps_GetProviders b key s = Some (s', infos, err) \<Longrightarrow> info_ids infos \<subseteq> ids s key"
  using assms provider_store.add_ids provider_store.get_ids provider_store.get_sound
  unfolding store_ok_def by metis+

sublocale delegating_store \<subseteq> unsupported: provider_store
    "AddProviderNotSupportedProviderStore_AddProvider backend"
    "AddProviderNotSupportedProviderStore_GetProviders backend" ids
  by unfold_locales
    (auto simp: AddProviderNotSupportedProviderStore_AddProvider_def
      AddProviderNotSupportedProviderStore_GetProviders_def
      dest: store_okD(2,3) [OF backend_ok, THEN subsetD])

text \<open>\<open>AddProvider\<close> calls every backend and loses every error.\<close>

lemma combined_add_loop_eq:
  "combined_add_loop me key prov bs s errs =
     (foldl (\<lambda>s b. fst (ps_AddProvider b key prov s)) s bs, errs)"
  by (induction bs arbitrary: s) (auto simp: Let_def split: prod.split option.split)

lemma combined_add_ids:
  assumes "\<forall>b \<in> set bs. store_ok ids b"
  shows "ids (foldl (\<lambda>s b. fst (ps_AddProvider b key prov s)) s bs) k \<subseteq>
    ids s k \<union> (if k = key then {ai_ID prov} else {})"
  using assms
proof (induction bs arbitrary: s)
  case (Cons b bs)
  let ?s1 = "fst (ps_AddProvider b key prov s)"
  from Cons.IH [of ?s1] Cons.prems store_okD(1) [of ids b key prov s k] show ?case
    unfolding foldl_Cons by (meson Un_least list.set_intros order.trans sup_ge2)
qed simp

lemma combined_get_ids:
  assumes "combined_get_loop me key bs s infos errs = Some (s', infos', errs')"
    "\<forall>b \<in> set bs. store_ok ids b"
  shows "ids s' k \<subseteq> ids s k \<and> info_ids infos' \<subseteq> info_ids infos \<union> ids s key"
  using assms
proof (induction bs arbitrary: s infos)
  case (Cons b bs)
  obtain s1 out e where g: "ps_GetProviders b key s = Some (s1, out, e)"
    using Cons.prems(1) by (auto split: option.splits)
  let ?infos = "infos @ (if e = None then out else [])"
  have r: "combined_get_loop me key bs s1 ?infos errs = Some (s', infos', errs')"
    using Cons.prems(1) by (cases e) (simp_all add: g Let_def)
  have ok: "store_ok ids b" using Cons.prems(2) by simp
  from Cons.IH [OF r] Cons.prems(2)
  have "ids s' k \<subseteq> ids s1 k" "info_ids infos' \<subseteq> info_ids ?infos \<union> ids s1 key" by simp_all
  with store_okD(2) [OF ok g, of k] store_okD(2) [OF ok g, of key] store_okD(3) [OF ok g]
  show ?case by (auto split: if_splits)
qed simp

locale combined_store =
  fixes me :: "'m multierror_lib"
    and arrive :: "('s, 'ma) provider_ops list \<Rightarrow> ('s, 'ma) provider_ops list"
    and mv :: "'ma merge_env" and backends :: "('s, 'ma) provider_ops list"
    and ids :: "'s \<Rightarrow> bytes \<Rightarrow> peer_id set"
  assumes backends_ok: "\<forall>b \<in> set backends. store_ok ids b"
    and arrive_ok: "iter_ok arrive" and merge_ok: "merge_env_ok mv"

sublocale combined_store \<subseteq> combined: provider_store
    "CombinedProviderStore_AddProvider me arrive backends"
    "CombinedProviderStore_GetProviders me arrive mv backends" ids
proof
  have ok: "\<forall>b \<in> set (arrive backends). store_ok ids b"
    using backends_ok iter_ok_set [OF arrive_ok] by simp
  show "ids (fst (CombinedProviderStore_AddProvider me arrive backends key prov s)) k
      \<subseteq> ids s k \<union> (if k = key then {ai_ID prov} else {})" for key prov s k
    using combined_add_ids [OF ok, of key prov s k]
    by (simp add: CombinedProviderStore_AddProvider_def combined_add_loop_eq)
  show "ids s' k \<subseteq> ids s k" "info_ids infos \<subseteq> ids s key"
    if g: "CombinedProviderStore_GetProviders me arrive mv backends key s = Some (s', infos, err)"
    for key s s' infos err k
  proof -
    obtain infos0 errs where l: "combined_get_loop me key (arrive backends) s [] None =
        Some (s', infos0, errs)" "infos = mergeAddrInfos mv infos0"
      using g by (auto simp: CombinedProviderStore_GetProviders_def Let_def
          split: option.splits if_splits)
    from combined_get_ids [OF l(1) ok] mergeAddrInfos_props(2) [OF merge_ok, of infos0] l(2)
    show "ids s' k \<subseteq> ids s k" "info_ids infos \<subseteq> ids s key" by auto
  qed
qed

text \<open>The HTTP store is as good as the router behind it.\<close>

lemma http_collect_recv: "http_collect (map Recv ps @ evs) provs = http_collect evs (provs @ ps)"
  by (induction ps arbitrary: provs) simp_all

lemma http_collect_ids:
  "http_collect evs provs = Some (provs', err) \<Longrightarrow>
   info_ids provs' \<subseteq> info_ids provs \<union> {ai_ID p |p. Recv p \<in> set evs}"
  by (induction evs provs rule: http_collect.induct) auto

locale http_router =
  fixes he :: "('s, 'cid, 'ma) http_env" and ids :: "'s \<Rightarrow> bytes \<Rightarrow> peer_id set"
  assumes router_state: "he_FindProvidersAsync he c n s = (s', evs) \<Longrightarrow> ids s' k \<subseteq> ids s k"
    and router_sound: "he_Cast he key = Ok mh \<Longrightarrow>
      he_FindProvidersAsync he (he_NewCidV1 he cid_Raw mh) n s = (s', evs) \<Longrightarrow>
      Recv p \<in> set evs \<Longrightarrow> ai_ID p \<in> ids s key"

sublocale http_router \<subseteq> http: provider_store "httpProvider_AddProvider he"
    "httpProvider_GetProviders he" ids
proof
  show "ids (fst (httpProvider_AddProvider he key prov s)) k
      \<subseteq> ids s k \<union> (if k = key then {ai_ID prov} else {})" for key prov s k
    by (simp add: httpProvider_AddProvider_def)
  show "ids s' k \<subseteq> ids s k" "info_ids infos \<subseteq> ids s key"
    if g: "httpProvider_GetProviders he key s = Some (s', infos, err)" for key s s' infos err k
  proof -
    consider (ok) mh evs where "he_Cast he key = Ok mh"
        "he_FindProvidersAsync he (he_NewCidV1 he cid_Raw mh) 100 s = (s', evs)"
        "http_collect evs [] = Some (infos, err)"
      | (bad) "s' = s" "infos = []"
      using g by (auto simp: httpProvider_GetProviders_def Let_def
          split: outcome.splits prod.splits option.splits)
    then have "ids s' k \<subseteq> ids s k \<and> info_ids infos \<subseteq> ids s key"
    proof cases
      case ok
      from http_collect_ids [OF ok(3)] router_sound [OF ok(1,2)] router_state [OF ok(2), of k]
      show ?thesis by auto
    qed simp
    then show "ids s' k \<subseteq> ids s k" "info_ids infos \<subseteq> ids s key" by auto
  qed
qed

context combined_store
begin

lemmas session_sound = combined.run_sound

end

subsection \<open>The contract on concrete stores\<close>

text \<open>
  A network whose state is a table of provider records; keys shorter than two bytes are not
  multihashes.
\<close>

definition table_http :: "((bytes \<times> nat addr_info) list, bytes, nat) http_env" where
  "table_http = \<lparr>he_Cast = (\<lambda>key. if length key < 2 then Error (Errorf ''multihash too short'') else Ok key),
     he_NewCidV1 = (\<lambda>_ mh. mh),
     he_FindProvidersAsync = (\<lambda>c n s.
       (s, map Recv (take n (map snd (filter (\<lambda>(k, _). k = c) s))) @ [Closed]))\<rparr>"

definition table_ids :: "(bytes \<times> 'ma addr_info) list \<Rightarrow> bytes \<Rightarrow> peer_id set" where
  "table_ids s key = {ai_ID p |p. (key, p) \<in> set s}"

interpretation http: http_router table_http table_ids
  by unfold_locales
    (auto 0 3 simp: table_http_def table_ids_def dest!: in_set_takeD split: if_splits)

lemma table_http_ok: "store_ok table_ids (httpProvider table_http)"
  using http.http.provider_store_axioms by (simp add: store_ok_def httpProvider_def)

interpretation unsupported: delegating_store "httpProvider table_http" table_ids
  by unfold_locales (rule table_http_ok)

lemma table_unsupported_ok: "store_ok table_ids (AddProviderNotSupported (httpProvider table_http))"
  using unsupported.unsupported.provider_store_axioms
  by (simp add: store_ok_def AddProviderNotSupported_def)

lemma Noop_ok: "store_ok ids NoopProviderStore"
  by (auto simp: store_ok_def provider_store_def NoopProviderStore_def
      NoopProviderStore_AddProvider_def NoopProviderStore_GetProviders_def)

definition list_multierror :: "go_error list multierror_lib" where
  "list_multierror = \<lparr>me_Append = (\<lambda>m e. case m of None \<Rightarrow> [e] | Some es \<Rightarrow> es @ [e]),
     me_WrappedErrors = (\<lambda>m. case m of None \<Rightarrow> [] | Some es \<Rightarrow> es), me_AsError = MultiError\<rparr>"

definition nat_merge_env :: "nat merge_env" where
  "nat_merge_env = \<lparr>mv_String = (\<lambda>a. replicate a CHR ''a''),
     mv_Validate = (\<lambda>k. if k = [] then Some (Errorf ''empty peer ID'') else None),
     mv_iterA = (\<lambda>_ m. rev m), mv_iterI = rev\<rparr>"

lemma nat_merge_env_ok: "merge_env_ok nat_merge_env"
  by (simp add: merge_env_ok_def iter_ok_def nat_merge_env_def)

lemma rev_iter_ok: "iter_ok rev"
  by (simp add: iter_ok_def)

interpretation combined: combined_store list_multierror rev nat_merge_env
    "[AddProviderNotSupported (httpProvider table_http), NoopProviderStore]" table_ids
  by unfold_locales
    (simp_all add: table_unsupported_ok Noop_ok rev_iter_ok nat_merge_env_ok)

section \<open>Properties\<close>

text \<open>
  C21: \<open>mergeAddrInfos\<close>, whatever the iteration order of Go's maps, returns each peer once; the
  peers are the valid peers of the input; and the addresses of a peer are, up to printing, all the
  addresses the input has for it, each once. So the answer depends on the order of the input only
  by the order of the result.
\<close>

theorem mergeAddrInfos_correct:
  assumes "merge_env_ok mv"
  shows "distinct (map ai_ID (mergeAddrInfos mv infos)) \<and>
    info_ids (mergeAddrInfos mv infos) = {k \<in> info_ids infos. mv_Validate mv k = None} \<and>
    (\<forall>info \<in> set (mergeAddrInfos mv infos).
       distinct (map (mv_String mv) (ai_Addrs info)) \<and>
       mv_String mv ` set (ai_Addrs info) = mv_String mv ` info_addrs infos (ai_ID info) \<and>
       set (ai_Addrs info) \<subseteq> info_addrs infos (ai_ID info))"
  using mergeAddrInfos_props [OF assms] by blast

theorem mergeAddrInfos_correct_witness:
  "info_ids (mergeAddrInfos nat_merge_env
     [\<lparr>ai_ID = [1], ai_Addrs = [2, 3, 2]\<rparr>, \<lparr>ai_ID = [], ai_Addrs = [9]\<rparr>,
      \<lparr>ai_ID = [1], ai_Addrs = [4, 3]\<rparr>]) = {[1]} \<and>
   mergeAddrInfos nat_merge_env
     [\<lparr>ai_ID = [1], ai_Addrs = [2, 3, 2]\<rparr>, \<lparr>ai_ID = [], ai_Addrs = [9]\<rparr>,
      \<lparr>ai_ID = [1], ai_Addrs = [4, 3]\<rparr>] = [\<lparr>ai_ID = [1], ai_Addrs = [4, 2, 3]\<rparr>]"
  (is "?ids \<and> ?eq")
proof
  show ?ids
    using mergeAddrInfos_correct [OF nat_merge_env_ok, of
        "[\<lparr>ai_ID = [1], ai_Addrs = [2, 3, 2]\<rparr>, \<lparr>ai_ID = [], ai_Addrs = [9]\<rparr>,
          \<lparr>ai_ID = [1], ai_Addrs = [4, 3]\<rparr>]"]
    by (auto simp: nat_merge_env_def)
  show ?eq by code_simp
qed

text \<open>
  \<open>CombinedProviderStore.AddProvider\<close> gives the provider to every backend, once, in the order
  in which the goroutines run. With at least one backend it then reports success, even when every
  backend failed: the result of \<open>multierror.Append\<close> is dropped. (The comparison with the number of
  backends shows the intention: to fail when all backends fail.)
\<close>

theorem CombinedProviderStore_AddProvider_correct:
  assumes "me_WrappedErrors me None = []" "backends \<noteq> []"
  shows "CombinedProviderStore_AddProvider me arrive backends key prov s =
    (foldl (\<lambda>s b. fst (ps_AddProvider b key prov s)) s (arrive backends), None)"
  using assms by (simp add: CombinedProviderStore_AddProvider_def combined_add_loop_eq)

theorem CombinedProviderStore_AddProvider_correct_witness:
  "CombinedProviderStore_AddProvider list_multierror rev
     [\<lparr>ps_AddProvider = (\<lambda>key prov s. (s + (1 :: nat), Some (Errorf ''down''))),
       ps_GetProviders = (\<lambda>key s. None)\<rparr>] [1] \<lparr>ai_ID = [7], ai_Addrs = [0 :: nat]\<rparr> 0 = (1, None)"
proof -
  have "me_WrappedErrors list_multierror None = []" by (simp add: list_multierror_def)
  from CombinedProviderStore_AddProvider_correct [OF this, of
      "[\<lparr>ps_AddProvider = (\<lambda>key prov s. (s + (1 :: nat), Some (Errorf ''down''))),
         ps_GetProviders = (\<lambda>key s. None)\<rparr>]" rev "[1]" "\<lparr>ai_ID = [7], ai_Addrs = [0 :: nat]\<rparr>" 0]
  show ?thesis by simp
qed

lemma combined_get_loop_pure:
  assumes "\<forall>b \<in> set bs. ps_GetProviders b key s = Some (s, reply b, err b)"
  shows "combined_get_loop me key bs s infos errs =
    Some (s, infos @ concat (map reply (filter (\<lambda>b. err b = None) bs)), errs)"
  using assms
  by (induction bs arbitrary: infos) (auto simp: Let_def split: option.split)

lemma info_ids_concat: "info_ids (concat xss) = (\<Union>xs \<in> set xss. info_ids xs)"
  by (induction xss) auto

lemma info_addrs_concat: "info_addrs (concat xss) k = (\<Union>xs \<in> set xss. info_addrs xs k)"
  by (induction xss) auto

text \<open>
  C22: \<open>CombinedProviderStore.GetProviders\<close> returns the union of the answers of the backends that
  succeeded: exactly the valid peers in them, each once, with all the addresses the answers have
  for it, for every arrival order of the answers. With at least one backend the error is nil, also
  when every backend failed.
\<close>

theorem CombinedProviderStore_GetProviders_correct:
  assumes "merge_env_ok mv" "iter_ok arrive" "me_WrappedErrors me None = []" "backends \<noteq> []"
    and "\<forall>b \<in> set backends. ps_GetProviders b key s = Some (s, reply b, err b)"
  shows "\<exists>infos. CombinedProviderStore_GetProviders me arrive mv backends key s = Some (s, infos, None) \<and>
    distinct (map ai_ID infos) \<and>
    info_ids infos = {k \<in> (\<Union>b \<in> {b \<in> set backends. err b = None}. info_ids (reply b)).
      mv_Validate mv k = None} \<and>
    (\<forall>info \<in> set infos. mv_String mv ` set (ai_Addrs info) =
       mv_String mv ` (\<Union>b \<in> {b \<in> set backends. err b = None}. info_addrs (reply b) (ai_ID info)))"
proof -
  let ?bs = "filter (\<lambda>b. err b = None) (arrive backends)"
  let ?all = "concat (map reply ?bs)"
  have set: "set (arrive backends) = set backends" by (rule iter_ok_set [OF assms(2)])
  then have "combined_get_loop me key (arrive backends) s [] None = Some (s, ?all, None)"
    using combined_get_loop_pure [of "arrive backends" key s reply err me "[]" None] assms(5) by simp
  then have "CombinedProviderStore_GetProviders me arrive mv backends key s =
      Some (s, mergeAddrInfos mv ?all, None)"
    using assms(3,4) by (simp add: CombinedProviderStore_GetProviders_def)
  moreover have "info_ids ?all = (\<Union>b \<in> {b \<in> set backends. err b = None}. info_ids (reply b))"
      "info_addrs ?all k = (\<Union>b \<in> {b \<in> set backends. err b = None}. info_addrs (reply b) k)" for k
    by (auto simp: info_ids_concat info_addrs_concat set)
  ultimately show ?thesis
    using mergeAddrInfos_props(3) [OF assms(1), of _ ?all]
      mergeAddrInfos_props(1,2) [OF assms(1), of ?all]
    by (intro exI [of _ "mergeAddrInfos mv ?all"]) simp
qed

definition example_backend ::
    "nat addr_info list \<Rightarrow> go_error option \<Rightarrow> (unit, nat) provider_ops" where
  "example_backend infos err = \<lparr>ps_AddProvider = (\<lambda>key prov s. (s, err)),
     ps_GetProviders = (\<lambda>key s. Some (s, infos, err))\<rparr>"

theorem CombinedProviderStore_GetProviders_correct_witness:
  "\<exists>infos. CombinedProviderStore_GetProviders list_multierror rev nat_merge_env
      [example_backend [\<lparr>ai_ID = [1], ai_Addrs = [2]\<rparr>] None,
       example_backend [\<lparr>ai_ID = [5], ai_Addrs = [4]\<rparr>] (Some TypedNil)] [0] () =
     Some ((), infos, None) \<and> info_ids infos = {[1]}"
proof -
  let ?b1 = "example_backend [\<lparr>ai_ID = [1], ai_Addrs = [2]\<rparr>] None"
  let ?b2 = "example_backend [\<lparr>ai_ID = [5], ai_Addrs = [4]\<rparr>] (Some TypedNil)"
  let ?reply = "\<lambda>b. fst (snd (the (ps_GetProviders b [0] ())))"
  let ?err = "\<lambda>b. snd (snd (the (ps_GetProviders b [0] ())))"
  have w: "me_WrappedErrors list_multierror None = []" by (simp add: list_multierror_def)
  have r: "\<forall>b \<in> set [?b1, ?b2]. ps_GetProviders b [0] () = Some ((), ?reply b, ?err b)"
    by (simp add: example_backend_def)
  have "{b \<in> set [?b1, ?b2]. ?err b = None} = {?b1}" by (auto simp: example_backend_def)
  moreover have "info_ids (?reply ?b1) = {[1]}" by (simp add: example_backend_def)
  moreover have "mv_Validate nat_merge_env [1] = None" by (simp add: nat_merge_env_def)
  ultimately have "{k \<in> (\<Union>b \<in> {b \<in> set [?b1, ?b2]. ?err b = None}. info_ids (?reply b)).
      mv_Validate nat_merge_env k = None} = {[1]}"
    by (simp add: Collect_conv_if cong: conj_cong)
  with CombinedProviderStore_GetProviders_correct
      [where reply = ?reply and err = ?err, OF nat_merge_env_ok rev_iter_ok w list.discI [OF refl] r]
  show ?thesis by (elim ex_forward) simp
qed

text \<open>
  C23: no combination of stores invents providers. If every backend keeps the contract of provider
  stores, then in any session of \<open>AddProvider\<close> and \<open>GetProviders\<close> calls on the combined store, every
  provider returned for a key was in the world for that key at the start or was added for that key
  during the session.
\<close>

theorem combined_session_sound:
  assumes "\<forall>b \<in> set backends. store_ok ids b" "iter_ok arrive" "merge_env_ok mv"
    and "store_run (CombinedProviderStore_AddProvider me arrive backends)
      (CombinedProviderStore_GetProviders me arrive mv backends) ops s = Some (s', outs)"
    and "(key, infos) \<in> set outs"
  shows "info_ids infos \<subseteq> ids s key \<union> added ops key"
proof -
  have "combined_store arrive mv backends ids" using assms(1-3) by (rule combined_store.intro)
  from combined_store.session_sound [OF this assms(4,5)] show ?thesis .
qed

theorem combined_session_sound_witness:
  "\<exists>s' outs. store_run (CombinedProviderStore_AddProvider list_multierror rev
      [httpProvider table_http, NoopProviderStore])
     (CombinedProviderStore_GetProviders list_multierror rev nat_merge_env
      [httpProvider table_http, NoopProviderStore])
     [PutOp [1, 2] \<lparr>ai_ID = [7], ai_Addrs = []\<rparr>, GetOp [1, 2]]
     [([1, 2], \<lparr>ai_ID = [9], ai_Addrs = [3]\<rparr>)] = Some (s', outs) \<and>
   outs = [([1, 2], [\<lparr>ai_ID = [9], ai_Addrs = [3]\<rparr>])] \<and>
   (\<forall>(key, infos) \<in> set outs. info_ids infos \<subseteq>
      table_ids [([1, 2], \<lparr>ai_ID = [9], ai_Addrs = [3 :: nat]\<rparr>)] key \<union>
      added [PutOp [1, 2] \<lparr>ai_ID = [7], ai_Addrs = [] :: nat list\<rparr>, GetOp [1, 2]] key)"
proof -
  let ?bs = "[httpProvider table_http, NoopProviderStore]"
  let ?s = "[([1, 2], \<lparr>ai_ID = [9], ai_Addrs = [3 :: nat]\<rparr>)]"
  have "store_run (CombinedProviderStore_AddProvider list_multierror rev ?bs)
     (CombinedProviderStore_GetProviders list_multierror rev nat_merge_env ?bs)
     [PutOp [1, 2] \<lparr>ai_ID = [7], ai_Addrs = []\<rparr>, GetOp [1, 2]] ?s =
     Some (?s, [([1, 2], [\<lparr>ai_ID = [9], ai_Addrs = [3]\<rparr>])])"
    by code_simp
  moreover note combined_session_sound [OF _ rev_iter_ok nat_merge_env_ok this, of table_ids]
  ultimately show ?thesis by (simp add: table_http_ok Noop_ok)
qed

text \<open>
  \<open>httpProvider.GetProviders\<close> asks the delegated router for the raw CID of the multihash and at
  most 100 providers. It returns the providers received so far, in order, when the channel closes
  (no error) or when the context ends (the context's error); a key that is no multihash is an error
  and the network is not asked; while neither happens the call does not return.
\<close>

theorem httpProvider_GetProviders_correct:
  "(\<forall>e. he_Cast he key = Error e \<longrightarrow> httpProvider_GetProviders he key s = Some (s, [], Some e)) \<and>
   (\<forall>mh s' ps evs. he_Cast he key = Ok mh \<longrightarrow>
      he_FindProvidersAsync he (he_NewCidV1 he 85 mh) 100 s = (s', map Recv ps @ evs) \<longrightarrow>
      httpProvider_GetProviders he key s =
        (case evs of [] \<Rightarrow> None
         | Closed # _ \<Rightarrow> Some (s', ps, None)
         | CtxDone e # _ \<Rightarrow> Some (s', ps, Some e)
         | Recv p # evs' \<Rightarrow> map_option (\<lambda>(ps', err). (s', ps', err)) (http_collect evs' (ps @ [p]))))"
  by (auto simp: httpProvider_GetProviders_def http_collect_recv cid_Raw_def
      split: list.split select_event.split option.split)

theorem httpProvider_GetProviders_correct_witness:
  "httpProvider_GetProviders table_http [1, 2] [([1, 2], \<lparr>ai_ID = [9], ai_Addrs = [3]\<rparr>)] =
   Some ([([1, 2], \<lparr>ai_ID = [9], ai_Addrs = [3]\<rparr>)], [\<lparr>ai_ID = [9], ai_Addrs = [3]\<rparr>], None)"
proof -
  let ?s = "[([1, 2], \<lparr>ai_ID = [9], ai_Addrs = [3 :: nat]\<rparr>)]"
  have "he_Cast table_http [1, 2] = Ok [1, 2]"
    "he_FindProvidersAsync table_http (he_NewCidV1 table_http 85 [1, 2]) 100 ?s =
       (?s, map Recv [\<lparr>ai_ID = [9], ai_Addrs = [3]\<rparr>] @ [Closed])"
    by (simp_all add: table_http_def)
  from httpProvider_GetProviders_correct [THEN conjunct2, rule_format, OF this] show ?thesis by simp
qed

end
