(* ===== verification/Go_Strings.thy ===== *)
theory Go_Strings
  imports Hydra_Prelude "HOL-Library.Sublist"
begin

text \<open>
  What the program uses of Go's \<open>strings\<close> and \<open>strconv\<close> packages, over byte strings:
  \<open>strings.Split\<close> with a one-byte separator, \<open>strings.HasPrefix\<close> and \<open>strings.TrimPrefix\<close>,
  \<open>strings.Join\<close>, decimal formatting and parsing of integers with a bit size, and booleans.
  The lemmas are the laws the components rely on: splitting and joining are inverse, formatting
  and parsing are inverse, and parsing accepts exactly the range of the bit size.
\<close>

section \<open>Splitting\<close>

fun Split :: "char \<Rightarrow> string \<Rightarrow> string list" where
  "Split sep [] = [[]]"
| "Split sep (c # cs) =
     (if c = sep then [] # Split sep cs
      else (case Split sep cs of [] \<Rightarrow> [[c]] | w # ws \<Rightarrow> (c # w) # ws))"

fun Join :: "string list \<Rightarrow> string \<Rightarrow> string" where
  "Join [] sep = []"
| "Join [w] sep = w"
| "Join (w # ws) sep = w @ sep @ Join ws sep"

definition HasPrefix :: "string \<Rightarrow> string \<Rightarrow> bool" where
  "HasPrefix s p \<longleftrightarrow> take (length p) s = p"

definition TrimPrefix :: "string \<Rightarrow> string \<Rightarrow> string" where
  "TrimPrefix s p = (if HasPrefix s p then drop (length p) s else s)"

lemma Split_not_Nil [simp]: "Split sep s \<noteq> []"
  by (cases s) (auto split: list.split)

lemma Join_Cons: "ws \<noteq> [] \<Longrightarrow> Join (w # ws) sep = w @ sep @ Join ws sep"
  by (cases ws) auto

lemma Join_Split [simp]: "Join (Split sep s) [sep] = s"
proof (induction s)
  case (Cons c cs)
  obtain w ws where w: "Split sep cs = w # ws" by (cases "Split sep cs") auto
  with Cons show ?case by (cases "ws = []") (auto simp: Join_Cons)
qed simp

lemma Split_no_sep: "w \<in> set (Split sep s) \<Longrightarrow> sep \<notin> set w"
proof (induction s arbitrary: w)
  case (Cons c cs)
  obtain v vs where v: "Split sep cs = v # vs" by (cases "Split sep cs") auto
  from Cons.prems consider "c = sep" "w = [] \<or> w \<in> set (Split sep cs)"
    | "c \<noteq> sep" "w = c # v \<or> w \<in> set vs"
    by (auto simp: v split: if_splits)
  then show ?case using Cons.IH [of w] Cons.IH [of v] by cases (auto simp: v)
qed simp

lemma Split_word: "sep \<notin> set w \<Longrightarrow> Split sep w = [w]"
  by (induction w) auto

lemma Split_append: "sep \<notin> set w \<Longrightarrow> Split sep (w @ sep # s) = w # Split sep s"
  by (induction w) auto

lemma Split_Join:
  "ws \<noteq> [] \<Longrightarrow> \<forall>w \<in> set ws. sep \<notin> set w \<Longrightarrow> Split sep (Join ws [sep]) = ws"
proof (induction ws)
  case (Cons w ws)
  then show ?case by (cases "ws = []") (simp_all add: Split_word Split_append Join_Cons)
qed simp

lemma length_Split: "length (Split sep s) = Suc (count_list s sep)"
proof (induction s)
  case (Cons c cs)
  then show ?case by (cases "Split sep cs") auto
qed simp

lemma HasPrefix_append [simp]: "HasPrefix (p @ s) p"
  by (simp add: HasPrefix_def)

lemma TrimPrefix_append [simp]: "TrimPrefix (p @ s) p = s"
  by (simp add: TrimPrefix_def)

lemma HasPrefix_iff: "HasPrefix s p \<longleftrightarrow> (\<exists>t. s = p @ t)"
  by (metis HasPrefix_append HasPrefix_def append_take_drop_id)

section \<open>Numbers\<close>

definition digit_char :: "nat \<Rightarrow> char" where
  "digit_char d = char_of (48 + d)"

fun format_nat :: "nat \<Rightarrow> string" where
  "format_nat n =
     (if n < 10 then [digit_char n] else format_nat (n div 10) @ [digit_char (n mod 10)])"

declare format_nat.simps [simp del]

definition FormatInt :: "int \<Rightarrow> string" where
  "FormatInt i = (if i < 0 then CHR ''-'' # format_nat (nat (- i)) else format_nat (nat i))"

definition char_digit :: "char \<Rightarrow> nat option" where
  "char_digit c =
     (let n = of_char c :: nat in if 48 \<le> n \<and> n \<le> 57 then Some (n - 48) else None)"

fun parse_digits :: "nat \<Rightarrow> string \<Rightarrow> nat option" where
  "parse_digits acc [] = Some acc"
| "parse_digits acc (c # cs) =
     (case char_digit c of None \<Rightarrow> None | Some d \<Rightarrow> parse_digits (10 * acc + d) cs)"

definition ErrSyntax :: go_error where "ErrSyntax = Errorf ''invalid syntax''"
definition ErrRange :: go_error where "ErrRange = Errorf ''value out of range''"

text \<open>\<open>strconv.ParseUint\<close> without the bit size: at least one digit.\<close>

definition parse_nat :: "string \<Rightarrow> nat option" where
  "parse_nat s = (if s = [] then None else parse_digits 0 s)"

text \<open>\<open>strconv.ParseInt(s, 10, bits)\<close>.\<close>

definition ParseInt :: "nat \<Rightarrow> string \<Rightarrow> int outcome" where
  "ParseInt bits s =
     (let (neg, ds) = (case s of [] \<Rightarrow> (False, [])
                       | c # cs \<Rightarrow> if c = CHR ''+'' then (False, cs)
                                  else if c = CHR ''-'' then (True, cs) else (False, s))
      in case parse_nat ds of
           None \<Rightarrow> Error ErrSyntax
         | Some n \<Rightarrow>
             if \<not> neg \<and> 2 ^ (bits - 1) \<le> n then Error ErrRange
             else if neg \<and> 2 ^ (bits - 1) < n then Error ErrRange
             else Ok (if neg then - int n else int n))"

definition Atoi :: "string \<Rightarrow> int outcome" where
  "Atoi s = ParseInt 64 s"

definition Itoa :: "int \<Rightarrow> string" where
  "Itoa i = FormatInt i"

definition ParseBool :: "string \<Rightarrow> bool outcome" where
  "ParseBool s =
     (if s \<in> {''1'', ''t'', ''T'', ''true'', ''TRUE'', ''True''} then Ok True
      else if s \<in> {''0'', ''f'', ''F'', ''false'', ''FALSE'', ''False''} then Ok False
      else Error ErrSyntax)"

definition FormatBool :: "bool \<Rightarrow> string" where
  "FormatBool b = (if b then ''true'' else ''false'')"

lemma char_digit_char: "d < 10 \<Longrightarrow> char_digit (digit_char d) = Some d"
  by (simp add: char_digit_def digit_char_def)

lemma parse_digits_append:
  "parse_digits acc (s @ t) =
     (case parse_digits acc s of None \<Rightarrow> None | Some n \<Rightarrow> parse_digits n t)"
  by (induction s arbitrary: acc) (auto split: option.split)

lemma parse_format_nat: "parse_digits 0 (format_nat n) = Some n"
proof (induction n rule: format_nat.induct)
  case (1 n)
  show ?case
  proof (cases "n < 10")
    case False
    with 1 show ?thesis
      by (simp add: format_nat.simps [of n] parse_digits_append char_digit_char)
  qed (simp add: format_nat.simps [of n] char_digit_char)
qed

lemma format_nat_not_Nil [simp]: "format_nat n \<noteq> []"
  by (simp add: format_nat.simps [of n])

lemma parse_nat_format: "parse_nat (format_nat n) = Some n"
  by (simp add: parse_nat_def parse_format_nat)

lemma format_nat_digit: "c \<in> set (format_nat n) \<Longrightarrow> \<exists>d < 10. c = digit_char d"
proof (induction n rule: format_nat.induct)
  case (1 n)
  then show ?case
    by (cases "n < 10") (auto simp: format_nat.simps [of n] intro: exI [of _ "n mod 10"])
qed

lemma digit_char_not_sign: "d < 10 \<Longrightarrow> digit_char d \<noteq> CHR ''-'' \<and> digit_char d \<noteq> CHR ''+''"
  using char_digit_char [of d] by (auto simp: char_digit_def)

lemma format_nat_hd:
  assumes "format_nat n = c # cs"
  shows "c \<noteq> CHR ''-''" "c \<noteq> CHR ''+''"
  using format_nat_digit [of c n] digit_char_not_sign assms by auto

text \<open>Formatting an integer that fits the bit size and parsing it again gives the integer.\<close>

lemma ParseInt_FormatInt:
  assumes "- (2 ^ (bits - 1)) \<le> i" "i < 2 ^ (bits - 1)"
  shows "ParseInt bits (FormatInt i) = Ok i"
proof (cases "i < 0")
  case True
  then have "int (nat (- i)) \<le> int (2 ^ (bits - 1))" using assms(1) by simp
  then have "nat (- i) \<le> 2 ^ (bits - 1)" unfolding of_nat_le_iff .
  with True show ?thesis
    by (simp add: ParseInt_def FormatInt_def parse_nat_format Let_def not_less)
next
  case False
  then have "int (nat i) < int (2 ^ (bits - 1))" using assms(2) by simp
  then have lt: "nat i < 2 ^ (bits - 1)" unfolding of_nat_less_iff .
  obtain c cs where c: "format_nat (nat i) = c # cs" by (cases "format_nat (nat i)") auto
  with False lt format_nat_hd [OF c] parse_nat_format [of "nat i"] show ?thesis
    by (simp add: ParseInt_def FormatInt_def Let_def not_le)
qed

lemma ParseInt_range:
  assumes "ParseInt bits s = Ok i"
  shows "- (2 ^ (bits - 1)) \<le> i \<and> i < 2 ^ (bits - 1)"
proof -
  let ?b = "2 ^ (bits - 1) :: nat"
  obtain n where n: "i = int n \<and> n < ?b \<or> i = - int n \<and> n \<le> ?b"
    using assms by (auto simp: ParseInt_def Let_def not_less not_le split: option.splits if_splits prod.splits)
  have b: "int ?b = 2 ^ (bits - 1)" "0 < int ?b" by simp_all
  from n have "- int ?b \<le> i \<and> i < int ?b"
  proof
    assume "i = int n \<and> n < ?b"
    then show ?thesis using b(2) by linarith
  next
    assume "i = - int n \<and> n \<le> ?b"
    then show ?thesis using b(2) by linarith
  qed
  then show ?thesis by (simp only: b(1))
qed

lemma ParseInt_no_panic: "ParseInt bits s \<noteq> Panic p"
  by (auto simp: ParseInt_def Let_def split: option.splits if_splits prod.splits)

lemma ParseInt_Nil [simp]: "ParseInt bits [] = Error ErrSyntax"
  by (simp add: ParseInt_def parse_nat_def)

lemma ParseBool_FormatBool: "ParseBool (FormatBool b) = Ok b"
  by (simp add: ParseBool_def FormatBool_def)

end
