(* ===== verification/Ddb_Store.thy ===== *)
theory Ddb_Store
  imports Provider_Stores Go_Strings
begin

text \<open>
  \<^verbatim>\<open>src/providers/ddb.go\<close>: the provider store on a DynamoDB table.

  The DynamoDB client, the peer store, the clock and the metrics recorder are the parameter
  \<open>ddb_env\<close>, operations on the shared world. \<open>QueryLimit\<close> and the number of items are 32-bit
  integers, the expiry time is a 64-bit number of nanoseconds. The query loop is a
  \<open>partial_function\<close>: the value \<open>None\<close> is a call that never returns.
\<close>

section \<open>The DynamoDB interface\<close>

datatype attribute_value =
    AttributeValueMemberB bytes
  | AttributeValueMemberN string
  | AttributeValueOther string        \<comment> \<open>any other member type, by the name of its type\<close>

type_synonym item = "(string \<times> attribute_value) list"

record query_input =
  qi_TableName :: string
  qi_KeyConditionExpression :: string
  qi_ExpressionAttributeValues :: item
  qi_ExpressionAttributeNames :: "(string \<times> string) list"
  qi_ScanIndexForward :: bool
  qi_ExclusiveStartKey :: "item option"
  qi_Limit :: "32 word"

record query_output =
  qo_Items :: "item list"
  qo_LastEvaluatedKey :: item

record put_item_input =
  pi_TableName :: string
  pi_Item :: item
  pi_ConditionExpression :: string
  pi_ExpressionAttributeNames :: "(string \<times> string) list"

datatype ddb_stat = ProviderRecordsPerKey nat | PrefetchesLocal

record ('s, 'ma) ddb_env =
  de_Query :: "query_input \<Rightarrow> 's \<Rightarrow> 's \<times> query_output outcome"
  de_PutItem :: "put_item_input \<Rightarrow> 's \<Rightarrow> 's \<times> go_error option"
  de_isConditionalCheckFailed :: "go_error \<Rightarrow> bool"     \<comment> \<open>\<open>errors.As(err, &ccfe)\<close>\<close>
  de_DescribeTable :: "string \<Rightarrow> 's \<Rightarrow> 's \<times> int outcome"  \<comment> \<open>\<open>res.Table.ItemCount\<close>\<close>
  de_PeerInfo :: "peer_id \<Rightarrow> 's \<Rightarrow> 'ma addr_info"
  de_AddAddrs :: "peer_id \<Rightarrow> 'ma list \<Rightarrow> int \<Rightarrow> 's \<Rightarrow> 's"
  de_AddressTTL :: int
  de_Now :: "'s \<Rightarrow> int"                                \<comment> \<open>nanoseconds since the epoch\<close>
  de_Record :: "ddb_stat \<Rightarrow> 's \<Rightarrow> 's"

section \<open>The code\<close>

record dynamoDBProviderStore =
  ds_Self :: peer_id
  ds_TableName :: string
  ds_TTL :: int
  ds_QueryLimit :: "32 word"

text \<open>The constant \<open>"peer"\<close> as bytes.\<close>

definition peer_const :: peer_id where
  "peer_const = [112, 101, 101, 114]"

definition NewDynamoDBProviderStore ::
    "peer_id \<Rightarrow> string \<Rightarrow> int \<Rightarrow> 32 word \<Rightarrow> dynamoDBProviderStore" where
  "NewDynamoDBProviderStore self tableName ttl queryLimit =
     \<lparr>ds_Self = peer_const, ds_TableName = tableName, ds_TTL = ttl, ds_QueryLimit = queryLimit\<rparr>"

text \<open>
  \<open>Now().Add(d.TTL).UnixNano() / 1e9\<close>: the number of nanoseconds wraps at 64 bits and the division
  truncates towards zero.
\<close>

definition ttlEpoch :: "int \<Rightarrow> int \<Rightarrow> int" where
  "ttlEpoch now ttl =
     (let n = signed_take_bit 63 (now + ttl) in sgn n * (\<bar>n\<bar> div 1000000000))"

definition put_input :: "dynamoDBProviderStore \<Rightarrow> int \<Rightarrow> bytes \<Rightarrow> peer_id \<Rightarrow> put_item_input" where
  "put_input d now key prov =
     \<lparr>pi_TableName = ds_TableName d,
      pi_Item = [(''key'', AttributeValueMemberB key), (''prov'', AttributeValueMemberB prov),
                 (''ttl'', AttributeValueMemberN (FormatInt (ttlEpoch now (ds_TTL d))))],
      pi_ConditionExpression = ''attribute_not_exists(#k) AND attribute_not_exists(#t)'',
      pi_ExpressionAttributeNames = [(''#k'', ''key''), (''#t'', ''ttl'')]\<rparr>"

definition dynamoDBProviderStore_AddProvider ::
    "('s, 'ma) ddb_env \<Rightarrow> dynamoDBProviderStore \<Rightarrow> ('s, 'ma) add_op" where
  "dynamoDBProviderStore_AddProvider de d key prov s =
     (let s1 = (if ai_ID prov \<noteq> ds_Self d
                then de_AddAddrs de (ai_ID prov) (ai_Addrs prov) (de_AddressTTL de) s else s);
          (s2, err) = de_PutItem de (put_input d (de_Now de s1) key (ai_ID prov)) s1
      in case err of
           None \<Rightarrow> (s2, None)
         | Some e \<Rightarrow> if de_isConditionalCheckFailed de e then (s2, None) else (s2, Some e))"

definition query_input_for ::
    "dynamoDBProviderStore \<Rightarrow> bytes \<Rightarrow> item option \<Rightarrow> 32 word \<Rightarrow> query_input" where
  "query_input_for d key startKey providersLeft =
     \<lparr>qi_TableName = ds_TableName d, qi_KeyConditionExpression = ''#k = :key'',
      qi_ExpressionAttributeValues = [('':key'', AttributeValueMemberB key)],
      qi_ExpressionAttributeNames = [(''#k'', ''key'')],
      qi_ScanIndexForward = False, qi_ExclusiveStartKey = startKey, qi_Limit = providersLeft\<rparr>"

text \<open>The loop over \<open>res.Items\<close>: \<open>providersSet\<close> and \<open>providers\<close>.\<close>

fun scan_items ::
    "('s, 'ma) ddb_env \<Rightarrow> 's \<Rightarrow> item list \<Rightarrow> peer_id list \<Rightarrow> 'ma addr_info list \<Rightarrow>
     (peer_id list \<times> 'ma addr_info list) outcome" where
  "scan_items de s [] providersSet providers = Ok (providersSet, providers)"
| "scan_items de s (item # items) providersSet providers =
     (case map_of item ''prov'' of
        None \<Rightarrow> Error (Errorf ''unexpected item without a 'prov' attribute'')
      | Some (AttributeValueMemberB provStr) \<Rightarrow>
          (let addrInfo = de_PeerInfo de provStr s
           in if provStr \<notin> set providersSet
              then scan_items de s items (provStr # providersSet) (providers @ [addrInfo])
              else scan_items de s items providersSet providers)
      | Some _ \<Rightarrow> Error (Errorf ''unexpected value type for 'prov' attribute''))"

text \<open>
  One iteration of the query loop: it ends the function (\<open>Inl\<close>) or continues with new values of
  \<open>providersLeft\<close>, \<open>providersSet\<close>, \<open>providers\<close> and the world. \<open>startKey\<close> is declared before the loop
  and never assigned.
\<close>

type_synonym ('s, 'ma) query_state = "32 word \<times> peer_id list \<times> 'ma addr_info list \<times> 's"

definition query_iter ::
    "('s, 'ma) ddb_env \<Rightarrow> dynamoDBProviderStore \<Rightarrow> bytes \<Rightarrow> item option \<Rightarrow> ('s, 'ma) query_state \<Rightarrow>
     ('s \<times> 'ma addr_info list outcome) + ('s, 'ma) query_state" where
  "query_iter de d key startKey = (\<lambda>(providersLeft, providersSet, providers, s).
     case de_Query de (query_input_for d key startKey providersLeft) s of
        (s1, Error e) \<Rightarrow> Inl (s1, Error e)
      | (s1, Panic p) \<Rightarrow> Inl (s1, Panic p)
      | (s1, Ok res) \<Rightarrow>
          (case scan_items de s1 (qo_Items res) providersSet providers of
             Error e \<Rightarrow> Inl (s1, Error e)
           | Panic p \<Rightarrow> Inl (s1, Panic p)
           | Ok (providersSet', providers') \<Rightarrow>
               (let numItems = word_of_nat (length (qo_Items res)) :: 32 word
                in if sint providersLeft \<le> sint numItems \<or> qo_LastEvaluatedKey res = []
                   then Inl (s1, Ok providers')
                   else Inr (providersLeft - numItems, providersSet', providers', s1))))"

partial_function (option) query_loop ::
    "('s, 'ma) ddb_env \<Rightarrow> dynamoDBProviderStore \<Rightarrow> bytes \<Rightarrow> item option \<Rightarrow> ('s, 'ma) query_state \<Rightarrow>
     ('s \<times> 'ma addr_info list outcome) option" where
  "query_loop de d key startKey st =
     (case query_iter de d key startKey st of
        Inl r \<Rightarrow> Some r
      | Inr st' \<Rightarrow> query_loop de d key startKey st')"

declare query_loop.simps [code]

definition dynamoDBProviderStore_GetProviders ::
    "('s, 'ma) ddb_env \<Rightarrow> dynamoDBProviderStore \<Rightarrow> ('s, 'ma) get_op" where
  "dynamoDBProviderStore_GetProviders de d key s =
     (case query_loop de d key None (ds_QueryLimit d, [], [], s) of
        None \<Rightarrow> None
      | Some (s1, Panic p) \<Rightarrow> None
      | Some (s1, Error e) \<Rightarrow> Some (s1, [], Some e)
      | Some (s1, Ok providers) \<Rightarrow>
          (let s2 = de_Record de (ProviderRecordsPerKey (length providers)) s1;
               s3 = (if providers \<noteq> [] then de_Record de PrefetchesLocal s2 else s2)
           in Some (s3, providers, None)))"

definition CountProviderRecords ::
    "('s, 'ma) ddb_env \<Rightarrow> dynamoDBProviderStore \<Rightarrow> 's \<Rightarrow> 's \<times> int outcome" where
  "CountProviderRecords de d s = de_DescribeTable de (ds_TableName d) s"

definition DynamoDBProviderStore ::
    "('s, 'ma) ddb_env \<Rightarrow> dynamoDBProviderStore \<Rightarrow> ('s, 'ma) provider_ops" where
  "DynamoDBProviderStore de d = \<lparr>ps_AddProvider = dynamoDBProviderStore_AddProvider de d,
     ps_GetProviders = dynamoDBProviderStore_GetProviders de d\<rparr>"

section \<open>Scanning a page\<close>

definition item_prov :: "item \<Rightarrow> peer_id option" where
  "item_prov item =
     (case map_of item ''prov'' of Some (AttributeValueMemberB p) \<Rightarrow> Some p | _ \<Rightarrow> None)"

text \<open>The first occurrences of the elements of a list that are not in a set.\<close>

fun first_occ :: "'a set \<Rightarrow> 'a list \<Rightarrow> 'a list" where
  "first_occ S [] = []"
| "first_occ S (x # xs) = (if x \<in> S then first_occ S xs else x # first_occ (insert x S) xs)"

lemma first_occ_set: "set (first_occ S xs) = set xs - S"
  by (induction S xs rule: first_occ.induct) auto

lemma first_occ_distinct: "distinct (first_occ S xs)"
  by (induction S xs rule: first_occ.induct) (auto simp: first_occ_set)

lemma first_occ_append:
  "first_occ S (xs @ ys) = first_occ S xs @ first_occ (S \<union> set xs) ys"
  by (induction S xs rule: first_occ.induct) (auto simp: insert_absorb)

lemma first_occ_id: "distinct xs \<Longrightarrow> set xs \<inter> S = {} \<Longrightarrow> first_occ S xs = xs"
  by (induction S xs rule: first_occ.induct) auto

lemma scan_items_ok:
  assumes "\<forall>i \<in> set items. item_prov i \<noteq> None"
  shows "\<exists>set'. scan_items de s items ps provs =
      Ok (set', provs @ map (\<lambda>p. de_PeerInfo de p s) (first_occ (set ps) (map (the \<circ> item_prov) items)))
    \<and> set set' = set ps \<union> set (map (the \<circ> item_prov) items)"
  using assms
proof (induction items arbitrary: ps provs)
  case (Cons i items)
  then obtain p where p: "map_of i ''prov'' = Some (AttributeValueMemberB p)"
    by (auto simp: item_prov_def split: option.splits attribute_value.splits)
  then have ip: "item_prov i = Some p" by (simp add: item_prov_def)
  show ?case
  proof (cases "p \<in> set ps")
    case True
    with Cons.IH [of ps provs] Cons.prems p ip show ?thesis by (auto simp: Let_def)
  next
    case False
    with Cons.IH [of "p # ps" "provs @ [de_PeerInfo de p s]"] Cons.prems p ip show ?thesis
      by (auto simp: Let_def)
  qed
qed simp

lemma scan_items_bad:
  assumes "i \<in> set items" "item_prov i = None"
  shows "\<exists>e. scan_items de s items ps provs = Error e"
  using assms
proof (induction items arbitrary: ps provs)
  case (Cons j items)
  then show ?case
    by (auto simp: item_prov_def Let_def split: option.splits attribute_value.splits)
qed simp

lemma scan_items_no_panic: "scan_items de s items ps provs \<noteq> Panic p"
  by (induction items arbitrary: ps provs)
    (auto simp: Let_def split: option.splits attribute_value.splits)

section \<open>Rules for the query loop\<close>

lemma query_loop_rule:
  fixes de :: "('s, 'ma) ddb_env"
  assumes init: "Inv st"
    and step: "\<And>st st'. Inv st \<Longrightarrow> query_iter de d key startKey st = Inr st' \<Longrightarrow> Inv st'"
    and final: "\<And>st r. Inv st \<Longrightarrow> query_iter de d key startKey st = Inl r \<Longrightarrow> Q r"
    and run: "query_loop de d key startKey st = Some r"
  shows "Q r"
proof -
  let ?P = "\<lambda>de' d' key' startKey' st r.
    de' = de \<and> d' = d \<and> key' = key \<and> startKey' = startKey \<and> Inv st \<longrightarrow> Q r"
  have "?P de d key startKey st r"
  proof (rule query_loop.raw_induct [where P = ?P, OF _ run])
    fix f :: "('s, 'ma) ddb_env \<Rightarrow> dynamoDBProviderStore \<Rightarrow> bytes \<Rightarrow> item option \<Rightarrow>
      ('s, 'ma) query_state \<Rightarrow> ('s \<times> 'ma addr_info list outcome) option"
    fix de' d' key' startKey' st r
    assume IH: "\<And>de' d' key' startKey' st r.
        f de' d' key' startKey' st = Some r \<Longrightarrow> ?P de' d' key' startKey' st r"
      and eq: "(case query_iter de' d' key' startKey' st of
          Inl r \<Rightarrow> Some r | Inr st' \<Rightarrow> f de' d' key' startKey' st') = Some r"
    show "?P de' d' key' startKey' st r"
    proof (intro impI, elim conjE)
      assume *: "de' = de" "d' = d" "key' = key" "startKey' = startKey" "Inv st"
      show "Q r"
      proof (cases "query_iter de d key startKey st")
        case (Inl x)
        with eq * final [OF *(5)] show ?thesis by (simp add: split_paired_all)
      next
        case (Inr st')
        with eq * have "f de d key startKey st' = Some r" by simp
        from IH [OF this] step [OF *(5) Inr] show ?thesis by blast
      qed
    qed
  qed
  with init show ?thesis by simp
qed

text \<open>A loop whose iterations decrease a measure returns.\<close>

lemma query_loop_terminates:
  fixes m :: "('s, 'ma) query_state \<Rightarrow> nat"
  assumes "\<And>st st'. query_iter de d key startKey st = Inr st' \<Longrightarrow> m st' < m st"
  shows "\<exists>r. query_loop de d key startKey st = Some r"
proof (induction "m st" arbitrary: st rule: less_induct)
  case less
  then show ?case
    using assms [of st] by (cases "query_iter de d key startKey st") (auto simp: query_loop.simps)
qed

lemma query_loop_diverges:
  assumes "Inv st" "\<And>st. Inv st \<Longrightarrow> \<exists>st'. query_iter de d key startKey st = Inr st' \<and> Inv st'"
  shows "query_loop de d key startKey st = None"
proof (rule ccontr)
  assume "query_loop de d key startKey st \<noteq> None"
  then obtain r where "query_loop de d key startKey st = Some r" by auto
  from query_loop_rule [where Q = "\<lambda>_. False" and Inv = Inv, OF assms(1) _ _ this] assms(2) show False
    by fastforce
qed

lemma query_iter_cases [case_names Failed Last Next]:
  obtains (Failed) s1 r r' where "de_Query de (query_input_for d key startKey l) s = (s1, r)"
      "query_iter de d key startKey (l, ps, provs, s) = Inl (s1, r')" "\<not> is_Ok r'"
    | (Last) s1 res ps' provs' where
      "de_Query de (query_input_for d key startKey l) s = (s1, Ok res)"
      "scan_items de s1 (qo_Items res) ps provs = Ok (ps', provs')"
      "sint l \<le> sint (word_of_nat (length (qo_Items res)) :: 32 word) \<or> qo_LastEvaluatedKey res = []"
      "query_iter de d key startKey (l, ps, provs, s) = Inl (s1, Ok provs')"
    | (Next) s1 res ps' provs' where
      "de_Query de (query_input_for d key startKey l) s = (s1, Ok res)"
      "scan_items de s1 (qo_Items res) ps provs = Ok (ps', provs')"
      "sint (word_of_nat (length (qo_Items res)) :: 32 word) < sint l" "qo_LastEvaluatedKey res \<noteq> []"
      "query_iter de d key startKey (l, ps, provs, s) =
         Inr (l - word_of_nat (length (qo_Items res)), ps', provs', s1)"
proof -
  obtain s1 r where q: "de_Query de (query_input_for d key startKey l) s = (s1, r)"
    by (cases "de_Query de (query_input_for d key startKey l) s")
  show thesis
  proof (cases r)
    case (Ok res)
    show thesis
    proof (cases "scan_items de s1 (qo_Items res) ps provs")
      case (Ok a)
      obtain ps' provs' where a: "a = (ps', provs')" by (cases a)
      show thesis
        using q \<open>r = Ok res\<close> Ok a Last [of s1 res ps' provs'] Next [of s1 res ps' provs']
        by (cases "sint l \<le> sint (word_of_nat (length (qo_Items res)) :: 32 word) \<or>
              qo_LastEvaluatedKey res = []")
          (simp_all add: query_iter_def Let_def not_le)
    qed (use q Ok Failed [of s1 r] in \<open>simp_all add: query_iter_def\<close>)
  qed (use q Failed [of s1 r] in \<open>simp_all add: query_iter_def\<close>)
qed

section \<open>The store keeps the contract\<close>

lemma scan_items_ids:
  assumes "\<forall>p s. ai_ID (de_PeerInfo de p s) = p"
  shows "scan_items de s items ps provs = Ok (ps', provs') \<Longrightarrow>
    info_ids provs' \<subseteq> info_ids provs \<union> {p. \<exists>i \<in> set items. item_prov i = Some p}"
proof (induction items arbitrary: ps provs)
  case (Cons i items)
  then obtain p where p: "map_of i ''prov'' = Some (AttributeValueMemberB p)"
    by (auto split: option.splits attribute_value.splits)
  then have ip: "item_prov i = Some p" by (simp add: item_prov_def)
  show ?case
    using Cons.prems Cons.IH [of ps provs] Cons.IH [of "p # ps" "provs @ [de_PeerInfo de p s]"]
      p ip assms
    by (fastforce simp: Let_def split: if_splits)
qed simp

locale dynamo_table =
  fixes de :: "('s, 'ma) ddb_env" and d :: dynamoDBProviderStore
    and ids :: "'s \<Rightarrow> bytes \<Rightarrow> peer_id set"
  assumes query_state: "de_Query de q s = (s', r) \<Longrightarrow> ids s' k \<subseteq> ids s k"
    and query_sound: "de_Query de (query_input_for d key startKey l) s = (s', Ok out) \<Longrightarrow>
      i \<in> set (qo_Items out) \<Longrightarrow> item_prov i = Some p \<Longrightarrow> p \<in> ids s key"
    and put_ids: "ids (fst (de_PutItem de (put_input d now key prov) s)) k \<subseteq>
      ids s k \<union> (if k = key then {prov} else {})"
    and addrs_ids: "ids (de_AddAddrs de p addrs t s) k \<subseteq> ids s k"
    and record_ids: "ids (de_Record de st s) k \<subseteq> ids s k"
    and PeerInfo_ID: "ai_ID (de_PeerInfo de p s) = p"
begin

lemma page_sound:
  assumes "de_Query de (query_input_for d key startKey l) s = (s1, Ok res)"
    "scan_items de s1 (qo_Items res) ps provs = Ok (ps', provs')"
  shows "info_ids provs' \<subseteq> info_ids provs \<union> ids s key"
  using scan_items_ids [OF _ assms(2)] query_sound [OF assms(1)] PeerInfo_ID by fastforce

lemma query_iter_Inr_sound:
  assumes "query_iter de d key startKey (l, ps, provs, s) = Inr (l', ps', provs', s')"
  shows "ids s' k \<subseteq> ids s k" "info_ids provs' \<subseteq> info_ids provs \<union> ids s key"
  using assms query_state page_sound
  by (cases rule: query_iter_cases [of de d key startKey l s ps provs]; auto)+

lemma query_iter_Inl_sound:
  assumes "query_iter de d key startKey (l, ps, provs, s) = Inl (s', r)"
  shows "ids s' k \<subseteq> ids s k" "r = Ok provs' \<Longrightarrow> info_ids provs' \<subseteq> info_ids provs \<union> ids s key"
  using assms query_state page_sound
  by (cases rule: query_iter_cases [of de d key startKey l s ps provs]; auto)+

lemma query_loop_sound:
  assumes "query_loop de d key startKey (l, [], [], s) = Some (s', r)"
  shows "ids s' k \<subseteq> ids s k" "r = Ok provs \<Longrightarrow> info_ids provs \<subseteq> ids s key"
proof -
  let ?Inv = "\<lambda>(l, ps, provs, s1). (\<forall>k. ids s1 k \<subseteq> ids s k) \<and> info_ids provs \<subseteq> ids s key"
  let ?Q = "\<lambda>(s1, r). (\<forall>k. ids s1 k \<subseteq> ids s k) \<and> (\<forall>provs. r = Ok provs \<longrightarrow> info_ids provs \<subseteq> ids s key)"
  have "?Q (s', r)"
  proof (rule query_loop_rule [where Inv = ?Inv and Q = ?Q, OF _ _ _ assms])
    fix st st'
    assume a: "?Inv st" "query_iter de d key startKey st = Inr st'"
    obtain l1 ps1 provs1 s1 where st: "st = (l1, ps1, provs1, s1)" by (cases st)
    obtain l2 ps2 provs2 s2 where st': "st' = (l2, ps2, provs2, s2)" by (cases st')
    have i: "ids s1 k \<subseteq> ids s k" "info_ids provs1 \<subseteq> ids s key" for k
      using a(1) unfolding st by auto
    note it = a(2) [unfolded st st']
    have "ids s2 k \<subseteq> ids s k" for k
      by (rule order.trans [OF query_iter_Inr_sound(1) [OF it] i(1)])
    moreover have "info_ids provs2 \<subseteq> ids s key"
      using query_iter_Inr_sound(2) [OF it] i(1) [of key] i(2) by blast
    ultimately show "?Inv st'" unfolding st' by simp
  next
    fix st r1
    assume a: "?Inv st" "query_iter de d key startKey st = Inl r1"
    obtain l1 ps1 provs1 s1 where st: "st = (l1, ps1, provs1, s1)" by (cases st)
    obtain s2 r2 where r1: "r1 = (s2, r2)" by (cases r1)
    have i: "ids s1 k \<subseteq> ids s k" "info_ids provs1 \<subseteq> ids s key" for k
      using a(1) unfolding st by auto
    note it = a(2) [unfolded st r1]
    have "ids s2 k \<subseteq> ids s k" for k
      by (rule order.trans [OF query_iter_Inl_sound(1) [OF it] i(1)])
    moreover have "info_ids provs \<subseteq> ids s key" if "r2 = Ok provs" for provs
      using query_iter_Inl_sound(2) [OF it that] i(1) [of key] i(2) by blast
    ultimately show "?Q r1" unfolding r1 by simp
  qed simp
  then show "ids s' k \<subseteq> ids s k" "r = Ok provs \<Longrightarrow> info_ids provs \<subseteq> ids s key" by simp_all
qed

end

sublocale dynamo_table \<subseteq> ddb: provider_store "dynamoDBProviderStore_AddProvider de d"
    "dynamoDBProviderStore_GetProviders de d" ids
proof
  show "ids (fst (dynamoDBProviderStore_AddProvider de d key prov s)) k
      \<subseteq> ids s k \<union> (if k = key then {ai_ID prov} else {})" for key prov s k
  proof -
    let ?s1 = "if ai_ID prov \<noteq> ds_Self d
      then de_AddAddrs de (ai_ID prov) (ai_Addrs prov) (de_AddressTTL de) s else s"
    have eq: "fst (dynamoDBProviderStore_AddProvider de d key prov s) =
        fst (de_PutItem de (put_input d (de_Now de ?s1) key (ai_ID prov)) ?s1)"
      by (auto simp: dynamoDBProviderStore_AddProvider_def Let_def split: prod.split option.split)
    have "ids ?s1 k \<subseteq> ids s k" using addrs_ids by simp
    then show ?thesis unfolding eq by (intro order.trans [OF put_ids] Un_mono order.refl)
  qed
  show "ids s' k \<subseteq> ids s k" "info_ids infos \<subseteq> ids s key"
    if g: "dynamoDBProviderStore_GetProviders de d key s = Some (s', infos, err)"
    for key s s' infos err k
  proof -
    obtain s1 r where q: "query_loop de d key None (ds_QueryLimit d, [], [], s) = Some (s1, r)"
      using g by (auto simp: dynamoDBProviderStore_GetProviders_def split: option.splits)
    have "ids s' k \<subseteq> ids s1 k" "infos = [] \<or> r = Ok infos" for k
      using g q record_ids
      by (auto simp: dynamoDBProviderStore_GetProviders_def Let_def
          split: outcome.splits if_splits; blast)+
    with query_loop_sound [OF q] show "ids s' k \<subseteq> ids s k" "info_ids infos \<subseteq> ids s key"
      by (blast, force)
  qed
qed

section \<open>Sizes\<close>

lemma sint_word_of_int32:
  "- (2 ^ 31) \<le> i \<Longrightarrow> i < 2 ^ 31 \<Longrightarrow> sint (word_of_int i :: 32 word) = i"
  by (simp add: int_word_sint)

lemma sint_word_of_nat32: "n < 2 ^ 31 \<Longrightarrow> sint (word_of_nat n :: 32 word) = int n"
  using sint_word_of_int32 [of "int n"] by simp

lemma sint_minus32:
  assumes "0 \<le> sint b" "sint b \<le> sint (a :: 32 word)"
  shows "sint (a - b) = sint a - sint b"
proof -
  have "a - b = word_of_int (sint a - sint b)" by simp
  moreover have "sint a < 2 ^ 31" using sint_lt [of a] by simp
  ultimately show ?thesis using assms sint_word_of_int32 [of "sint a - sint b"] by simp
qed

text \<open>Pages with a continuation key that are not empty make \<open>providersLeft\<close> smaller.\<close>

definition pages_nonempty :: "('s, 'ma) ddb_env \<Rightarrow> bool" where
  "pages_nonempty de \<longleftrightarrow> (\<forall>q s s' res. de_Query de q s = (s', Ok res) \<longrightarrow>
     length (qo_Items res) < 2 ^ 31 \<and> (qo_LastEvaluatedKey res \<noteq> [] \<longrightarrow> qo_Items res \<noteq> []))"

lemma query_iter_decreases:
  assumes "pages_nonempty de" "query_iter de d key startKey st = Inr st'"
  shows "nat (sint (fst st')) < nat (sint (fst st))"
proof -
  obtain l ps provs s where st: "st = (l, ps, provs, s)" by (cases st)
  from assms(2) show ?thesis unfolding st
  proof (cases rule: query_iter_cases [of de d key startKey l s ps provs])
    case (Next s1 res ps' provs')
    let ?n = "length (qo_Items res)"
    have n: "sint (word_of_nat ?n :: 32 word) = int ?n" "0 < ?n"
      using assms(1) Next(1,4) sint_word_of_nat32 unfolding pages_nonempty_def by auto
    then have "sint (l - word_of_nat ?n) = sint l - int ?n"
      using Next(3) sint_minus32 [of "word_of_nat ?n" l] by simp
    then show "nat (sint (fst st')) < nat (sint (fst (l, ps, provs, s)))"
      using Next(3,5) n assms(2) st by auto
  qed (use assms(2) st in auto)
qed

section \<open>What DynamoDB answers\<close>

text \<open>
  The item of a record: its key, its provider and its expiry time, which are the attributes that
  \<open>put_input\<close> writes. The table has \<open>key\<close> as partition key and \<open>ttl\<close> as sort key.
\<close>

definition provider_item :: "bytes \<Rightarrow> int \<times> peer_id \<Rightarrow> item" where
  "provider_item key = (\<lambda>(ttl, prov). [(''key'', AttributeValueMemberB key),
     (''prov'', AttributeValueMemberB prov), (''ttl'', AttributeValueMemberN (FormatInt ttl))])"

text \<open>\<open>ScanIndexForward\<close> chooses the order of the sort key: ascending, or descending when it is false.\<close>

definition by_ttl :: "bool \<Rightarrow> (int \<times> peer_id) list \<Rightarrow> (int \<times> peer_id) list" where
  "by_ttl forward recs = (if forward then sort_key fst recs else rev (sort_key fst recs))"

text \<open>
  The documented answer of \<open>Query\<close>, for whatever query is sent: if it asks the table for the items
  whose attribute \<open>key\<close> has the value \<open>key\<close>, without a start key, it gets the items of that key in
  the order of the sort key that the query asks for, at most as many as its limit and as a page
  holds. The continuation key is set when items are left out, it is not set when all items were
  read before the limit or the page ended, and it may or may not be set when the last item is
  exactly the last that fits. The primary key (\<open>key\<close>, \<open>ttl\<close>) is unique.
\<close>

definition dynamo_answers ::
    "('s, 'ma) ddb_env \<Rightarrow> string \<Rightarrow> bytes \<Rightarrow> 's \<Rightarrow> nat \<Rightarrow> (int \<times> peer_id) list \<Rightarrow> bool" where
  "dynamo_answers de table key s page recs \<longleftrightarrow> 0 < page \<and> page < 2 ^ 31 \<and> distinct (map fst recs) \<and>
     (\<forall>q n. qi_TableName q = table \<and> qi_KeyConditionExpression q = ''#k = :key'' \<and>
        map_of (qi_ExpressionAttributeNames q) ''#k'' = Some ''key'' \<and>
        map_of (qi_ExpressionAttributeValues q) '':key'' = Some (AttributeValueMemberB key) \<and>
        qi_ExclusiveStartKey q = None \<and> 0 < sint (qi_Limit q) \<and> n = min (nat (sint (qi_Limit q))) page \<longrightarrow>
        (\<exists>lek. de_Query de q s =
            (s, Ok \<lparr>qo_Items = take n (map (provider_item key) (by_ttl (qi_ScanIndexForward q) recs)),
                   qo_LastEvaluatedKey = lek\<rparr>) \<and>
          (n < length recs \<longrightarrow> lek \<noteq> []) \<and> (length recs < n \<longrightarrow> lek = [])))"

lemma provider_item_prov [simp]: "item_prov (provider_item key r) = Some (snd r)"
  by (simp add: item_prov_def provider_item_def split_beta)

lemma provider_item_provs: "map (the \<circ> item_prov) (map (provider_item key) recs) = map snd recs"
  by simp

lemma by_ttl_newest:
  assumes "distinct (map fst recs)"
  shows "mset (by_ttl False recs) = mset recs"
    "sorted_wrt (\<lambda>r r'. fst r' < fst r) (by_ttl False recs)"
proof -
  have "distinct (map fst (sort_key fst recs))"
    using assms by (simp add: distinct_map)
  then have "sorted_wrt (<) (map fst (sort_key fst recs))"
    by (simp add: strict_sorted_iff)
  then show "sorted_wrt (\<lambda>r r'. fst r' < fst r) (by_ttl False recs)"
    by (simp add: by_ttl_def sorted_wrt_rev sorted_wrt_map)
qed (simp add: by_ttl_def)

text \<open>A list of records in strictly descending order of their expiry times is determined by its records.\<close>

lemma newest_unique:
  fixes xs ys :: "(int \<times> 'p) list"
  assumes "mset xs = mset ys" "sorted_wrt (\<lambda>r r'. fst r' < fst r) xs"
    "sorted_wrt (\<lambda>r r'. fst r' < fst r) ys"
  shows "xs = ys"
  using assms
proof (induction xs arbitrary: ys)
  case (Cons x xs)
  then obtain y ys' where ys: "ys = y # ys'" by (cases ys) auto
  have "x \<in> set ys" "y \<in> set (x # xs)"
    using Cons.prems(1) by (metis list.set_intros(1) set_mset_mset ys)+
  with Cons.prems(2,3) have "x = y" unfolding ys by (fastforce dest: less_asym)
  with Cons ys show ?case by simp
qed simp

text \<open>What the loop's own queries then get: the first page of a fixed list of items.\<close>

definition paged ::
    "('s, 'ma) ddb_env \<Rightarrow> dynamoDBProviderStore \<Rightarrow> bytes \<Rightarrow> 's \<Rightarrow> nat \<Rightarrow> item list \<Rightarrow> bool" where
  "paged de d key s page recs \<longleftrightarrow> 0 < page \<and> page < 2 ^ 31 \<and> (\<forall>i \<in> set recs. item_prov i \<noteq> None) \<and>
     (\<forall>l n. 0 < sint l \<longrightarrow> n = min (nat (sint l)) page \<longrightarrow>
        (\<exists>lek. de_Query de (query_input_for d key None l) s =
            (s, Ok \<lparr>qo_Items = take n recs, qo_LastEvaluatedKey = lek\<rparr>) \<and>
          (n < length recs \<longrightarrow> lek \<noteq> []) \<and> (length recs < n \<longrightarrow> lek = [])))"

lemma dynamo_paged:
  assumes "dynamo_answers de (ds_TableName d) key s page recs"
  shows "paged de d key s page (map (provider_item key) (by_ttl False recs))"
proof -
  have len: "length (by_ttl False recs) = length recs" by (simp add: by_ttl_def)
  have "\<exists>lek. de_Query de (query_input_for d key None l) s =
        (s, Ok \<lparr>qo_Items = take n (map (provider_item key) (by_ttl False recs)), qo_LastEvaluatedKey = lek\<rparr>) \<and>
      (n < length recs \<longrightarrow> lek \<noteq> []) \<and> (length recs < n \<longrightarrow> lek = [])"
    if "0 < sint l" "n = min (nat (sint l)) page" for l :: "32 word" and n
    using assms [unfolded dynamo_answers_def, THEN conjunct2, THEN conjunct2, THEN conjunct2,
        rule_format, of "query_input_for d key None l" n] that
    by (simp add: query_input_for_def)
  moreover have "0 < page" "page < 2 ^ 31" using assms by (simp_all add: dynamo_answers_def)
  ultimately show ?thesis by (simp add: paged_def len)
qed

lemma paged_iter:
  assumes p: "paged de d key s page recs" and l: "0 < sint l"
  defines "items \<equiv> take (min (nat (sint l)) page) recs"
  shows "\<exists>ps'. set ps' = set ps \<union> set (map (the \<circ> item_prov) items) \<and>
    (let provs' = provs @ map (\<lambda>p. de_PeerInfo de p s)
           (first_occ (set ps) (map (the \<circ> item_prov) items));
         r = query_iter de d key None (l, ps, provs, s)
     in r = Inl (s, Ok provs') \<or>
        page < nat (sint l) \<and> r = Inr (l - word_of_nat page, ps', provs', s))"
proof -
  obtain lek where q: "de_Query de (query_input_for d key None l) s =
      (s, Ok \<lparr>qo_Items = items, qo_LastEvaluatedKey = lek\<rparr>)"
      "length recs < min (nat (sint l)) page \<longrightarrow> lek = []"
    using p l unfolding paged_def items_def by blast
  have pg: "page < 2 ^ 31" using p by (simp add: paged_def)
  have "\<forall>i \<in> set items. item_prov i \<noteq> None"
    using p unfolding paged_def items_def by (meson in_set_takeD)
  then obtain ps' where s: "scan_items de s items ps provs =
      Ok (ps', provs @ map (\<lambda>p. de_PeerInfo de p s) (first_occ (set ps) (map (the \<circ> item_prov) items)))"
      "set ps' = set ps \<union> set (map (the \<circ> item_prov) items)"
    using scan_items_ok by metis
  have len: "length items = min (length recs) (min (nat (sint l)) page)"
    by (simp add: items_def)
  then have n: "sint (word_of_nat (length items) :: 32 word) = int (length items)"
    using pg by (intro sint_word_of_nat32) linarith
  have page: "length items = page \<and> page < nat (sint l)"
    if "\<not> (sint l \<le> int (length items) \<or> lek = [])"
    using that len q(2) l by (auto simp: min_def split: if_splits)
  show ?thesis
    using s(2) page unfolding query_iter_def
    by (intro exI [of _ ps']) (auto simp: q(1) s(1) n Let_def)
qed

text \<open>Once the first page is read, the following queries read it again and add nothing.\<close>

lemma page_left:
  assumes "paged de d key s page recs" "page < nat (sint (l :: 32 word))"
  shows "sint (l - word_of_nat page) = sint l - int page" "0 < sint (l - word_of_nat page)" "0 < page"
  using assms sint_minus32 [of "word_of_nat page" l] sint_word_of_nat32 [of page]
  by (auto simp: paged_def)

lemma paged_rest:
  assumes p: "paged de d key s page recs"
  shows "0 < sint l \<Longrightarrow> set (map (the \<circ> item_prov) (take page recs)) \<subseteq> set ps \<Longrightarrow>
    query_loop de d key None (l, ps, provs, s) = Some (s, Ok provs)"
proof (induction "nat (sint l)" arbitrary: l ps rule: less_induct)
  case less
  let ?items = "take (min (nat (sint l)) page) recs"
  have "set ?items \<subseteq> set (take page recs)" by (simp add: set_take_subset_set_take)
  then have sub: "set (map (the \<circ> item_prov) ?items) \<subseteq> set ps" using less.prems(2) by auto
  then have "set (first_occ (set ps) (map (the \<circ> item_prov) ?items)) = {}"
    unfolding first_occ_set by blast
  then have fo: "first_occ (set ps) (map (the \<circ> item_prov) ?items) = []" by simp
  obtain ps' where ps': "set ps' = set ps \<union> set (map (the \<circ> item_prov) ?items)"
      "query_iter de d key None (l, ps, provs, s) = Inl (s, Ok provs) \<or>
       page < nat (sint l) \<and> query_iter de d key None (l, ps, provs, s) =
         Inr (l - word_of_nat page, ps', provs, s)"
    using paged_iter [OF p less.prems(1), of ps provs] unfolding fo Let_def by auto
  then consider "query_iter de d key None (l, ps, provs, s) = Inl (s, Ok provs)"
    | "page < nat (sint l)" "query_iter de d key None (l, ps, provs, s) =
         Inr (l - word_of_nat page, ps', provs, s)"
    by blast
  then show ?case
  proof cases
    case 1
    then show ?thesis by (simp add: query_loop.simps)
  next
    case 2
    from page_left [OF p 2(1)] less.prems ps'(1)
    have "query_loop de d key None (l - word_of_nat page, ps', provs, s) = Some (s, Ok provs)"
      by (intro less.hyps) auto
    with 2 show ?thesis by (simp add: query_loop.simps [of _ _ _ _ "(l, ps, provs, s)"])
  qed
qed

lemma paged_loop:
  assumes p: "paged de d key s page recs" and l: "0 < sint l"
  shows "query_loop de d key None (l, [], [], s) =
    Some (s, Ok (map (\<lambda>p. de_PeerInfo de p s)
      (first_occ {} (map (the \<circ> item_prov) (take (min (nat (sint l)) page) recs)))))"
proof -
  let ?items = "take (min (nat (sint l)) page) recs"
  let ?provs = "map (\<lambda>p. de_PeerInfo de p s) (first_occ {} (map (the \<circ> item_prov) ?items))"
  obtain ps' where ps': "set ps' = set (map (the \<circ> item_prov) ?items)"
      "query_iter de d key None (l, [], [], s) = Inl (s, Ok ?provs) \<or>
       page < nat (sint l) \<and> query_iter de d key None (l, [], [], s) =
         Inr (l - word_of_nat page, ps', ?provs, s)"
    using paged_iter [OF p l, of "[]" "[]"] by (auto simp: Let_def)
  then consider "query_iter de d key None (l, [], [], s) = Inl (s, Ok ?provs)"
    | "page < nat (sint l)" "query_iter de d key None (l, [], [], s) =
         Inr (l - word_of_nat page, ps', ?provs, s)"
    by blast
  then show ?thesis
  proof cases
    case 1
    then show ?thesis by (simp add: query_loop.simps)
  next
    case 2
    then have "?items = take page recs" by simp
    with paged_rest [OF p page_left(2) [OF p 2(1)], of ps' ?provs] ps'(1) 2(2)
    show ?thesis by (simp add: query_loop.simps [of _ _ _ _ "(l, [], [], s)"])
  qed
qed

lemma dynamo_loop:
  assumes "dynamo_answers de (ds_TableName d) key s page recs" "0 < sint l"
  shows "query_loop de d key None (l, [], [], s) =
    Some (s, Ok (map (\<lambda>p. de_PeerInfo de p s)
      (first_occ {} (map snd (take (min (nat (sint l)) page) (by_ttl False recs))))))"
  using paged_loop [OF dynamo_paged [OF assms(1)] assms(2)]
  by (simp add: take_map comp_def)

section \<open>A table in memory\<close>

text \<open>
  A small table with the documented behaviour: records sorted by expiry time in the order that is
  asked for, conditional writes, pages. It shows that the hypotheses above can hold, and runs the
  witnesses.
\<close>

record mem_table =
  mt_records :: "(bytes \<times> int \<times> peer_id) list"
  mt_book :: "(peer_id \<times> nat list) list"
  mt_now :: int
  mt_stats :: "ddb_stat list"

definition mem_records :: "mem_table \<Rightarrow> bytes \<Rightarrow> (int \<times> peer_id) list" where
  "mem_records t key = map snd (filter (\<lambda>r. fst r = key) (mt_records t))"

definition mem_query :: "nat \<Rightarrow> query_input \<Rightarrow> mem_table \<Rightarrow> mem_table \<times> query_output outcome" where
  "mem_query page q t =
     (case map_of (qi_ExpressionAttributeValues q) '':key'' of
        Some (AttributeValueMemberB key) \<Rightarrow>
          (let recs = by_ttl (qi_ScanIndexForward q) (mem_records t key);
               n = min (nat (sint (qi_Limit q))) page
           in (t, Ok \<lparr>qo_Items = take n (map (provider_item key) recs),
                     qo_LastEvaluatedKey =
                       (if 0 < n \<and> n < length recs then [(''key'', AttributeValueMemberB key)] else [])\<rparr>))
      | _ \<Rightarrow> (t, Error (Errorf ''ValidationException'')))"

definition mem_put :: "put_item_input \<Rightarrow> mem_table \<Rightarrow> mem_table \<times> go_error option" where
  "mem_put p t =
     (case (map_of (pi_Item p) ''key'', map_of (pi_Item p) ''ttl'', map_of (pi_Item p) ''prov'') of
        (Some (AttributeValueMemberB key), Some (AttributeValueMemberN ttlStr),
         Some (AttributeValueMemberB prov)) \<Rightarrow>
          (case ParseInt 64 ttlStr of
             Ok ttl \<Rightarrow>
               if (\<exists>r \<in> set (mt_records t). fst r = key \<and> fst (snd r) = ttl)
               then (t, Some (Errorf ''ConditionalCheckFailedException''))
               else (t\<lparr>mt_records := (key, ttl, prov) # mt_records t\<rparr>, None)
           | _ \<Rightarrow> (t, Some (Errorf ''ValidationException'')))
      | _ \<Rightarrow> (t, Some (Errorf ''ValidationException'')))"

definition mem_env :: "nat \<Rightarrow> (mem_table, nat) ddb_env" where
  "mem_env page = \<lparr>de_Query = mem_query page, de_PutItem = mem_put,
     de_isConditionalCheckFailed = (\<lambda>e. e = Errorf ''ConditionalCheckFailedException''),
     de_DescribeTable = (\<lambda>_ t. (t, Ok (int (length (mt_records t))))),
     de_PeerInfo = (\<lambda>p t. \<lparr>ai_ID = p, ai_Addrs = (case map_of (mt_book t) p of None \<Rightarrow> [] | Some a \<Rightarrow> a)\<rparr>),
     de_AddAddrs = (\<lambda>p addrs _ t. t\<lparr>mt_book := (p, addrs) # mt_book t\<rparr>),
     de_AddressTTL = 3600000000000, de_Now = mt_now,
     de_Record = (\<lambda>st t. t\<lparr>mt_stats := st # mt_stats t\<rparr>)\<rparr>"

definition mem_ids :: "mem_table \<Rightarrow> bytes \<Rightarrow> peer_id set" where
  "mem_ids t key = {prov |ttl prov. (key, ttl, prov) \<in> set (mt_records t)}"

lemma mem_put_cases:
  "mem_put p t = (t', e) \<Longrightarrow> t' = t \<or>
     (\<exists>key ttl prov. t' = t\<lparr>mt_records := (key, ttl, prov) # mt_records t\<rparr> \<and>
        map_of (pi_Item p) ''key'' = Some (AttributeValueMemberB key) \<and>
        map_of (pi_Item p) ''prov'' = Some (AttributeValueMemberB prov))"
  by (auto simp: mem_put_def split: option.splits attribute_value.splits outcome.splits if_splits)

interpretation mem: dynamo_table "mem_env page" d mem_ids for page d
proof
  show "mem_ids (fst (de_PutItem (mem_env page) (put_input d now key prov) s)) k
      \<subseteq> mem_ids s k \<union> (if k = key then {prov} else {})" for now key prov s k
    using mem_put_cases [of "put_input d now key prov" s]
    by (cases "mem_put (put_input d now key prov) s") (auto simp: mem_env_def put_input_def mem_ids_def)
  show "p \<in> mem_ids s key"
    if "de_Query (mem_env page) (query_input_for d key startKey l) s = (s', Ok out)"
      "i \<in> set (qo_Items out)" "item_prov i = Some p" for key startKey l s s' out i p
  proof -
    have "i \<in> provider_item key ` set (mem_records s key)"
      using that(1,2) by (auto simp: mem_env_def mem_query_def query_input_for_def Let_def by_ttl_def
          dest!: in_set_takeD)
    with that(3) show ?thesis by (auto simp: mem_ids_def mem_records_def)
  qed
qed (auto simp: mem_env_def mem_query_def mem_ids_def Let_def split: option.splits attribute_value.splits)

lemma mem_answers:
  assumes "0 < page" "page < 2 ^ 31" "distinct (map fst (mem_records t key))"
  shows "dynamo_answers (mem_env page) table key t page (mem_records t key)"
  using assms by (auto simp: dynamo_answers_def mem_env_def mem_query_def by_ttl_def Let_def)

definition example_ddb :: dynamoDBProviderStore where
  "example_ddb = NewDynamoDBProviderStore [9] ''providers'' 60000000000 4"

definition example_table :: mem_table where
  "example_table = \<lparr>mt_records = [([1], 50, [22]), ([1], 70, [20]), ([2], 65, [23]), ([1], 60, [21])],
     mt_book = [([20], [5])], mt_now = 0, mt_stats = []\<rparr>"

lemma example_records:
  "mem_records example_table [1] = [(50, [22]), (70, [20]), (60, [21])]"
  "mem_records example_table [2] = [(65, [23])]" "mem_records example_table [3] = []"
  by (simp_all add: mem_records_def example_table_def)

lemma example_by_ttl:
  "by_ttl False [(50, [22]), (70, [20]), (60, [21])] = [(70, [20]), (60, [21]), (50, [22])]"
  "by_ttl False [r] = [r]" "by_ttl False [] = []"
  by (simp_all add: by_ttl_def)

lemma example_answers:
  assumes "key \<in> {[1], [2], [3]}"
  shows "dynamo_answers (mem_env 2) (ds_TableName example_ddb) key example_table 2
    (mem_records example_table key)"
  by (rule mem_answers) (use assms in \<open>auto simp: example_records\<close>)

lemma example_limit: "ds_QueryLimit example_ddb = 4"
  by (simp add: example_ddb_def NewDynamoDBProviderStore_def)

lemma example_ttl: "ttlEpoch 0 60000000000 = 60" "ParseInt 64 (FormatInt 60) = Ok 60"
  by (simp_all add: ttlEpoch_def signed_take_bit_int_eq_self ParseInt_FormatInt)

section \<open>Properties\<close>

text \<open>
  \<open>AddProvider\<close> of the DynamoDB store writes one record with the key, the peer and the expiry
  time in whole seconds, under the condition that the key has no record with that expiry time. A
  failed condition is success for the caller; every other error is returned. The addresses go to
  the peer store unless the peer is the constant \<open>"peer"\<close>: the constructor ignores its \<open>self\<close>
  argument, so a head that provides a key stores its own addresses too.
\<close>

theorem ddb_AddProvider_correct:
  assumes "ai_ID prov \<noteq> peer_const"
    and "s1 = de_AddAddrs de (ai_ID prov) (ai_Addrs prov) (de_AddressTTL de) s"
    and "de_PutItem de \<lparr>pi_TableName = table,
      pi_Item = [(''key'', AttributeValueMemberB key), (''prov'', AttributeValueMemberB (ai_ID prov)),
        (''ttl'', AttributeValueMemberN (FormatInt (ttlEpoch (de_Now de s1) ttl)))],
      pi_ConditionExpression = ''attribute_not_exists(#k) AND attribute_not_exists(#t)'',
      pi_ExpressionAttributeNames = [(''#k'', ''key''), (''#t'', ''ttl'')]\<rparr> s1 = (s2, err)"
  shows "dynamoDBProviderStore_AddProvider de (NewDynamoDBProviderStore self table ttl lim) key prov s =
    (s2, if (\<exists>e. err = Some e \<and> de_isConditionalCheckFailed de e) then None else err)"
  using assms
  by (auto simp: dynamoDBProviderStore_AddProvider_def NewDynamoDBProviderStore_def put_input_def
      split: option.split)

theorem ddb_AddProvider_correct_witness:
  "dynamoDBProviderStore_AddProvider (mem_env 2) example_ddb [1] \<lparr>ai_ID = [9], ai_Addrs = [8]\<rparr> example_table =
     (example_table\<lparr>mt_book := ([9], [8]) # mt_book example_table\<rparr>, None)"
proof -
  let ?prov = "\<lparr>ai_ID = [9], ai_Addrs = [8]\<rparr> :: nat addr_info"
  let ?s1 = "example_table\<lparr>mt_book := ([9], [8]) # mt_book example_table\<rparr>"
  have "ai_ID ?prov \<noteq> peer_const" by (simp add: peer_const_def)
  moreover have "?s1 = de_AddAddrs (mem_env 2) (ai_ID ?prov) (ai_Addrs ?prov)
      (de_AddressTTL (mem_env 2)) example_table"
    by (simp add: mem_env_def)
  moreover have "de_PutItem (mem_env 2) \<lparr>pi_TableName = ''providers'',
      pi_Item = [(''key'', AttributeValueMemberB [1]), (''prov'', AttributeValueMemberB (ai_ID ?prov)),
        (''ttl'', AttributeValueMemberN (FormatInt (ttlEpoch (de_Now (mem_env 2) ?s1) 60000000000)))],
      pi_ConditionExpression = ''attribute_not_exists(#k) AND attribute_not_exists(#t)'',
      pi_ExpressionAttributeNames = [(''#k'', ''key''), (''#t'', ''ttl'')]\<rparr> ?s1 =
      (?s1, Some (Errorf ''ConditionalCheckFailedException''))"
    using example_ttl by (simp add: mem_env_def mem_put_def example_table_def)
  ultimately show ?thesis
    using ddb_AddProvider_correct [of ?prov ?s1 "mem_env 2" example_table "''providers''" "[1]"
        60000000000 ?s1 _ "[9]" 4]
    by (simp add: example_ddb_def mem_env_def)
qed

text \<open>
  C24: the query loop of \<open>GetProviders\<close> ends, and so the call returns, if DynamoDB never sends an
  empty page together with a continuation key. (With such a page the loop asks the same question
  again; see \<open>GetProviders_empty_page_diverges\<close>.)
\<close>

theorem ddb_GetProviders_returns:
  assumes "pages_nonempty de" "\<forall>q s p. snd (de_Query de q s) \<noteq> Panic p"
  shows "\<exists>r. dynamoDBProviderStore_GetProviders de d key s = Some r"
proof -
  obtain s1 r where q: "query_loop de d key None (ds_QueryLimit d, [], [], s) = Some (s1, r)"
    using query_loop_terminates [of de d key None "\<lambda>st. nat (sint (fst st))"]
      query_iter_decreases [OF assms(1)] by fastforce
  have "\<forall>p. snd (s1, r) \<noteq> Panic p"
  proof (rule query_loop_rule [where Inv = "\<lambda>_. True" and Q = "\<lambda>r. \<forall>p. snd r \<noteq> Panic p", OF _ _ _ q])
    fix st r1
    assume i: "query_iter de d key None st = Inl r1"
    obtain l ps provs s0 where st: "st = (l, ps, provs, s0)" by (cases st)
    obtain s2 o2 where r2: "de_Query de (query_input_for d key None l) s0 = (s2, o2)" by fastforce
    with assms(2) have o2: "o2 \<noteq> Panic p" for p by (metis snd_conv)
    have "scan_items de s2 (qo_Items res) ps provs \<noteq> Panic p" for res p
      by (rule scan_items_no_panic)
    with i o2 show "\<forall>p. snd r1 \<noteq> Panic p"
      by (auto simp: query_iter_def st r2 Let_def split: outcome.splits if_splits)
  qed simp_all
  with q show ?thesis
    by (auto simp: dynamoDBProviderStore_GetProviders_def Let_def split: outcome.splits)
qed

theorem ddb_GetProviders_returns_witness:
  "\<exists>r. dynamoDBProviderStore_GetProviders (mem_env 2) example_ddb [1] example_table = Some r"
proof -
  have "pages_nonempty (mem_env 2)"
    unfolding pages_nonempty_def mem_env_def mem_query_def
    by (auto simp: Let_def split: option.splits attribute_value.splits)
  moreover have "\<forall>q s p. snd (de_Query (mem_env 2) q s) \<noteq> Panic p"
    by (auto simp: mem_env_def mem_query_def Let_def split: option.splits attribute_value.splits)
  ultimately show ?thesis by (rule ddb_GetProviders_returns)
qed

lemma GetProviders_empty_page_diverges:
  assumes "\<forall>l. \<exists>lek. lek \<noteq> [] \<and> de_Query de (query_input_for d key None l) s =
      (s, Ok \<lparr>qo_Items = [], qo_LastEvaluatedKey = lek\<rparr>)" "0 < sint (ds_QueryLimit d)"
  shows "dynamoDBProviderStore_GetProviders de d key s = None"
proof -
  let ?Inv = "\<lambda>st. st = (ds_QueryLimit d, [], [], s)"
  have "query_iter de d key None (ds_QueryLimit d, [], [], s) = Inr (ds_QueryLimit d, [], [], s)"
  proof -
    obtain lek where "lek \<noteq> []" "de_Query de (query_input_for d key None (ds_QueryLimit d)) s =
        (s, Ok \<lparr>qo_Items = [], qo_LastEvaluatedKey = lek\<rparr>)"
      using assms(1) by blast
    with assms(2) show ?thesis by (simp add: query_iter_def)
  qed
  then have "query_loop de d key None (ds_QueryLimit d, [], [], s) = None"
    by (intro query_loop_diverges [where Inv = ?Inv]) auto
  then show ?thesis by (simp add: dynamoDBProviderStore_GetProviders_def)
qed

text \<open>
  C25: on a table that answers queries the way DynamoDB documents, with the records \<open>recs\<close> of the
  key in whatever order, \<open>GetProviders\<close> returns the providers of the newest records of the key (the
  list \<open>newest\<close> has the same records, with strictly descending expiry times), newest first and each
  peer once, but only those of the first page: \<open>startKey\<close> is never set, so every further query reads
  the first page again. When the first page holds all records, or the query limit, this is the whole
  answer; otherwise the providers on later pages are never returned.
\<close>

theorem ddb_GetProviders_first_page:
  assumes "dynamo_answers de (ds_TableName d) key s page recs" "0 < sint (ds_QueryLimit d)"
  shows "\<exists>newest s'. mset newest = mset recs \<and> sorted_wrt (\<lambda>r r'. fst r' < fst r) newest \<and>
    dynamoDBProviderStore_GetProviders de d key s =
      Some (s', map (\<lambda>p. de_PeerInfo de p s) (first_occ {}
        (map snd (take (min (nat (sint (ds_QueryLimit d))) page) newest))), None)"
proof -
  have "distinct (map fst recs)" using assms(1) by (simp add: dynamo_answers_def)
  from by_ttl_newest [OF this] dynamo_loop [OF assms] show ?thesis
    by (intro exI [of _ "by_ttl False recs"]) (simp add: dynamoDBProviderStore_GetProviders_def Let_def)
qed

theorem ddb_GetProviders_first_page_witness:
  "(\<exists>s'. dynamoDBProviderStore_GetProviders (mem_env 2) example_ddb [1] example_table =
     Some (s', [\<lparr>ai_ID = [20], ai_Addrs = [5]\<rparr>, \<lparr>ai_ID = [21], ai_Addrs = []\<rparr>], None)) \<and>
   ds_QueryLimit example_ddb = 4 \<and> [22] \<in> mem_ids example_table [1]"
proof -
  have answers: "dynamo_answers (mem_env 2) (ds_TableName example_ddb) [1] example_table 2
      [(50, [22]), (70, [20]), (60, [21])]"
    using example_answers [of "[1]"] by (simp add: example_records)
  have "0 < sint (ds_QueryLimit example_ddb)" by (simp add: example_limit)
  from ddb_GetProviders_first_page [OF answers this]
  obtain newest s' where newest: "mset newest = mset [(50 :: int, [22]), (70, [20]), (60, [21])]"
      "sorted_wrt (\<lambda>r r'. fst r' < fst r) newest"
      "dynamoDBProviderStore_GetProviders (mem_env 2) example_ddb [1] example_table =
        Some (s', map (\<lambda>p. de_PeerInfo (mem_env 2) p example_table) (first_occ {}
          (map snd (take 2 newest))), None)"
    by (auto simp: example_limit)
  have "newest = [(70, [20]), (60, [21]), (50, [22])]"
    by (rule newest_unique [OF _ newest(2)]) (simp_all add: newest(1))
  with newest(3) show ?thesis
    by (auto simp: example_limit mem_env_def example_table_def mem_ids_def)
qed

end
