(* ===== verification/Caching_Store.thy ===== *)
theory Caching_Store
  imports Providers_Finder Ddb_Store
begin

text \<open>
  \<^verbatim>\<open>src/providers/caching.go\<close>: the provider store that asks the asynchronous finder when the
  store behind it has no providers, and caches what the finder delivers.

  The world of a caching store is the world of the stores behind it together with the state of the
  finder (theory \<open>Providers_Finder\<close>). The callback that \<open>GetProviders\<close> passes to \<open>Find\<close> captures only
  the key, so a request's \<open>fr_onProvider\<close> is that key, and \<open>caching_onProvider\<close> is the body of the
  callback; \<open>caching_deliver\<close> is the step in which a worker receives a provider and runs it.
\<close>

section \<open>The code\<close>

record ('s, 'c, 'r, 'ma) caching_world =
  cw_store :: 's
  cw_finder :: "('c, 'r, bytes, 'ma) finder"
  cw_PrefetchFailedToCache :: nat

record ('s, 'r, 'ma) CachingProviderStore =
  cps_ReadProviderStore :: "('s, 'ma) provider_ops"
  cps_WriteProviderStore :: "('s, 'ma) provider_ops"
  cps_Router :: 'r

definition NewCachingProviderStore ::
    "('s, 'ma) provider_ops \<Rightarrow> ('s, 'ma) provider_ops \<Rightarrow> 'r \<Rightarrow> ('s, 'r, 'ma) CachingProviderStore" where
  "NewCachingProviderStore getDelegate addDelegate router =
     \<lparr>cps_ReadProviderStore = getDelegate, cps_WriteProviderStore = addDelegate, cps_Router = router\<rparr>"

definition CachingProviderStore_AddProvider ::
    "('s, 'r, 'ma) CachingProviderStore \<Rightarrow> (('s, 'c, 'r, 'ma) caching_world, 'ma) add_op" where
  "CachingProviderStore_AddProvider d key prov w =
     (let (s', err) = ps_AddProvider (cps_WriteProviderStore d) key prov (cw_store w)
      in (w\<lparr>cw_store := s'\<rparr>, err))"

definition CachingProviderStore_GetProviders ::
    "'c timecache \<Rightarrow> ('s, 'r, 'ma) CachingProviderStore \<Rightarrow>
     (('s, 'c, 'r, 'ma) caching_world, 'ma) get_op" where
  "CachingProviderStore_GetProviders tc d key w =
     (case ps_GetProviders (cps_ReadProviderStore d) key (cw_store w) of
        None \<Rightarrow> None
      | Some (s', addrInfos, Some err) \<Rightarrow> Some (w\<lparr>cw_store := s'\<rparr>, addrInfos, Some err)
      | Some (s', addrInfos, None) \<Rightarrow>
          if addrInfos \<noteq> [] then Some (w\<lparr>cw_store := s'\<rparr>, addrInfos, None)
          else Some (w\<lparr>cw_store := s',
                       cw_finder := asyncProvidersFinder_Find tc (cw_finder w) (cps_Router d) key key\<rparr>,
                     [], None))"

definition caching_onProvider ::
    "('s, 'r, 'ma) CachingProviderStore \<Rightarrow> bytes \<Rightarrow> 'ma addr_info \<Rightarrow>
     ('s, 'c, 'r, 'ma) caching_world \<Rightarrow> ('s, 'c, 'r, 'ma) caching_world" where
  "caching_onProvider d key ai w =
     (let (s', err) = ps_AddProvider (cps_WriteProviderStore d) key ai (cw_store w)
      in w\<lparr>cw_store := s', cw_PrefetchFailedToCache :=
            (if err \<noteq> None then cw_PrefetchFailedToCache w + 1 else cw_PrefetchFailedToCache w)\<rparr>)"

definition caching_deliver ::
    "('s, 'r, 'ma) CachingProviderStore \<Rightarrow> nat \<Rightarrow> ('r, bytes) find_request \<Rightarrow> 'ma addr_info \<Rightarrow>
     ('s, 'c, 'r, 'ma) caching_world \<Rightarrow> ('s, 'c, 'r, 'ma) caching_world" where
  "caching_deliver d i req ai w =
     caching_onProvider d (fr_onProvider req) ai
       (w\<lparr>cw_finder := worker_provider i req ai (cw_finder w)\<rparr>)"

text \<open>
  Worker \<open>i\<close> takes the first request and handles it, the router delivering \<open>addrInfos\<close>: the
  composition of \<open>worker_take\<close>, the deliveries, \<open>worker_finish\<close> and \<open>worker_done\<close>.
\<close>

definition caching_handle ::
    "'c timecache \<Rightarrow> ('s, 'r, 'ma) CachingProviderStore \<Rightarrow> int \<Rightarrow> int \<Rightarrow> nat \<Rightarrow> 'ma addr_info list \<Rightarrow>
     ('s, 'c, 'r, 'ma) caching_world \<Rightarrow> ('s, 'c, 'r, 'ma) caching_world option" where
  "caching_handle tc d now findTime i addrInfos w =
     (case fs_workQueue (cw_finder w) of
        [] \<Rightarrow> None
      | req # _ \<Rightarrow>
          (let w1 = w\<lparr>cw_finder := worker_take i (cw_finder w)\<rparr>;
               w2 = fold (caching_deliver d i req) addrInfos w1
           in case worker_finish tc now findTime i req (addrInfos \<noteq> []) (cw_finder w2) of
                None \<Rightarrow> None
              | Some f \<Rightarrow> Some (w2\<lparr>cw_finder := worker_done i req f\<rparr>)))"

section \<open>The caching store keeps the contract\<close>

locale caching_store =
  fixes tc :: "'c timecache" and d :: "('s, 'r, 'ma) CachingProviderStore"
    and ids :: "'s \<Rightarrow> bytes \<Rightarrow> peer_id set"
  assumes read_ok: "store_ok ids (cps_ReadProviderStore d)"
    and write_ok: "store_ok ids (cps_WriteProviderStore d)"

sublocale caching_store \<subseteq> caching: provider_store "CachingProviderStore_AddProvider d"
    "CachingProviderStore_GetProviders tc d"
    "\<lambda>w :: ('s, 'c, 'r, 'ma) caching_world. ids (cw_store w)"
proof
  show "ids (cw_store (fst (CachingProviderStore_AddProvider d key prov w))) k
      \<subseteq> ids (cw_store w) k \<union> (if k = key then {ai_ID prov} else {})"
    for key prov and w :: "('s, 'c, 'r, 'ma) caching_world" and k
    using store_okD(1) [OF write_ok, of key prov "cw_store w" k]
    by (simp add: CachingProviderStore_AddProvider_def split_beta)
  show "ids (cw_store w') k \<subseteq> ids (cw_store w) k" "info_ids infos \<subseteq> ids (cw_store w) key"
    if get: "CachingProviderStore_GetProviders tc d key w = Some (w', infos, err)"
    for key and w w' :: "('s, 'c, 'r, 'ma) caching_world" and infos err k
  proof -
    obtain s' infos' e where g: "ps_GetProviders (cps_ReadProviderStore d) key (cw_store w) =
        Some (s', infos', e)" "cw_store w' = s'" "infos = infos' \<or> infos = []"
      using get by (auto simp: CachingProviderStore_GetProviders_def split: option.splits if_splits)
    with store_okD(2) [OF read_ok g(1), of k] store_okD(3) [OF read_ok g(1)]
    show "ids (cw_store w') k \<subseteq> ids (cw_store w) k" "info_ids infos \<subseteq> ids (cw_store w) key"
      by auto
  qed
qed

section \<open>Steps\<close>

text \<open>
  Reachable worlds of a caching store, with the set of pairs of a key and a provider that were
  added by \<open>AddProvider\<close> or delivered by the router for a request for the key.
\<close>

inductive caching_reach ::
    "'c timecache \<Rightarrow> ('s, 'r, 'ma) CachingProviderStore \<Rightarrow> 's \<Rightarrow>
     ('s, 'c, 'r, 'ma) caching_world \<Rightarrow> (bytes \<times> peer_id) set \<Rightarrow> bool" for tc d s0 where
  init: "caching_reach tc d s0
    \<lparr>cw_store = s0, cw_finder = NewAsyncProvidersFinder queueSize ttl NewTimeCache,
     cw_PrefetchFailedToCache = 0\<rparr> {}"
| run: "caching_reach tc d s0 w E \<Longrightarrow>
    caching_reach tc d s0 (w\<lparr>cw_finder := asyncProvidersFinder_Run (cw_finder w) n\<rparr>) E"
| add: "caching_reach tc d s0 w E \<Longrightarrow>
    caching_reach tc d s0 (fst (CachingProviderStore_AddProvider d key prov w)) (insert (key, ai_ID prov) E)"
| get: "caching_reach tc d s0 w E \<Longrightarrow>
    CachingProviderStore_GetProviders tc d key w = Some (w', infos, err) \<Longrightarrow> caching_reach tc d s0 w' E"
| take: "caching_reach tc d s0 w E \<Longrightarrow> i < length (fs_workers (cw_finder w)) \<Longrightarrow>
    fs_workers (cw_finder w) ! i = WIdle \<Longrightarrow> fs_workQueue (cw_finder w) \<noteq> [] \<Longrightarrow>
    caching_reach tc d s0 (w\<lparr>cw_finder := worker_take i (cw_finder w)\<rparr>) E"
| deliver: "caching_reach tc d s0 w E \<Longrightarrow> i < length (fs_workers (cw_finder w)) \<Longrightarrow>
    fs_workers (cw_finder w) ! i = WHandling req found \<Longrightarrow>
    caching_reach tc d s0 (caching_deliver d i req ai w) (insert (fr_key req, ai_ID ai) E)"
| finish: "caching_reach tc d s0 w E \<Longrightarrow> i < length (fs_workers (cw_finder w)) \<Longrightarrow>
    fs_workers (cw_finder w) ! i = WHandling req found \<Longrightarrow>
    worker_finish tc now findTime i req found (cw_finder w) = Some f \<Longrightarrow>
    caching_reach tc d s0 (w\<lparr>cw_finder := f\<rparr>) E"
| complete: "caching_reach tc d s0 w E \<Longrightarrow> i < length (fs_workers (cw_finder w)) \<Longrightarrow>
    fs_workers (cw_finder w) ! i = WDone req \<Longrightarrow>
    caching_reach tc d s0 (w\<lparr>cw_finder := worker_done i req (cw_finder w)\<rparr>) E"

text \<open>Every request carries its own key as the callback's key.\<close>

definition reqs_ok :: "('c, 'r, bytes, 'ma) finder \<Rightarrow> bool" where
  "reqs_ok f \<longleftrightarrow> (\<forall>req \<in> set (fs_workQueue f). fr_onProvider req = fr_key req) \<and>
     (\<forall>w \<in> set (fs_workers f). \<forall>req found. w = WHandling req found \<longrightarrow> fr_onProvider req = fr_key req)"

lemma reqs_ok_worker:
  "reqs_ok f \<Longrightarrow> i < length (fs_workers f) \<Longrightarrow> fs_workers f ! i = WHandling req found \<Longrightarrow>
   fr_onProvider req = fr_key req"
  unfolding reqs_ok_def by (metis nth_mem)

lemma reqs_ok_Find: "reqs_ok f \<Longrightarrow> reqs_ok (asyncProvidersFinder_Find tc f router key key)"
  by (auto simp: reqs_ok_def asyncProvidersFinder_Find_def recordPrefetches_def)

lemma reqs_ok_take: "reqs_ok f \<Longrightarrow> reqs_ok (worker_take i f)"
  by (auto simp: reqs_ok_def worker_take_def dest!: set_update_subset_insert [THEN subsetD]
      split: list.split)

lemma reqs_ok_update:
  assumes "reqs_ok f" "fs_workQueue f' = fs_workQueue f" "fs_workers f' = (fs_workers f)[i := w]"
    "\<forall>req found. w = WHandling req found \<longrightarrow> fr_onProvider req = fr_key req"
  shows "reqs_ok f'"
  using assms(1,2,4) set_update_subset_insert [of "fs_workers f" i w]
  unfolding reqs_ok_def assms(3) by auto

lemma caching_onProvider_store:
  "cw_store (caching_onProvider d key ai w) =
     fst (ps_AddProvider (cps_WriteProviderStore d) key ai (cw_store w))"
  "cw_finder (caching_onProvider d key ai w) = cw_finder w"
  by (simp_all add: caching_onProvider_def split_beta)

lemma caching_deliver_parts:
  "cw_store (caching_deliver d i req ai w) =
     fst (ps_AddProvider (cps_WriteProviderStore d) (fr_onProvider req) ai (cw_store w))"
  "cw_finder (caching_deliver d i req ai w) = worker_provider i req ai (cw_finder w)"
  by (simp_all add: caching_deliver_def caching_onProvider_store)

lemma caching_reqs_ok: "caching_reach tc d s0 w E \<Longrightarrow> reqs_ok (cw_finder w)"
proof (induction rule: caching_reach.induct)
  case (get w E key w' infos err)
  then show ?case
    by (auto simp: CachingProviderStore_GetProviders_def reqs_ok_Find split: option.splits if_splits)
next
  case (run w E n)
  then show ?case by (auto simp: reqs_ok_def asyncProvidersFinder_Run_def)
next
  case (take w E i)
  then show ?case by (simp add: reqs_ok_take)
next
  case (deliver w E i req found ai)
  then show ?case
    using reqs_ok_worker [OF deliver(4,2,3)]
    by (auto simp: caching_deliver_parts worker_provider_def intro!: reqs_ok_update [OF deliver(4)])
next
  case (finish w E i req found now findTime f)
  then show ?case
    using worker_finish_frame [OF finish(4)] by (auto intro!: reqs_ok_update [OF finish(5)])
next
  case (complete w E i req)
  then show ?case
    by (auto simp: worker_done_def intro!: reqs_ok_update [OF complete(4)])
qed (auto simp: reqs_ok_def NewAsyncProvidersFinder_def CachingProviderStore_AddProvider_def
    split_beta)

context caching_store
begin

lemma reach_sound:
  "caching_reach tc d s0 w E \<Longrightarrow> ids (cw_store w) k \<subseteq> ids s0 k \<union> {p. (k, p) \<in> E}"
proof (induction rule: caching_reach.induct)
  case (add w E key prov)
  then show ?case using caching.add_ids [of key prov w k] by (auto split: if_splits)
next
  case (get w E key w' infos err)
  then show ?case using caching.get_ids [OF get(2), of k] by auto
next
  case (deliver w E i req found ai)
  then have "fr_onProvider req = fr_key req"
    using reqs_ok_worker caching_reqs_ok by metis
  with store_okD(1) [OF write_ok, of "fr_key req" ai "cw_store w" k] deliver.IH show ?case
    by (auto simp: caching_deliver_parts split: if_splits)
qed auto

lemma get_reach_sound:
  assumes "caching_reach tc d s0 w E"
    "CachingProviderStore_GetProviders tc d key w = Some (w', infos, err)"
  shows "info_ids infos \<subseteq> ids s0 key \<union> {p. (key, p) \<in> E}"
  using caching.get_sound [OF assms(2)] reach_sound [OF assms(1), of key] by blast

end

section \<open>The DynamoDB table behind a cache\<close>

lemma mem_store_ok: "store_ok mem_ids (DynamoDBProviderStore (mem_env page) ddb)"
  using mem.ddb.provider_store_axioms by (simp add: store_ok_def DynamoDBProviderStore_def)

interpretation ddb_cache: caching_store list_timecache
    "NewCachingProviderStore (DynamoDBProviderStore (mem_env page) ddb)
       (DynamoDBProviderStore (mem_env page) ddb) router" mem_ids for page ddb router
  by unfold_locales (simp_all add: NewCachingProviderStore_def mem_store_ok)

section \<open>One prefetch\<close>

lemma deliver_fold:
  assumes "i < length (fs_workers (cw_finder w))"
    "fs_workers (cw_finder w) ! i = WHandling req found"
  shows "cw_finder (fold (caching_deliver d i req) addrInfos w) =
      fold (worker_provider i req) addrInfos (cw_finder w)"
    "cw_store (fold (caching_deliver d i req) addrInfos w) =
      foldl (\<lambda>s ai. fst (ps_AddProvider (cps_WriteProviderStore d) (fr_onProvider req) ai s))
        (cw_store w) addrInfos"
  using assms
  by (induction addrInfos arbitrary: w found)
    (auto simp: caching_deliver_parts worker_provider_def)

lemma caching_handle_eq:
  assumes "i < length (fs_workers (cw_finder w))" "fs_workers (cw_finder w) ! i = WIdle"
    "fs_workQueue (cw_finder w) = req # rest"
  shows "caching_handle tc d now ft i addrInfos w =
    map_option (\<lambda>f. (fold (caching_deliver d i req) addrInfos
        (w\<lparr>cw_finder := worker_take i (cw_finder w)\<rparr>))\<lparr>cw_finder := f\<rparr>)
      (handleRequest tc now ft i req addrInfos (worker_take i (cw_finder w)))"
proof -
  let ?w1 = "w\<lparr>cw_finder := worker_take i (cw_finder w)\<rparr>"
  have "i < length (fs_workers (cw_finder ?w1))"
      "fs_workers (cw_finder ?w1) ! i = WHandling req False"
    using assms by (simp_all add: worker_take_def)
  from deliver_fold(1) [OF this, of d addrInfos] show ?thesis
    by (simp add: caching_handle_def assms(3) handleRequest_def Let_def split: option.split)
qed

section \<open>Properties\<close>

definition example_cache :: "(mem_table, unit, nat) CachingProviderStore" where
  "example_cache = NewCachingProviderStore (DynamoDBProviderStore (mem_env 2) example_ddb)
     (DynamoDBProviderStore (mem_env 2) example_ddb) ()"

definition example_world :: "(mem_table, bytes list, unit, nat) caching_world" where
  "example_world = \<lparr>cw_store = example_table,
     cw_finder = asyncProvidersFinder_Run (NewAsyncProvidersFinder 2 60000000000 (\<lambda>_. [])) 1,
     cw_PrefetchFailedToCache = 0\<rparr>"

lemma example_world_reach: "caching_reach list_timecache example_cache example_table example_world {}"
proof -
  have "caching_reach list_timecache example_cache example_table
      \<lparr>cw_store = example_table, cw_finder = NewAsyncProvidersFinder 2 60000000000 (\<lambda>_. []),
       cw_PrefetchFailedToCache = 0\<rparr> {}"
    by (rule caching_reach.init)
  from caching_reach.run [OF this, of 1] show ?thesis by (simp add: example_world_def)
qed

text \<open>
  C8: a caching store never invents providers, background prefetches included. In every world
  reached by look-ups, additions and worker steps, a look-up for a key returns only providers that
  the stores had for the key at the start, that were added for the key, or that the router
  delivered for a request for the same key.
\<close>

theorem caching_sound:
  assumes "store_ok ids (cps_ReadProviderStore d)" "store_ok ids (cps_WriteProviderStore d)"
    and "caching_reach tc d s0 w E"
    and "CachingProviderStore_GetProviders tc d key w = Some (w', infos, err)"
  shows "info_ids infos \<subseteq> ids s0 key \<union> {p. (key, p) \<in> E}"
  using caching_store.get_reach_sound [OF caching_store.intro [OF assms(1,2)] assms(3,4)] .

theorem caching_sound_witness:
  "\<exists>w'. CachingProviderStore_GetProviders list_timecache example_cache [2] example_world =
     Some (w', [\<lparr>ai_ID = [23], ai_Addrs = []\<rparr>], None) \<and>
   info_ids [\<lparr>ai_ID = [23], ai_Addrs = [] :: nat list\<rparr>] \<subseteq> mem_ids example_table [2] \<union> {p. ([2], p) \<in> {}}"
proof -
  have ok: "store_ok mem_ids (cps_ReadProviderStore example_cache)"
      "store_ok mem_ids (cps_WriteProviderStore example_cache)"
    by (simp_all add: example_cache_def NewCachingProviderStore_def mem_store_ok)
  have "0 < sint (ds_QueryLimit example_ddb)" by (simp add: example_limit)
  from dynamo_loop [OF example_answers [of "[2]"] this, simplified example_records example_by_ttl]
  obtain w' where w': "CachingProviderStore_GetProviders list_timecache example_cache [2] example_world =
     Some (w', [\<lparr>ai_ID = [23], ai_Addrs = []\<rparr>], None)"
    by (simp add: CachingProviderStore_GetProviders_def example_cache_def NewCachingProviderStore_def
        DynamoDBProviderStore_def dynamoDBProviderStore_GetProviders_def example_world_def
        example_records example_by_ttl example_limit mem_env_def example_table_def)
  from caching_sound [OF ok example_world_reach w'] w' show ?thesis by blast
qed

text \<open>
  C26: a miss is fetched and cached. When the store behind the cache has no provider for a key, the
  finder does not know the key and its queue is empty with room in it, \<open>GetProviders\<close> returns no
  provider and no error at once and queues one request. When an idle worker has handled it, every
  provider the router delivered has been added to the write store for that key, in order, the key
  is no longer pending, and with no delivery the key is in the negative cache.
\<close>

theorem caching_prefetch:
  assumes "timecache_ok tc"
    and "ps_GetProviders (cps_ReadProviderStore d) key (cw_store w) = Some (s1, [], None)"
    and "key \<notin> fs_pending (cw_finder w)" "\<not> tc_Has tc (fs_negativeCache (cw_finder w)) key"
    and "fs_workQueue (cw_finder w) = []" "0 < fs_workQueueSize (cw_finder w)"
    and "i < length (fs_workers (cw_finder w))" "fs_workers (cw_finder w) ! i = WIdle"
  shows "\<exists>w1 w2. CachingProviderStore_GetProviders tc d key w = Some (w1, [], None) \<and>
    key \<in> fs_pending (cw_finder w1) \<and>
    caching_handle tc d now ft i addrInfos w1 = Some w2 \<and>
    cw_store w2 = foldl (\<lambda>s ai. fst (ps_AddProvider (cps_WriteProviderStore d) key ai s)) s1 addrInfos \<and>
    fs_pending (cw_finder w2) = fs_pending (cw_finder w) \<and> fs_workQueue (cw_finder w2) = [] \<and>
    fs_workers (cw_finder w2) = fs_workers (cw_finder w) \<and>
    (addrInfos = [] \<longrightarrow> tc_Has tc (fs_negativeCache (cw_finder w2)) key)"
proof -
  let ?req = "\<lparr>fr_router = cps_Router d, fr_key = key, fr_onProvider = key\<rparr>"
  let ?f = "(cw_finder w)\<lparr>fs_workQueue := [?req], fs_pending := insert key (fs_pending (cw_finder w))\<rparr>"
  let ?w1 = "w\<lparr>cw_store := s1, cw_finder := ?f\<rparr>"
  let ?t = "worker_take i ?f"
  have get: "CachingProviderStore_GetProviders tc d key w = Some (?w1, [], None)"
    using assms(2-6) by (simp add: CachingProviderStore_GetProviders_def
        asyncProvidersFinder_Find_def idempotentTimeCache_Has_def)
  have t: "i < length (fs_workers ?t)" "fs_workers ?t ! i = WHandling ?req False"
    using assms(7) by (simp_all add: worker_take_def)
  obtain c where c: "idempotentTimeCache_Add tc now (fs_negativeCache (cw_finder w)) key = Some c"
      "tc_Has tc c key"
    using idempotentTimeCache_Add_ok [OF assms(1)] by (metis idempotentTimeCache_Has_def)
  note eq = handleRequest_eq [OF t, of tc now ft addrInfos]
  obtain f2 where f2: "handleRequest tc now ft i ?req addrInfos ?t = Some f2"
    using eq c by (simp add: worker_take_def split: if_splits)
  have parts: "fs_pending f2 = fs_pending (cw_finder w)" "fs_workQueue f2 = []"
      "fs_workers f2 = fs_workers (cw_finder w)" "addrInfos = [] \<longrightarrow> tc_Has tc (fs_negativeCache f2) key"
    using eq f2 c assms(3,8) list_update_id [of "fs_workers (cw_finder w)" i]
    by (auto simp: worker_take_def split: if_splits)
  let ?w2 = "(fold (caching_deliver d i ?req) addrInfos (?w1\<lparr>cw_finder := ?t\<rparr>))\<lparr>cw_finder := f2\<rparr>"
  have "caching_handle tc d now ft i addrInfos ?w1 = Some ?w2"
    using caching_handle_eq [of i ?w1 ?req "[]" tc d now ft addrInfos] assms(7,8) f2 by simp
  moreover have "cw_store ?w2 =
      foldl (\<lambda>s ai. fst (ps_AddProvider (cps_WriteProviderStore d) key ai s)) s1 addrInfos"
    using deliver_fold(2) [of i "?w1\<lparr>cw_finder := ?t\<rparr>" ?req False d addrInfos] t by simp
  ultimately show ?thesis using get parts
    by (intro exI [of _ ?w1] exI [of _ ?w2]) simp
qed

theorem caching_prefetch_witness:
  "\<exists>w1 w2. CachingProviderStore_GetProviders list_timecache example_cache [3] example_world = Some (w1, [], None) \<and>
     caching_handle list_timecache example_cache 0 0 0 [\<lparr>ai_ID = [30], ai_Addrs = [4]\<rparr>] w1 = Some w2 \<and>
     [30] \<in> mem_ids (cw_store w2) [3]"
proof -
  have "0 < sint (ds_QueryLimit example_ddb)" by (simp add: example_limit)
  from dynamo_loop [OF example_answers [of "[3]"] this, simplified example_records example_by_ttl]
  have miss: "\<exists>s1. ps_GetProviders (cps_ReadProviderStore example_cache) [3] (cw_store example_world) =
      Some (s1, [], None) \<and> mt_now s1 = 0 \<and> mt_records s1 = mt_records example_table"
    by (simp add: example_cache_def NewCachingProviderStore_def DynamoDBProviderStore_def
        dynamoDBProviderStore_GetProviders_def example_world_def example_records example_by_ttl
        example_limit mem_env_def example_table_def)
  then obtain s1 where s1: "ps_GetProviders (cps_ReadProviderStore example_cache) [3]
      (cw_store example_world) = Some (s1, [], None)" "mt_now s1 = 0"
      "mt_records s1 = mt_records example_table" by blast
  have "[30] \<in> mem_ids (fst (ps_AddProvider (cps_WriteProviderStore example_cache) [3]
      \<lparr>ai_ID = [30], ai_Addrs = [4]\<rparr> s1)) [3]"
    using s1(2,3) example_ttl
    by (auto simp: example_cache_def NewCachingProviderStore_def DynamoDBProviderStore_def
        dynamoDBProviderStore_AddProvider_def put_input_def example_ddb_def NewDynamoDBProviderStore_def
        peer_const_def mem_env_def mem_put_def mem_ids_def example_table_def Let_def)
  with caching_prefetch [OF list_timecache_ok s1(1), of 0 0 0 "[\<lparr>ai_ID = [30], ai_Addrs = [4]\<rparr>]"]
  show ?thesis
    by (fastforce simp: example_world_def asyncProvidersFinder_Run_def NewAsyncProvidersFinder_def
        list_timecache_def)
qed

end
