(* ===== verification/Bootstrap.thy ===== *)
theory Bootstrap
  imports Hydra_Prelude
begin

text \<open>
  The bootstrap goroutines of \<^verbatim>\<open>src/head/head.go\<close> (the function literal at the end of \<open>NewHead\<close>)
  for all heads of a hydra, with the limiter channel they share and the statuses each sends, and
  the receivers: \<open>handleBootstrapStatus\<close> of \<^verbatim>\<open>src/hydra/hydra.go\<close> and the loop of \<open>SpawnTestHead\<close>
  in \<^verbatim>\<open>src/head/testing.go\<close>.

  The state is the number of tokens in the limiter, whether the context is done, and one record per
  head. A step is what one goroutine does between two synchronisation points: acquiring the
  limiter, finishing one bootstrap peer, passing \<open>wg.Wait\<close>, reporting that bootstrapping is done,
  releasing the limiter and closing the channel. The receiver of the status channel is always ready
  (it is a loop that only prints), so a send succeeds at once; when the context is done, a \<open>select\<close>
  may take the other branch. Whether a peer can be reached is up to the environment.
\<close>

section \<open>The code\<close>

record bootstrap_status =
  st_Done :: bool
  st_Err :: "go_error option"

datatype boot_phase =
    Acquiring            \<comment> \<open>in the \<open>select\<close> on \<open>cfg.Limiter\<close>\<close>
  | Connecting           \<comment> \<open>before \<open>wg.Wait\<close>\<close>
  | Reporting            \<comment> \<open>sending \<open>Done: true\<close>\<close>
  | Releasing            \<comment> \<open>before \<open><-cfg.Limiter\<close>\<close>
  | Finished             \<comment> \<open>\<open>close(bsCh)\<close> done\<close>
  | Gave_up bool         \<comment> \<open>returned because the context is done; whether it holds a token\<close>

record boot =
  bt_phase :: boot_phase
  bt_peers :: "string list"               \<comment> \<open>\<open>cfg.BootstrapPeers\<close>\<close>
  bt_waiting :: "string multiset"         \<comment> \<open>peers whose goroutine has not called \<open>wg.Done\<close>\<close>
  bt_sent :: "bootstrap_status list"      \<comment> \<open>statuses received from \<open>bsCh\<close>\<close>
  bt_protected :: "peer_id list"

record boot_state =
  bs_cap :: nat
  bs_tokens :: nat
  bs_ctxDone :: bool
  bs_heads :: "boot list"

definition new_boot :: "string list \<Rightarrow> boot" where
  "new_boot peers = \<lparr>bt_phase = Acquiring, bt_peers = peers, bt_waiting = mset peers,
     bt_sent = [], bt_protected = []\<rparr>"

text \<open>The \<open>select\<close> on the limiter succeeded; with no bootstrap peers the connecting part is skipped.\<close>

definition boot_acquire :: "boot \<Rightarrow> boot" where
  "boot_acquire b = b\<lparr>bt_phase := (if 0 < length (bt_peers b) then Connecting else Releasing)\<rparr>"

definition boot_failed :: "string \<Rightarrow> string \<Rightarrow> go_error \<Rightarrow> boot \<Rightarrow> boot" where
  "boot_failed what addr err b =
     b\<lparr>bt_waiting := bt_waiting b - {#addr#},
       bt_sent := bt_sent b @ [\<lparr>st_Done = False, st_Err = Some (Wrapf what err)\<rparr>]\<rparr>"

definition boot_unreported :: "string \<Rightarrow> boot \<Rightarrow> boot" where
  "boot_unreported addr b = b\<lparr>bt_waiting := bt_waiting b - {#addr#}\<rparr>"

definition boot_connected :: "string \<Rightarrow> peer_id \<Rightarrow> boot \<Rightarrow> boot" where
  "boot_connected addr p b =
     b\<lparr>bt_waiting := bt_waiting b - {#addr#}, bt_protected := bt_protected b @ [p]\<rparr>"

definition boot_waited :: "bool \<Rightarrow> boot \<Rightarrow> boot" where
  "boot_waited ctxDone b = b\<lparr>bt_phase := (if ctxDone then Gave_up True else Reporting)\<rparr>"

definition boot_report :: "boot \<Rightarrow> boot" where
  "boot_report b = b\<lparr>bt_phase := Releasing,
     bt_sent := bt_sent b @ [\<lparr>st_Done = True, st_Err = None\<rparr>]\<rparr>"

definition boot_release :: "boot \<Rightarrow> boot" where
  "boot_release b = b\<lparr>bt_phase := Finished\<rparr>"

definition set_head :: "nat \<Rightarrow> boot \<Rightarrow> boot_state \<Rightarrow> boot_state" where
  "set_head i b s = s\<lparr>bs_heads := (bs_heads s)[i := b]\<rparr>"

definition badAddr :: string where
  "badAddr = ''failed to get random bootstrap multiaddr: ''"

definition badConnect :: string where
  "badConnect = ''bootstrap connect failed with error: ''"

text \<open>A step of the goroutine of head \<open>i\<close>.\<close>

inductive boot_step :: "boot_state \<Rightarrow> boot_state \<Rightarrow> bool" where
  acquire: "i < length (bs_heads s) \<Longrightarrow> bt_phase (bs_heads s ! i) = Acquiring \<Longrightarrow>
    bs_tokens s < bs_cap s \<Longrightarrow>
    boot_step s ((set_head i (boot_acquire (bs_heads s ! i)) s)\<lparr>bs_tokens := Suc (bs_tokens s)\<rparr>)"
| abort: "i < length (bs_heads s) \<Longrightarrow> bt_phase (bs_heads s ! i) = Acquiring \<Longrightarrow> bs_ctxDone s \<Longrightarrow>
    boot_step s (set_head i ((bs_heads s ! i)\<lparr>bt_phase := Gave_up False\<rparr>) s)"
| failed: "i < length (bs_heads s) \<Longrightarrow> bt_phase (bs_heads s ! i) = Connecting \<Longrightarrow>
    addr \<in># bt_waiting (bs_heads s ! i) \<Longrightarrow> what \<in> {badAddr, badConnect} \<Longrightarrow>
    boot_step s (set_head i (boot_failed what addr err (bs_heads s ! i)) s)"
| unreported: "i < length (bs_heads s) \<Longrightarrow> bt_phase (bs_heads s ! i) = Connecting \<Longrightarrow>
    addr \<in># bt_waiting (bs_heads s ! i) \<Longrightarrow> bs_ctxDone s \<Longrightarrow>
    boot_step s (set_head i (boot_unreported addr (bs_heads s ! i)) s)"
| connected: "i < length (bs_heads s) \<Longrightarrow> bt_phase (bs_heads s ! i) = Connecting \<Longrightarrow>
    addr \<in># bt_waiting (bs_heads s ! i) \<Longrightarrow>
    boot_step s (set_head i (boot_connected addr p (bs_heads s ! i)) s)"
| waited: "i < length (bs_heads s) \<Longrightarrow> bt_phase (bs_heads s ! i) = Connecting \<Longrightarrow>
    bt_waiting (bs_heads s ! i) = {#} \<Longrightarrow>
    boot_step s (set_head i (boot_waited (bs_ctxDone s) (bs_heads s ! i)) s)"
| report: "i < length (bs_heads s) \<Longrightarrow> bt_phase (bs_heads s ! i) = Reporting \<Longrightarrow>
    boot_step s (set_head i (boot_report (bs_heads s ! i)) s)"
| unreported_done: "i < length (bs_heads s) \<Longrightarrow> bt_phase (bs_heads s ! i) = Reporting \<Longrightarrow>
    bs_ctxDone s \<Longrightarrow>
    boot_step s (set_head i ((bs_heads s ! i)\<lparr>bt_phase := Gave_up True\<rparr>) s)"
| release: "i < length (bs_heads s) \<Longrightarrow> bt_phase (bs_heads s ! i) = Releasing \<Longrightarrow>
    0 < bs_tokens s \<Longrightarrow>
    boot_step s ((set_head i (boot_release (bs_heads s ! i)) s)\<lparr>bs_tokens := bs_tokens s - 1\<rparr>)"

inductive boot_reach :: "boot_state \<Rightarrow> boot_state \<Rightarrow> bool" for s0 where
  init: "boot_reach s0 s0"
| spawn: "boot_reach s0 s \<Longrightarrow> boot_reach s0 (s\<lparr>bs_heads := bs_heads s @ [new_boot peers]\<rparr>)"
| step: "boot_reach s0 s \<Longrightarrow> boot_step s s' \<Longrightarrow> boot_reach s0 s'"
| cancel: "boot_reach s0 s \<Longrightarrow> boot_reach s0 (s\<lparr>bs_ctxDone := True\<rparr>)"

text \<open>\<open>limiter := make(chan struct{}, options.BsCon)\<close>, before any head.\<close>

definition boot_start :: "nat \<Rightarrow> boot_state" where
  "boot_start BsCon = \<lparr>bs_cap = BsCon, bs_tokens = 0, bs_ctxDone = False, bs_heads = []\<rparr>"

text \<open>\<open>handleBootstrapStatus\<close>: the errors printed and the increments of \<open>BootstrappedHeads\<close>.\<close>

fun handleBootstrapStatus :: "bootstrap_status list \<Rightarrow> go_error list \<times> nat" where
  "handleBootstrapStatus [] = ([], 0)"
| "handleBootstrapStatus (status # rest) =
     (let (printed, n) = handleBootstrapStatus rest
      in ((case st_Err status of None \<Rightarrow> printed | Some e \<Rightarrow> e # printed),
          if st_Done status then Suc n else n))"

section \<open>Invariants\<close>

text \<open>Heads that hold a token of the limiter.\<close>

fun holds :: "boot_phase \<Rightarrow> nat" where
  "holds Acquiring = 0"
| "holds Finished = 0"
| "holds (Gave_up h) = (if h then 1 else 0)"
| "holds _ = 1"

definition held :: "boot_state \<Rightarrow> nat" where
  "held s = sum_list (map (\<lambda>b. holds (bt_phase b)) (bs_heads s))"

text \<open>What one head has sent, by phase.\<close>

definition boot_ok :: "bool \<Rightarrow> boot \<Rightarrow> bool" where
  "boot_ok ctxDone b \<longleftrightarrow>
     (bt_phase b \<in> {Connecting, Reporting} \<longrightarrow> bt_peers b \<noteq> []) \<and>
     (bt_phase b \<in> {Reporting, Releasing, Finished} \<longrightarrow> bt_waiting b = {#}) \<and>
     (\<forall>st \<in> set (bt_sent b). st_Done st = (st_Err st = None)) \<and>
     (\<forall>h. bt_phase b = Gave_up h \<longrightarrow> ctxDone) \<and>
     length (filter (\<lambda>st. \<not> st_Done st) (bt_sent b)) + length (bt_protected b) + size (bt_waiting b)
       \<le> length (bt_peers b) \<and>
     (\<not> ctxDone \<longrightarrow> length (filter (\<lambda>st. \<not> st_Done st) (bt_sent b)) + length (bt_protected b) +
        size (bt_waiting b) = length (bt_peers b)) \<and>
     length (filter st_Done (bt_sent b)) =
       (if bt_peers b \<noteq> [] \<and> bt_phase b \<in> {Releasing, Finished} then 1 else 0)"

definition boot_inv :: "boot_state \<Rightarrow> bool" where
  "boot_inv s \<longleftrightarrow> bs_tokens s = held s \<and> bs_tokens s \<le> bs_cap s \<and>
     (\<forall>b \<in> set (bs_heads s). boot_ok (bs_ctxDone s) b)"

lemma held_set_head:
  assumes "i < length (bs_heads s)"
  shows "held (set_head i b s) + holds (bt_phase (bs_heads s ! i)) = held s + holds (bt_phase b)"
  using sum_list_update_add [OF assms, of "\<lambda>b. holds (bt_phase b)" b]
  by (simp add: held_def set_head_def)

lemma set_head_simps [simp]:
  "bs_tokens (set_head i b s) = bs_tokens s" "bs_cap (set_head i b s) = bs_cap s"
  "bs_ctxDone (set_head i b s) = bs_ctxDone s" "length (bs_heads (set_head i b s)) = length (bs_heads s)"
  by (simp_all add: set_head_def)

lemma held_tokens [simp]: "held (s\<lparr>bs_tokens := n\<rparr>) = held s"
  by (simp add: held_def)

lemma set_head_ok:
  assumes "\<forall>b \<in> set (bs_heads s). boot_ok c b" "boot_ok c b"
  shows "\<forall>b \<in> set (bs_heads (set_head i b s)). boot_ok c b"
  using assms set_update_subset_insert [of "bs_heads s" i b] by (auto simp: set_head_def)

text \<open>An update of one head keeps the invariant if it changes the tokens by what the head holds.\<close>

lemma boot_inv_set:
  assumes "boot_inv s" "i < length (bs_heads s)" "boot_ok (bs_ctxDone s) b"
    and "n + holds (bt_phase (bs_heads s ! i)) = bs_tokens s + holds (bt_phase b)" "n \<le> bs_cap s"
  shows "boot_inv ((set_head i b s)\<lparr>bs_tokens := n\<rparr>)"
  using assms held_set_head [OF assms(2), of b] set_head_ok [of s "bs_ctxDone s" b i]
  by (auto simp: boot_inv_def set_head_def)

lemma boot_inv_set_same:
  assumes "boot_inv s" "i < length (bs_heads s)" "boot_ok (bs_ctxDone s) b"
    and "holds (bt_phase (bs_heads s ! i)) = holds (bt_phase b)"
  shows "boot_inv (set_head i b s)"
  using boot_inv_set [OF assms(1-3), of "bs_tokens s"] assms(1,4)
  by (simp add: boot_inv_def set_head_def held_def)

lemma boot_ok_nth: "boot_inv s \<Longrightarrow> i < length (bs_heads s) \<Longrightarrow> boot_ok (bs_ctxDone s) (bs_heads s ! i)"
  by (simp add: boot_inv_def)

lemmas boot_defs = boot_acquire_def boot_failed_def boot_unreported_def boot_connected_def
  boot_waited_def boot_report_def boot_release_def

lemma boot_step_inv [inv_intros]:
  assumes "boot_step s s'" "boot_inv s"
  shows "boot_inv s'"
  using assms(1)
proof (cases rule: boot_step.cases)
  case (acquire i)
  with boot_ok_nth [OF assms(2) acquire(2)] assms(2) show ?thesis
    by (auto intro!: boot_inv_set simp: boot_ok_def boot_acquire_def split: if_splits)
next
  case (abort i)
  with boot_ok_nth [OF assms(2) abort(2)] assms(2) show ?thesis
    by (auto intro!: boot_inv_set_same simp: boot_ok_def)
next
  case (failed i addr what err)
  then obtain M where M: "bt_waiting (bs_heads s ! i) = add_mset addr M" by (metis multi_member_split)
  with failed boot_ok_nth [OF assms(2) failed(2)] assms(2) show ?thesis
    by (auto intro!: boot_inv_set_same simp: boot_ok_def boot_failed_def)
next
  case (unreported i addr)
  then obtain M where M: "bt_waiting (bs_heads s ! i) = add_mset addr M" by (metis multi_member_split)
  with unreported boot_ok_nth [OF assms(2) unreported(2)] assms(2) show ?thesis
    by (auto intro!: boot_inv_set_same simp: boot_ok_def boot_unreported_def)
next
  case (connected i addr p)
  then obtain M where M: "bt_waiting (bs_heads s ! i) = add_mset addr M" by (metis multi_member_split)
  with connected boot_ok_nth [OF assms(2) connected(2)] assms(2) show ?thesis
    by (auto intro!: boot_inv_set_same simp: boot_ok_def boot_connected_def)
next
  case (waited i)
  with boot_ok_nth [OF assms(2) waited(2)] assms(2) show ?thesis
    by (auto intro!: boot_inv_set_same simp: boot_ok_def boot_waited_def)
next
  case (report i)
  with boot_ok_nth [OF assms(2) report(2)] assms(2) show ?thesis
    by (auto intro!: boot_inv_set_same simp: boot_ok_def boot_report_def)
next
  case (unreported_done i)
  with boot_ok_nth [OF assms(2) unreported_done(2)] assms(2) show ?thesis
    by (auto intro!: boot_inv_set_same simp: boot_ok_def)
next
  case (release i)
  have "boot_ok (bs_ctxDone s) (boot_release (bs_heads s ! i))"
    using boot_ok_nth [OF assms(2) release(2)] release(3) by (auto simp: boot_ok_def boot_release_def)
  moreover have "bs_tokens s \<le> bs_cap s" using assms(2) by (simp add: boot_inv_def)
  ultimately show ?thesis unfolding release(1)
    using release by (intro boot_inv_set [OF assms(2)]) (simp_all add: boot_release_def)
qed

lemma boot_ok_cancel: "boot_ok c b \<Longrightarrow> boot_ok True b"
  by (auto simp: boot_ok_def)

lemma new_boot_ok: "boot_ok c (new_boot peers)"
  by (auto simp: boot_ok_def new_boot_def)

lemma boot_reach_inv:
  "boot_reach (boot_start BsCon) s \<Longrightarrow> boot_inv s \<and> bs_cap s = BsCon"
proof (induction rule: boot_reach.induct)
  case init
  show ?case by (simp add: boot_start_def boot_inv_def held_def)
next
  case (spawn s peers)
  then show ?case using new_boot_ok by (auto simp: boot_inv_def held_def new_boot_def)
next
  case (step s s')
  moreover have "bs_cap s' = bs_cap s" using step(2) by (cases rule: boot_step.cases) simp_all
  ultimately show ?case using boot_step_inv by simp
next
  case (cancel s)
  then show ?case using boot_ok_cancel by (auto simp: boot_inv_def held_def)
qed

section \<open>Progress\<close>

fun phase_left :: "boot_phase \<Rightarrow> nat" where
  "phase_left Acquiring = 4"
| "phase_left Connecting = 3"
| "phase_left Reporting = 2"
| "phase_left Releasing = 1"
| "phase_left _ = 0"

definition boot_left :: "boot \<Rightarrow> nat" where
  "boot_left b = phase_left (bt_phase b) + size (bt_waiting b)"

definition steps_left :: "boot_state \<Rightarrow> nat" where
  "steps_left s = sum_list (map (\<lambda>b. if bt_phase b = Finished then 0 else boot_left b) (bs_heads s))"

lemma steps_left_set:
  assumes "i < length (bs_heads s)" "bt_phase (bs_heads s ! i) \<noteq> Finished" "boot_left b < boot_left (bs_heads s ! i)"
  shows "steps_left (set_head i b s) < steps_left s"
    "steps_left ((set_head i b s)\<lparr>bs_tokens := n\<rparr>) < steps_left s"
  using sum_list_update_add [OF assms(1), of "\<lambda>b. if bt_phase b = Finished then 0 else boot_left b" b] assms(2,3)
  by (auto simp: steps_left_def set_head_def split: if_splits)

lemma boot_progress:
  assumes inv: "boot_inv s" and live: "\<not> bs_ctxDone s" and cap: "0 < bs_cap s"
    and left: "\<exists>b \<in> set (bs_heads s). bt_phase b \<noteq> Finished"
  shows "\<exists>s'. boot_step s s' \<and> \<not> bs_ctxDone s' \<and> bs_cap s' = bs_cap s \<and> steps_left s' < steps_left s"
proof -
  have no_gave_up: "bt_phase b \<noteq> Gave_up h" if "b \<in> set (bs_heads s)" for b h
    using inv live that by (auto simp: boot_inv_def boot_ok_def)
  consider (Busy) i where "i < length (bs_heads s)" "bt_phase (bs_heads s ! i) \<in> {Connecting, Reporting, Releasing}"
    | (Idle) i where "i < length (bs_heads s)" "bt_phase (bs_heads s ! i) = Acquiring"
        "\<forall>b \<in> set (bs_heads s). bt_phase b \<in> {Acquiring, Finished}"
  proof (cases "\<exists>b \<in> set (bs_heads s). bt_phase b \<in> {Connecting, Reporting, Releasing}")
    case True
    then show thesis using Busy by (auto simp: in_set_conv_nth)
  next
    case False
    then have all: "\<forall>b \<in> set (bs_heads s). bt_phase b \<in> {Acquiring, Finished}"
      using no_gave_up by (metis boot_phase.exhaust insertCI)
    with left obtain b where "b \<in> set (bs_heads s)" "bt_phase b = Acquiring" by auto
    then show thesis using Idle all by (auto simp: in_set_conv_nth)
  qed
  then show ?thesis
  proof cases
    case (Busy i)
    let ?b = "bs_heads s ! i"
    from Busy(2) consider (C) addr where "bt_phase ?b = Connecting" "addr \<in># bt_waiting ?b"
      | (W) "bt_phase ?b = Connecting" "bt_waiting ?b = {#}" | (R) "bt_phase ?b = Reporting"
      | (L) "bt_phase ?b = Releasing" by (auto simp: multiset_nonemptyE)
    then show ?thesis
    proof cases
      case (C addr)
      then have "boot_left (boot_connected addr [] ?b) < boot_left ?b"
        by (auto simp: boot_left_def boot_connected_def dest!: multi_member_split)
      with C Busy live show ?thesis
        by (intro exI [of _ "set_head i (boot_connected addr [] ?b) s"] conjI boot_step.connected)
          (simp_all add: steps_left_set)
    next
      case W
      with live have "boot_left (boot_waited (bs_ctxDone s) ?b) < boot_left ?b"
        by (simp add: boot_left_def boot_waited_def)
      with W Busy live show ?thesis
        by (intro exI [of _ "set_head i (boot_waited (bs_ctxDone s) ?b) s"] conjI boot_step.waited)
          (simp_all add: steps_left_set)
    next
      case R
      then have "boot_left (boot_report ?b) < boot_left ?b"
        by (simp add: boot_left_def boot_report_def)
      with R Busy live show ?thesis
        by (intro exI [of _ "set_head i (boot_report ?b) s"] conjI boot_step.report)
          (simp_all add: steps_left_set)
    next
      case L
      have "holds (bt_phase ?b) \<le> held s"
        unfolding held_def using Busy(1) by (intro member_le_sum_list) auto
      with L inv have "0 < bs_tokens s" by (simp add: boot_inv_def)
      moreover have "boot_left (boot_release ?b) < boot_left ?b"
        using L by (simp add: boot_left_def boot_release_def)
      ultimately show ?thesis using L Busy live
        by (intro exI [of _ "(set_head i (boot_release ?b) s)\<lparr>bs_tokens := bs_tokens s - 1\<rparr>"] conjI boot_step.release)
          (simp_all add: steps_left_set)
    qed
  next
    case (Idle i)
    have "held s = 0" using Idle(3) by (auto simp: held_def)
    then have "bs_tokens s < bs_cap s" using inv cap by (simp add: boot_inv_def)
    moreover have "boot_left (boot_acquire (bs_heads s ! i)) < boot_left (bs_heads s ! i)"
      using Idle(2) by (simp add: boot_left_def boot_acquire_def)
    ultimately show ?thesis using Idle live
      by (intro exI [of _ "(set_head i (boot_acquire (bs_heads s ! i)) s)\<lparr>bs_tokens := Suc (bs_tokens s)\<rparr>"] conjI boot_step.acquire)
          (simp_all add: steps_left_set)
  qed
qed

lemma boot_step_heads: "boot_step s s' \<Longrightarrow> length (bs_heads s') = length (bs_heads s)"
  by (induction rule: boot_step.induct) simp_all

lemma boot_completes:
  "boot_inv s \<Longrightarrow> \<not> bs_ctxDone s \<Longrightarrow> 0 < bs_cap s \<Longrightarrow>
   \<exists>s'. boot_step\<^sup>*\<^sup>* s s' \<and> \<not> bs_ctxDone s' \<and> (\<forall>b \<in> set (bs_heads s'). bt_phase b = Finished)"
proof (induction "steps_left s" arbitrary: s rule: less_induct)
  case less
  show ?case
  proof (cases "\<exists>b \<in> set (bs_heads s). bt_phase b \<noteq> Finished")
    case True
    then obtain s1 where s1: "boot_step s s1" "\<not> bs_ctxDone s1" "bs_cap s1 = bs_cap s"
        "steps_left s1 < steps_left s"
      using boot_progress [OF less.prems] by blast
    from less.hyps [OF s1(4) boot_step_inv [OF s1(1) less.prems(1)]] s1 less.prems(3)
    show ?thesis by (metis converse_rtranclp_into_rtranclp)
  qed (use less.prems in auto)
qed

section \<open>The receivers\<close>

lemma handleBootstrapStatus_eq:
  "handleBootstrapStatus sts =
     (map (the \<circ> st_Err) (filter (\<lambda>st. st_Err st \<noteq> None) sts), length (filter st_Done sts))"
  by (induction sts) (auto split: option.split)

section \<open>Properties\<close>

text \<open>
  C27: the limiter works. In every reachable state the tokens in the channel are exactly the heads
  that hold one, so at most \<open>BsCon\<close> heads are connecting to bootstrap peers at the same time,
  whatever the interleaving, and also after the context is cancelled.
\<close>

theorem bootstrap_limited:
  assumes "boot_reach (boot_start BsCon) s"
  shows "bs_tokens s = held s \<and>
    length (filter (\<lambda>b. bt_phase b = Connecting) (bs_heads s)) \<le> BsCon"
proof -
  have inv: "bs_tokens s = held s" "held s \<le> BsCon"
    using boot_reach_inv [OF assms] by (auto simp: boot_inv_def)
  have "length (filter (\<lambda>b. bt_phase b = Connecting) bs) \<le> sum_list (map (\<lambda>b. holds (bt_phase b)) bs)"
    for bs :: "boot list"
    by (induction bs) auto
  with inv show ?thesis unfolding held_def by (metis order.trans)
qed

definition example_boot :: boot_state where
  "example_boot = (boot_start 1)\<lparr>bs_heads := [new_boot [''a'', ''b''], new_boot []]\<rparr>"

lemma example_boot_reach: "boot_reach (boot_start 1) example_boot"
  using boot_reach.spawn [OF boot_reach.spawn [OF boot_reach.init [of "boot_start 1"], of "[''a'', ''b'']"], of "[]"]
  by (simp add: example_boot_def boot_start_def)

definition example_boot1 :: boot_state where
  "example_boot1 = example_boot\<lparr>bs_heads := [(new_boot [''a'', ''b''])\<lparr>bt_phase := Connecting\<rparr>, new_boot []],
     bs_tokens := 1\<rparr>"

lemma example_boot1_reach: "boot_reach (boot_start 1) example_boot1"
proof -
  have "boot_step example_boot
      ((set_head 0 (boot_acquire (bs_heads example_boot ! 0)) example_boot)\<lparr>bs_tokens := Suc 0\<rparr>)"
    using boot_step.acquire [of 0 example_boot]
    by (simp add: example_boot_def boot_start_def new_boot_def)
  moreover have "(set_head 0 (boot_acquire (bs_heads example_boot ! 0)) example_boot)\<lparr>bs_tokens := Suc 0\<rparr> =
      example_boot1"
    by (simp add: example_boot_def example_boot1_def boot_start_def new_boot_def set_head_def boot_acquire_def)
  ultimately show ?thesis using boot_reach.step [OF example_boot_reach] by simp
qed

theorem bootstrap_limited_witness:
  "boot_reach (boot_start 1) example_boot1 \<and> bs_tokens example_boot1 = 1 \<and>
   length (filter (\<lambda>b. bt_phase b = Connecting) (bs_heads example_boot1)) \<le> 1"
  using bootstrap_limited [OF example_boot1_reach] example_boot1_reach
  by (simp add: example_boot1_def)

text \<open>
  Bootstrapping completes. With a limiter of at least one slot and the context not done, from
  every reachable state some sequence of steps takes every head to the end; then every token is
  back and each head's receiver has seen one error for every bootstrap peer that was not protected,
  and the number of bootstrapped heads it counted is one if the head has bootstrap peers and none
  if it has no bootstrap peers (such a head never reports that it is done).
\<close>

theorem bootstrap_completes:
  assumes "boot_reach (boot_start BsCon) s" "0 < BsCon" "\<not> bs_ctxDone s"
  shows "\<exists>s'. boot_step\<^sup>*\<^sup>* s s' \<and> bs_tokens s' = 0 \<and> length (bs_heads s') = length (bs_heads s) \<and>
    (\<forall>b \<in> set (bs_heads s'). bt_phase b = Finished \<and>
       length (fst (handleBootstrapStatus (bt_sent b))) + length (bt_protected b) = length (bt_peers b) \<and>
       snd (handleBootstrapStatus (bt_sent b)) = (if bt_peers b = [] then 0 else 1))"
proof -
  have inv: "boot_inv s" "0 < bs_cap s" using boot_reach_inv [OF assms(1)] assms(2) by auto
  obtain s' where s': "boot_step\<^sup>*\<^sup>* s s'" "\<not> bs_ctxDone s'" "\<forall>b \<in> set (bs_heads s'). bt_phase b = Finished"
    using boot_completes [OF inv(1) assms(3) inv(2)] by blast
  have "boot_inv s' \<and> length (bs_heads s') = length (bs_heads s)"
    using s'(1) inv(1) by (induction rule: rtranclp_induct) (auto simp: boot_step_heads intro: inv_intros)
  then have i: "bs_tokens s' = held s'" "\<forall>b \<in> set (bs_heads s'). boot_ok False b"
      "length (bs_heads s') = length (bs_heads s)"
    using s'(2) by (auto simp: boot_inv_def)
  have "held s' = 0" using s'(3) by (auto simp: held_def)
  moreover have "length (fst (handleBootstrapStatus (bt_sent b))) + length (bt_protected b) = length (bt_peers b) \<and>
      snd (handleBootstrapStatus (bt_sent b)) = (if bt_peers b = [] then 0 else 1)"
    if b: "b \<in> set (bs_heads s')" for b
  proof -
    have ok: "boot_ok False b" "bt_phase b = Finished" using i(2) s'(3) b by auto
    then have "filter (\<lambda>st. st_Err st \<noteq> None) (bt_sent b) = filter (\<lambda>st. \<not> st_Done st) (bt_sent b)"
      by (intro filter_cong) (auto simp: boot_ok_def)
    with ok show ?thesis by (auto simp: handleBootstrapStatus_eq boot_ok_def)
  qed
  ultimately show ?thesis using s' i by (intro exI [of _ s']) auto
qed

theorem bootstrap_completes_witness:
  "boot_reach (boot_start 1) example_boot1 \<and>
   (\<exists>s'. boot_step\<^sup>*\<^sup>* example_boot1 s' \<and> bs_tokens s' = 0 \<and> length (bs_heads s') = 2)"
proof -
  have "\<not> bs_ctxDone example_boot1" "length (bs_heads example_boot1) = 2"
    by (simp_all add: example_boot1_def example_boot_def boot_start_def)
  with bootstrap_completes [OF example_boot1_reach] example_boot1_reach show ?thesis by auto
qed

end
