(* ===== verification/Bootstrap_Status.thy ===== *)
theory Bootstrap_Status
  imports Bootstrap
begin

text \<open>
  The bootstrapping heads of theory \<open>Bootstrap\<close> together with the goroutines that read their status
  channels, one \<open>handleBootstrapStatus\<close> of \<^verbatim>\<open>src/hydra/hydra.go\<close> per head. The channels have no buffer: a
  status is sent in one step with its receipt, so the sender waits while the reader is still busy
  with the status before. A reader leaves its loop when the channel is closed, which is the last
  thing a head does.

  The rendezvous is a step of the head and of its reader at once; every other step belongs to one of
  them. The printed errors and the increments of \<open>BootstrappedHeads\<close> are kept per reader.
\<close>

section \<open>The code\<close>

datatype reader_phase =
    Receiving                        \<comment> \<open>at \<open>range ch\<close>\<close>
  | Handling bootstrap_status        \<comment> \<open>in the body of the loop\<close>
  | Ended                            \<comment> \<open>the channel was closed\<close>

record reader =
  rd_phase :: reader_phase
  rd_printed :: "go_error list"
  rd_count :: nat                    \<comment> \<open>the sum of \<open>metrics.BootstrappedHeads.M(1)\<close>\<close>

record boot_system =
  sys_boot :: boot_state
  sys_readers :: "reader list"       \<comment> \<open>by head\<close>

definition new_reader :: reader where
  "new_reader = \<lparr>rd_phase = Receiving, rd_printed = [], rd_count = 0\<rparr>"

definition reader_receive :: "bootstrap_status \<Rightarrow> reader \<Rightarrow> reader" where
  "reader_receive status r = r\<lparr>rd_phase := Handling status\<rparr>"

text \<open>The body of the loop.\<close>

definition reader_handle :: "bootstrap_status \<Rightarrow> reader \<Rightarrow> reader" where
  "reader_handle status r =
     (let r1 = (case st_Err status of None \<Rightarrow> r | Some err \<Rightarrow> r\<lparr>rd_printed := rd_printed r @ [err]\<rparr>);
          r2 = (if st_Done status then r1\<lparr>rd_count := rd_count r1 + 1\<rparr> else r1)
      in r2\<lparr>rd_phase := Receiving\<rparr>)"

definition set_reader :: "nat \<Rightarrow> reader \<Rightarrow> boot_system \<Rightarrow> boot_system" where
  "set_reader i r s = s\<lparr>sys_readers := (sys_readers s)[i := r]\<rparr>"

definition head_at :: "boot_system \<Rightarrow> nat \<Rightarrow> boot" where
  "head_at s i = bs_heads (sys_boot s) ! i"

definition reader_at :: "boot_system \<Rightarrow> nat \<Rightarrow> reader" where
  "reader_at s i = sys_readers s ! i"

inductive sys_step :: "boot_system \<Rightarrow> boot_system \<Rightarrow> bool" where
  silent: "boot_step (sys_boot s) b' \<Longrightarrow>
    \<forall>i < length (bs_heads b'). bt_sent (bs_heads b' ! i) = bt_sent (head_at s i) \<Longrightarrow>
    sys_step s (s\<lparr>sys_boot := b'\<rparr>)"
| deliver: "boot_step (sys_boot s) b' \<Longrightarrow> i < length (bs_heads b') \<Longrightarrow>
    bt_sent (bs_heads b' ! i) = bt_sent (head_at s i) @ [status] \<Longrightarrow>
    rd_phase (reader_at s i) = Receiving \<Longrightarrow>
    sys_step s ((set_reader i (reader_receive status (reader_at s i)) s)\<lparr>sys_boot := b'\<rparr>)"
| handled: "i < length (sys_readers s) \<Longrightarrow> rd_phase (reader_at s i) = Handling status \<Longrightarrow>
    sys_step s (set_reader i (reader_handle status (reader_at s i)) s)"
| closed: "i < length (sys_readers s) \<Longrightarrow> rd_phase (reader_at s i) = Receiving \<Longrightarrow>
    bt_phase (head_at s i) = Finished \<Longrightarrow>
    sys_step s (set_reader i ((reader_at s i)\<lparr>rd_phase := Ended\<rparr>) s)"

text \<open>\<open>NewHydra\<close> starts a head's goroutine in \<open>NewHead\<close>, and its reader with
  \<open>go handleBootstrapStatus\<close>.\<close>

inductive sys_reach :: "nat \<Rightarrow> boot_system \<Rightarrow> bool" for BsCon where
  init: "sys_reach BsCon \<lparr>sys_boot = boot_start BsCon, sys_readers = []\<rparr>"
| spawn: "sys_reach BsCon s \<Longrightarrow>
    sys_reach BsCon \<lparr>sys_boot = (sys_boot s)\<lparr>bs_heads := bs_heads (sys_boot s) @ [new_boot peers]\<rparr>,
      sys_readers = sys_readers s @ [new_reader]\<rparr>"
| step: "sys_reach BsCon s \<Longrightarrow> sys_step s s' \<Longrightarrow> sys_reach BsCon s'"
| cancel: "sys_reach BsCon s \<Longrightarrow> sys_reach BsCon (s\<lparr>sys_boot := (sys_boot s)\<lparr>bs_ctxDone := True\<rparr>\<rparr>)"

lemmas reader_defs = reader_receive_def reader_handle_def new_reader_def

lemma set_reader_simps [simp]:
  "sys_boot (set_reader i r s) = sys_boot s"
  "length (sys_readers (set_reader i r s)) = length (sys_readers s)"
  "head_at (set_reader i r s) j = head_at s j"
  "i < length (sys_readers s) \<Longrightarrow> reader_at (set_reader i r s) j = (if j = i then r else reader_at s j)"
  by (auto simp: set_reader_def head_at_def reader_at_def)

lemma at_boot [simp]:
  "reader_at (s\<lparr>sys_boot := b\<rparr>) i = reader_at s i"
  "head_at (s\<lparr>sys_boot := b\<rparr>) i = bs_heads b ! i"
  by (simp_all add: head_at_def reader_at_def)

section \<open>What one step of a head sends\<close>

text \<open>A step changes one head, sends at most one status, and leaves a finished head alone.\<close>

lemma boot_step_head:
  assumes "boot_step s s'"
  shows "\<exists>i < length (bs_heads s). bs_heads s' = (bs_heads s)[i := bs_heads s' ! i] \<and>
    bt_phase (bs_heads s ! i) \<in> {Acquiring, Connecting, Reporting, Releasing} \<and>
    (bt_sent (bs_heads s' ! i) = bt_sent (bs_heads s ! i) \<or>
     (\<exists>status. bt_sent (bs_heads s' ! i) = bt_sent (bs_heads s ! i) @ [status]))"
  using assms
  by cases (rule exI, rule conjI, assumption, simp add: set_head_def boot_defs)+

lemma boot_step_stays:
  assumes "boot_step s s'" "i < length (bs_heads s)"
    and "bt_phase (bs_heads s ! i) \<notin> {Acquiring, Connecting, Reporting, Releasing}"
  shows "bs_heads s' ! i = bs_heads s ! i"
proof -
  obtain j where "bs_heads s' = (bs_heads s)[j := bs_heads s' ! j]"
      "bt_phase (bs_heads s ! j) \<in> {Acquiring, Connecting, Reporting, Releasing}"
    using boot_step_head [OF assms(1)] by blast
  moreover from this(2) assms(3) have "j \<noteq> i" by metis
  ultimately show ?thesis by (metis nth_list_update_neq)
qed

lemma boot_step_cases:
  assumes "boot_step s s'"
  shows "(\<forall>i < length (bs_heads s'). bt_sent (bs_heads s' ! i) = bt_sent (bs_heads s ! i)) \<or>
    (\<exists>i status. i < length (bs_heads s') \<and> bt_sent (bs_heads s' ! i) = bt_sent (bs_heads s ! i) @ [status] \<and>
       bt_phase (bs_heads s ! i) \<noteq> Finished \<and> (\<forall>j < length (bs_heads s'). j \<noteq> i \<longrightarrow> bs_heads s' ! j = bs_heads s ! j))"
proof -
  obtain i where i: "i < length (bs_heads s)" "bs_heads s' = (bs_heads s)[i := bs_heads s' ! i]"
      "bt_phase (bs_heads s ! i) \<noteq> Finished"
      "bt_sent (bs_heads s' ! i) = bt_sent (bs_heads s ! i) \<or>
       (\<exists>status. bt_sent (bs_heads s' ! i) = bt_sent (bs_heads s ! i) @ [status])"
    using boot_step_head [OF assms] by auto
  have others: "bs_heads s' ! j = bs_heads s ! j" if "j \<noteq> i" for j
    using i(2) that by (metis nth_list_update_neq)
  have len: "length (bs_heads s') = length (bs_heads s)" using i(2) by (metis length_list_update)
  from i(4) show ?thesis
  proof
    assume "bt_sent (bs_heads s' ! i) = bt_sent (bs_heads s ! i)"
    with others show ?thesis by (metis)
  next
    assume "\<exists>status. bt_sent (bs_heads s' ! i) = bt_sent (bs_heads s ! i) @ [status]"
    with i others len show ?thesis by auto
  qed
qed

section \<open>The invariant\<close>

text \<open>A reader has handled everything its head has sent, up to a status it is busy with, and ends only
  after its head.\<close>

definition pending :: "reader \<Rightarrow> bootstrap_status list" where
  "pending r = (case rd_phase r of Handling status \<Rightarrow> [status] | _ \<Rightarrow> [])"

definition reader_ok :: "boot \<Rightarrow> reader \<Rightarrow> bool" where
  "reader_ok b r \<longleftrightarrow>
     (\<exists>sts. bt_sent b = sts @ pending r \<and> (rd_printed r, rd_count r) = handleBootstrapStatus sts) \<and>
     (rd_phase r = Ended \<longrightarrow> bt_phase b = Finished)"

definition sys_inv :: "boot_system \<Rightarrow> bool" where
  "sys_inv s \<longleftrightarrow> boot_inv (sys_boot s) \<and> length (sys_readers s) = length (bs_heads (sys_boot s)) \<and>
     (\<forall>i < length (sys_readers s). reader_ok (head_at s i) (reader_at s i))"

lemma handleBootstrapStatus_snoc:
  "handleBootstrapStatus (sts @ [status]) =
     (fst (handleBootstrapStatus sts) @ (case st_Err status of None \<Rightarrow> [] | Some e \<Rightarrow> [e]),
      snd (handleBootstrapStatus sts) + (if st_Done status then 1 else 0))"
  by (simp add: handleBootstrapStatus_eq split: option.split)

lemma new_reader_ok: "reader_ok (new_boot peers) new_reader"
  by (simp add: reader_ok_def new_boot_def new_reader_def pending_def)

lemma reader_handle_ok:
  assumes "reader_ok b r" "rd_phase r = Handling status"
  shows "reader_ok b (reader_handle status r)"
proof -
  obtain sts where "bt_sent b = sts @ [status]" "(rd_printed r, rd_count r) = handleBootstrapStatus sts"
    using assms by (auto simp: reader_ok_def pending_def)
  then show ?thesis
    by (auto simp: reader_ok_def pending_def reader_handle_def handleBootstrapStatus_snoc Let_def
        prod_eq_iff split: option.split intro!: exI [of _ "sts @ [status]"])
qed

lemma reader_receive_ok:
  assumes "reader_ok b r" "rd_phase r = Receiving" "bt_sent b' = bt_sent b @ [status]"
  shows "reader_ok b' (reader_receive status r)"
  using assms by (auto simp: reader_ok_def pending_def reader_receive_def)

lemma reader_close_ok:
  "reader_ok b r \<Longrightarrow> rd_phase r = Receiving \<Longrightarrow> bt_phase b = Finished \<Longrightarrow> reader_ok b (r\<lparr>rd_phase := Ended\<rparr>)"
  by (simp add: reader_ok_def pending_def)

lemma reader_silent_ok:
  "reader_ok b r \<Longrightarrow> bt_sent b' = bt_sent b \<Longrightarrow> (bt_phase b = Finished \<Longrightarrow> bt_phase b' = Finished) \<Longrightarrow> reader_ok b' r"
  by (auto simp: reader_ok_def)

lemma finished_stays:
  "boot_step s s' \<Longrightarrow> i < length (bs_heads s) \<Longrightarrow> bt_phase (bs_heads s ! i) = Finished \<Longrightarrow>
   bt_phase (bs_heads s' ! i) = Finished"
  using boot_step_stays by simp

lemma sys_inv_reader:
  "sys_inv s \<Longrightarrow> i < length (bs_heads (sys_boot s)) \<Longrightarrow> reader_ok (bs_heads (sys_boot s) ! i) (reader_at s i)"
  by (simp add: sys_inv_def head_at_def)

lemma sys_inv_length: "sys_inv s \<Longrightarrow> length (sys_readers s) = length (bs_heads (sys_boot s))"
  by (simp add: sys_inv_def)

lemma sys_invI:
  assumes "boot_inv (sys_boot s)" "length (sys_readers s) = length (bs_heads (sys_boot s))"
    and "\<And>i. i < length (bs_heads (sys_boot s)) \<Longrightarrow> reader_ok (bs_heads (sys_boot s) ! i) (reader_at s i)"
  shows "sys_inv s"
  using assms by (simp add: sys_inv_def head_at_def)

lemma sys_inv_set_reader:
  assumes "sys_inv s" "i < length (sys_readers s)" "reader_ok (head_at s i) r"
  shows "sys_inv (set_reader i r s)"
  using assms by (simp add: sys_inv_def)

lemma sys_step_inv [inv_intros]:
  assumes "sys_step s s'" "sys_inv s"
  shows "sys_inv s'"
  using assms(1)
proof (cases rule: sys_step.cases)
  case (silent b')
  have len: "length (bs_heads b') = length (bs_heads (sys_boot s))" using boot_step_heads [OF silent(2)] .
  have "boot_inv b'" using assms(2) boot_step_inv [OF silent(2)] by (simp add: sys_inv_def)
  moreover have "reader_ok (bs_heads b' ! i) (reader_at s i)" if "i < length (bs_heads b')" for i
  proof (rule reader_silent_ok)
    show "reader_ok (bs_heads (sys_boot s) ! i) (reader_at s i)"
      using sys_inv_reader [OF assms(2)] that len by simp
    show "bt_sent (bs_heads b' ! i) = bt_sent (bs_heads (sys_boot s) ! i)"
      using silent(3) that by (simp add: head_at_def)
    show "bt_phase (bs_heads (sys_boot s) ! i) = Finished \<Longrightarrow> bt_phase (bs_heads b' ! i) = Finished"
      using finished_stays [OF silent(2)] that len by simp
  qed
  ultimately show ?thesis
    unfolding silent(1) using sys_inv_length [OF assms(2)] len by (intro sys_invI) simp_all
next
  case (deliver b' i status)
  have len: "length (bs_heads b') = length (bs_heads (sys_boot s))" using boot_step_heads [OF deliver(2)] .
  have i: "i < length (sys_readers s)" using sys_inv_length [OF assms(2)] deliver(3) len by simp
  have others: "bs_heads b' ! j = bs_heads (sys_boot s) ! j" if "j < length (bs_heads b')" "j \<noteq> i" for j
    using boot_step_cases [OF deliver(2)] that deliver(3,4)
    by (metis head_at_def append_self_conv not_Cons_self2)
  have "reader_ok (bs_heads b' ! j) (if j = i then reader_receive status (reader_at s i) else reader_at s j)"
    if "j < length (bs_heads b')" for j
  proof (cases "j = i")
    case True
    have "reader_ok (bs_heads (sys_boot s) ! i) (reader_at s i)"
      using sys_inv_reader [OF assms(2)] deliver(3) len by simp
    with True deliver(4,5) show ?thesis using reader_receive_ok by (simp add: head_at_def)
  next
    case False
    with others that sys_inv_reader [OF assms(2), of j] len show ?thesis by simp
  qed
  moreover have "boot_inv b'" using assms(2) boot_step_inv [OF deliver(2)] by (simp add: sys_inv_def)
  ultimately show ?thesis
    unfolding deliver(1) using sys_inv_length [OF assms(2)] len i by (intro sys_invI) simp_all
next
  case (handled i status)
  then have "reader_ok (head_at s i) (reader_at s i)" using assms(2) by (simp add: sys_inv_def)
  with handled show ?thesis using sys_inv_set_reader [OF assms(2)] reader_handle_ok by simp
next
  case (closed i)
  then have "reader_ok (head_at s i) (reader_at s i)" using assms(2) by (simp add: sys_inv_def)
  with closed show ?thesis using sys_inv_set_reader [OF assms(2)] reader_close_ok by simp
qed

lemma sys_reach_inv: "sys_reach BsCon s \<Longrightarrow> sys_inv s \<and> boot_reach (boot_start BsCon) (sys_boot s)"
proof (induction rule: sys_reach.induct)
  case init
  have "boot_reach (boot_start BsCon) (boot_start BsCon)" by (rule boot_reach.init)
  with boot_reach_inv [OF this] show ?case by (simp add: sys_inv_def boot_start_def)
next
  case (spawn s peers)
  let ?b = "(sys_boot s)\<lparr>bs_heads := bs_heads (sys_boot s) @ [new_boot peers]\<rparr>"
  have b: "boot_reach (boot_start BsCon) ?b" using spawn boot_reach.spawn by blast
  have "sys_inv s" using spawn by simp
  then have "sys_inv \<lparr>sys_boot = ?b, sys_readers = sys_readers s @ [new_reader]\<rparr>"
    using boot_reach_inv [OF b] new_reader_ok sys_inv_reader
    by (auto simp: sys_inv_length reader_at_def nth_append less_Suc_eq intro!: sys_invI)
  with b show ?case by simp
next
  case (step s s')
  have "boot_reach (boot_start BsCon) (sys_boot s')"
    using step(2) step.IH by cases (auto intro: boot_reach.step)
  with step sys_step_inv show ?case by blast
next
  case (cancel s)
  let ?s = "s\<lparr>sys_boot := (sys_boot s)\<lparr>bs_ctxDone := True\<rparr>\<rparr>"
  have b: "boot_reach (boot_start BsCon) (sys_boot ?s)" using cancel boot_reach.cancel by simp
  have "sys_inv s" using cancel by simp
  then have "sys_inv ?s"
    using boot_reach_inv [OF b] sys_inv_reader by (intro sys_invI) (simp_all add: sys_inv_length)
  with b show ?case by simp
qed

section \<open>Progress\<close>

text \<open>Whatever a head can do next, the system can do, once the head's reader is done with its status.\<close>

lemma reader_settles:
  assumes "sys_inv s" "i < length (sys_readers s)" "bt_phase (head_at s i) \<noteq> Finished"
  shows "\<exists>s'. sys_step\<^sup>*\<^sup>* s s' \<and> sys_boot s' = sys_boot s \<and> rd_phase (reader_at s' i) = Receiving"
proof (cases "rd_phase (reader_at s i)")
  case Receiving
  then show ?thesis by blast
next
  case (Handling status)
  from sys_step.handled [OF assms(2) Handling] show ?thesis
    using assms(2) by (intro exI [of _ "set_reader i (reader_handle status (reader_at s i)) s"])
      (auto simp: reader_handle_def Let_def)
next
  case Ended
  with assms show ?thesis by (auto simp: sys_inv_def reader_ok_def)
qed

lemma boot_step_lifts:
  assumes "sys_inv s" "boot_step (sys_boot s) b'"
  shows "\<exists>s'. sys_step\<^sup>*\<^sup>* s s' \<and> sys_boot s' = b'"
  using boot_step_cases [OF assms(2)]
proof (elim disjE exE conjE)
  assume "\<forall>i < length (bs_heads b'). bt_sent (bs_heads b' ! i) = bt_sent (bs_heads (sys_boot s) ! i)"
  with assms(2) have "sys_step s (s\<lparr>sys_boot := b'\<rparr>)"
    by (intro sys_step.silent) (simp_all add: head_at_def)
  then show ?thesis by (intro exI [of _ "s\<lparr>sys_boot := b'\<rparr>"]) auto
next
  fix i status
  assume a: "i < length (bs_heads b')" "bt_sent (bs_heads b' ! i) = bt_sent (bs_heads (sys_boot s) ! i) @ [status]"
    "bt_phase (bs_heads (sys_boot s) ! i) \<noteq> Finished"
  have "i < length (sys_readers s)"
    using a(1) assms by (simp add: sys_inv_length boot_step_heads)
  with reader_settles [OF assms(1)] a(3) obtain s1 where s1: "sys_step\<^sup>*\<^sup>* s s1" "sys_boot s1 = sys_boot s"
      "rd_phase (reader_at s1 i) = Receiving" by (auto simp: head_at_def)
  have "sys_step s1 ((set_reader i (reader_receive status (reader_at s1 i)) s1)\<lparr>sys_boot := b'\<rparr>)"
    using a assms(2) s1 by (intro sys_step.deliver) (simp_all add: head_at_def)
  with s1(1) show ?thesis
    by (intro exI [of _ "(set_reader i (reader_receive status (reader_at s1 i)) s1)\<lparr>sys_boot := b'\<rparr>"])
      (simp add: rtranclp.rtrancl_into_rtrancl)
qed

lemma sys_steps_inv: "sys_step\<^sup>*\<^sup>* s s' \<Longrightarrow> sys_inv s \<Longrightarrow> sys_inv s'"
  by (induction rule: rtranclp_induct) (auto intro: inv_intros)

lemma boot_steps_lift:
  "boot_step\<^sup>*\<^sup>* b b' \<Longrightarrow> sys_inv s \<Longrightarrow> sys_boot s = b \<Longrightarrow> \<exists>s'. sys_step\<^sup>*\<^sup>* s s' \<and> sys_boot s' = b'"
proof (induction rule: rtranclp_induct)
  case base
  then show ?case by blast
next
  case (step b1 b2)
  then obtain s1 where s1: "sys_step\<^sup>*\<^sup>* s s1" "sys_boot s1 = b1" by blast
  have "\<exists>s2. sys_step\<^sup>*\<^sup>* s1 s2 \<and> sys_boot s2 = b2"
    using boot_step_lifts [OF sys_steps_inv [OF s1(1) step.prems(1)], of b2] step.hyps(2) s1(2) by simp
  with rtranclp_trans [OF s1(1)] show ?case by blast
qed

text \<open>When all heads are finished, the readers can end.\<close>

fun reader_left :: "reader_phase \<Rightarrow> nat" where
  "reader_left Receiving = 1"
| "reader_left (Handling status) = 2"
| "reader_left Ended = 0"

lemma readers_left_set:
  assumes "i < length (sys_readers s)" "reader_left (rd_phase r) < reader_left (rd_phase (reader_at s i))"
  shows "sum_list (map (\<lambda>r. reader_left (rd_phase r)) (sys_readers (set_reader i r s))) <
    sum_list (map (\<lambda>r. reader_left (rd_phase r)) (sys_readers s))"
  using sum_list_update_add [OF assms(1), of "\<lambda>r. reader_left (rd_phase r)" r] assms(2)
  by (simp add: set_reader_def reader_at_def)

lemma readers_end:
  "sys_inv s \<Longrightarrow> \<forall>b \<in> set (bs_heads (sys_boot s)). bt_phase b = Finished \<Longrightarrow>
   \<exists>s'. sys_step\<^sup>*\<^sup>* s s' \<and> sys_boot s' = sys_boot s \<and> (\<forall>r \<in> set (sys_readers s'). rd_phase r = Ended)"
proof (induction "sum_list (map (\<lambda>r. reader_left (rd_phase r)) (sys_readers s))" arbitrary: s rule: less_induct)
  case less
  show ?case
  proof (cases "\<forall>r \<in> set (sys_readers s). rd_phase r = Ended")
    case False
    then obtain i where i: "i < length (sys_readers s)" "rd_phase (reader_at s i) \<noteq> Ended"
      by (auto simp: in_set_conv_nth reader_at_def)
    have fin: "bt_phase (head_at s i) = Finished"
      using less.prems i(1) by (simp add: sys_inv_length head_at_def)
    obtain r where r: "sys_step s (set_reader i r s)" "reader_left (rd_phase r) < reader_left (rd_phase (reader_at s i))"
    proof (cases "rd_phase (reader_at s i)")
      case Receiving
      with sys_step.closed [OF i(1) _ fin] that [of "(reader_at s i)\<lparr>rd_phase := Ended\<rparr>"] show thesis by simp
    next
      case (Handling status)
      with sys_step.handled [OF i(1) Handling] that [of "reader_handle status (reader_at s i)"]
      show thesis by (simp add: reader_handle_def Let_def)
    qed (use i in simp)
    have "sys_inv (set_reader i r s)" using sys_step_inv [OF r(1)] less.prems(1) .
    with less.hyps [OF readers_left_set [OF i(1) r(2)]] less.prems(2) obtain s' where
      "sys_step\<^sup>*\<^sup>* (set_reader i r s) s'" "sys_boot s' = sys_boot s" "\<forall>r \<in> set (sys_readers s'). rd_phase r = Ended"
      by auto
    with r(1) show ?thesis by (meson converse_rtranclp_into_rtranclp)
  qed blast
qed

section \<open>What the readers have counted\<close>

lemma sum_list_indicator:
  "sum_list (map (\<lambda>x. if P x then 1 else 0) xs) = length (filter P xs)"
  by (induction xs) auto

text \<open>A reader that is busy with the status \<open>Done\<close>.\<close>

definition counting :: "reader \<Rightarrow> bool" where
  "counting r \<longleftrightarrow> (\<exists>status \<in> set (pending r). st_Done status)"

definition reported :: "boot \<Rightarrow> bool" where
  "reported b \<longleftrightarrow> bt_peers b \<noteq> [] \<and> bt_phase b \<in> {Releasing, Finished}"

lemma reader_count:
  assumes "reader_ok b r" "boot_ok c b"
  shows "rd_count r + (if counting r then 1 else 0) = (if reported b then 1 else 0)"
proof -
  obtain sts where sts: "bt_sent b = sts @ pending r" "rd_count r = length (filter st_Done sts)"
    using assms(1) by (auto simp: reader_ok_def handleBootstrapStatus_eq)
  have "length (filter st_Done (bt_sent b)) = (if reported b then 1 else 0)"
    using assms(2) by (simp add: boot_ok_def reported_def)
  moreover have "length (filter st_Done (pending r)) = (if counting r then 1 else 0)"
    by (auto simp: pending_def counting_def split: reader_phase.split)
  ultimately show ?thesis using sts by simp
qed

lemma readers_count:
  assumes "sys_inv s"
  shows "sum_list (map rd_count (sys_readers s)) + length (filter counting (sys_readers s)) =
    length (filter reported (bs_heads (sys_boot s)))"
proof -
  have "map (\<lambda>r. rd_count r + (if counting r then 1 else 0)) (sys_readers s) =
      map (\<lambda>b. if reported b then 1 else 0) (bs_heads (sys_boot s))"
  proof (rule nth_equalityI)
    fix i assume "i < length (map (\<lambda>r. rd_count r + (if counting r then 1 else 0)) (sys_readers s))"
    then have i: "i < length (bs_heads (sys_boot s))" "i < length (sys_readers s)"
      using assms by (simp_all add: sys_inv_length)
    have "boot_inv (sys_boot s)" using assms by (simp add: sys_inv_def)
    from reader_count [OF sys_inv_reader [OF assms i(1)] boot_ok_nth [OF this i(1)]] i
    show "map (\<lambda>r. rd_count r + (if counting r then 1 else 0)) (sys_readers s) ! i =
        map (\<lambda>b. if reported b then 1 else 0) (bs_heads (sys_boot s)) ! i"
      by (simp only: nth_map reader_at_def)
  qed (use assms in \<open>simp add: sys_inv_length\<close>)
  then have "sum_list (map (\<lambda>r. rd_count r + (if counting r then 1 else 0)) (sys_readers s)) =
      sum_list (map (\<lambda>b. if reported b then 1 else 0) (bs_heads (sys_boot s)))" by simp
  then show ?thesis by (simp add: sum_list_addf sum_list_indicator)
qed

section \<open>A run of one head\<close>

definition one_head :: "nat \<Rightarrow> bool \<Rightarrow> boot \<Rightarrow> reader \<Rightarrow> boot_system" where
  "one_head tokens ctxDone b r =
     \<lparr>sys_boot = \<lparr>bs_cap = 1, bs_tokens = tokens, bs_ctxDone = ctxDone, bs_heads = [b]\<rparr>, sys_readers = [r]\<rparr>"

lemma one_head_simps [simp]:
  "bs_heads (sys_boot (one_head t c b r)) = [b]" "bs_tokens (sys_boot (one_head t c b r)) = t"
  "bs_cap (sys_boot (one_head t c b r)) = 1" "bs_ctxDone (sys_boot (one_head t c b r)) = c"
  "sys_readers (one_head t c b r) = [r]" "head_at (one_head t c b r) 0 = b" "reader_at (one_head t c b r) 0 = r"
  by (simp_all add: one_head_def head_at_def reader_at_def)

lemma one_head_spawned: "sys_reach 1 (one_head 0 False (new_boot peers) new_reader)"
  using sys_reach.spawn [OF sys_reach.init [of 1], of peers] by (simp add: one_head_def boot_start_def)

lemma one_head_boot:
  assumes "sys_reach 1 (one_head t c b r)" "boot_step (sys_boot (one_head t c b r)) b1"
    and "b1 = \<lparr>bs_cap = 1, bs_tokens = t', bs_ctxDone = c, bs_heads = [b']\<rparr>" "bt_sent b' = bt_sent b"
  shows "sys_reach 1 (one_head t' c b' r)"
proof -
  have "sys_step (one_head t c b r) ((one_head t c b r)\<lparr>sys_boot := b1\<rparr>)"
    using assms(2-4) by (intro sys_step.silent) simp_all
  with assms(1,3) sys_reach.step show ?thesis by (auto simp: one_head_def)
qed

abbreviation run_phase :: "boot_phase \<Rightarrow> boot" where
  "run_phase ph \<equiv> (new_boot [''a''])\<lparr>bt_phase := ph, bt_waiting := {#}, bt_protected := [[7]]\<rparr>"

lemma one_head_acquired: "sys_reach 1 (one_head 1 False ((new_boot [''a''])\<lparr>bt_phase := Connecting\<rparr>) new_reader)"
  by (rule one_head_boot [OF one_head_spawned [of "[''a'']"] boot_step.acquire [of 0]])
    (simp_all add: new_boot_def boot_acquire_def set_head_def one_head_def)

lemma one_head_connected: "sys_reach 1 (one_head 1 False (run_phase Connecting) new_reader)"
  by (rule one_head_boot [OF one_head_acquired boot_step.connected [of 0 _ "''a''" "[7]"]])
    (simp_all add: new_boot_def boot_connected_def set_head_def one_head_def)

lemma one_head_reporting: "sys_reach 1 (one_head 1 False (run_phase Reporting) new_reader)"
  by (rule one_head_boot [OF one_head_connected boot_step.waited [of 0]])
    (simp_all add: new_boot_def boot_waited_def set_head_def one_head_def)

text \<open>Cancelled while it connects; and, below, reporting to its reader.\<close>

lemma one_head_gave_up: "sys_reach 1 (one_head 1 True (run_phase (Gave_up True)) new_reader)"
proof -
  have "sys_reach 1 (one_head 1 True (run_phase Connecting) new_reader)"
    using sys_reach.cancel [OF one_head_connected] by (simp add: one_head_def)
  then show ?thesis
    by (rule one_head_boot [OF _ boot_step.waited [of 0]])
      (simp_all add: new_boot_def boot_waited_def set_head_def one_head_def)
qed

lemma one_head_reported:
  "sys_reach 1 (one_head 1 False (boot_report (run_phase Reporting)) (reader_receive \<lparr>st_Done = True, st_Err = None\<rparr> new_reader))"
proof -
  let ?s = "one_head 1 False (run_phase Reporting) new_reader"
  have "boot_step (sys_boot ?s) (set_head 0 (boot_report (run_phase Reporting)) (sys_boot ?s))"
    using boot_step.report [of 0 "sys_boot ?s"] by simp
  then have "sys_step ?s ((set_reader 0 (reader_receive \<lparr>st_Done = True, st_Err = None\<rparr> new_reader) ?s)
      \<lparr>sys_boot := set_head 0 (boot_report (run_phase Reporting)) (sys_boot ?s)\<rparr>)"
    using sys_step.deliver [of ?s "set_head 0 (boot_report (run_phase Reporting)) (sys_boot ?s)" 0]
    by (simp add: set_head_def boot_report_def new_boot_def new_reader_def)
  from sys_reach.step [OF one_head_reporting this] show ?thesis
    by (simp add: one_head_def set_reader_def set_head_def)
qed

section \<open>Properties\<close>

text \<open>
  C10: the bootstrap counter is exact. In every reachable state, whatever the interleaving, the
  increments of \<open>BootstrappedHeads\<close> recorded so far, and those of readers that hold a status \<open>Done\<close>
  they have not recorded yet, are together the number of heads that have bootstrap peers and have
  been through all of them; and a reader has ended only if its head has closed the channel. Heads
  without bootstrap peers never count.
\<close>

theorem bootstrap_counter_exact:
  assumes "sys_reach BsCon s"
  shows "sum_list (map rd_count (sys_readers s)) + length (filter counting (sys_readers s)) =
      length (filter (\<lambda>b. bt_peers b \<noteq> [] \<and> bt_phase b \<in> {Releasing, Finished}) (bs_heads (sys_boot s))) \<and>
    (\<forall>i < length (sys_readers s). rd_phase (reader_at s i) = Ended \<longrightarrow> bt_phase (head_at s i) = Finished)"
proof -
  have inv: "sys_inv s" using sys_reach_inv [OF assms] by simp
  from readers_count [OF inv] have "sum_list (map rd_count (sys_readers s)) + length (filter counting (sys_readers s)) =
      length (filter (\<lambda>b. bt_peers b \<noteq> [] \<and> bt_phase b \<in> {Releasing, Finished}) (bs_heads (sys_boot s)))"
    by (simp add: reported_def cong: filter_cong)
  with inv show ?thesis by (simp add: sys_inv_def reader_ok_def)
qed

theorem bootstrap_counter_exact_witness:
  "\<exists>s. sys_reach 1 s \<and> sum_list (map rd_count (sys_readers s)) = 0 \<and> length (filter counting (sys_readers s)) = 1 \<and>
     length (filter (\<lambda>b. bt_peers b \<noteq> [] \<and> bt_phase b \<in> {Releasing, Finished}) (bs_heads (sys_boot s))) = 1"
  using bootstrap_counter_exact [OF one_head_reported] one_head_reported
  by (intro exI [of _ "one_head 1 False (boot_report (run_phase Reporting))
        (reader_receive \<lparr>st_Done = True, st_Err = None\<rparr> new_reader)"])
    (simp add: counting_def pending_def reader_receive_def new_reader_def boot_report_def new_boot_def)

text \<open>
  C11: every bootstrap ends and is counted. With a limiter of at least one slot and a context that is
  not done, from every reachable state of heads and readers some continuation ends all of them: every
  head has closed its channel, every token is back, every reader has left its loop, it has printed
  one error for each bootstrap peer of its head that was not protected, and \<open>BootstrappedHeads\<close> has
  been incremented exactly once for each head that has bootstrap peers.
\<close>

theorem bootstrap_readers_end:
  assumes "sys_reach BsCon s" "0 < BsCon" "\<not> bs_ctxDone (sys_boot s)"
  shows "\<exists>s'. sys_step\<^sup>*\<^sup>* s s' \<and> bs_tokens (sys_boot s') = 0 \<and>
    (\<forall>r \<in> set (sys_readers s'). rd_phase r = Ended) \<and>
    (\<forall>i < length (sys_readers s'). bt_phase (head_at s' i) = Finished \<and>
       length (rd_printed (reader_at s' i)) + length (bt_protected (head_at s' i)) = length (bt_peers (head_at s' i))) \<and>
    sum_list (map rd_count (sys_readers s')) = length (filter (\<lambda>b. bt_peers b \<noteq> []) (bs_heads (sys_boot s')))"
proof -
  have inv: "sys_inv s" "boot_reach (boot_start BsCon) (sys_boot s)" using sys_reach_inv [OF assms(1)] by auto
  obtain b' where b': "boot_step\<^sup>*\<^sup>* (sys_boot s) b'" "bs_tokens b' = 0"
      "\<forall>b \<in> set (bs_heads b'). bt_phase b = Finished \<and>
         length (fst (handleBootstrapStatus (bt_sent b))) + length (bt_protected b) = length (bt_peers b)"
    using bootstrap_completes [OF inv(2) assms(2,3)] by blast
  obtain s1 where s1: "sys_step\<^sup>*\<^sup>* s s1" "sys_boot s1 = b'"
    using boot_steps_lift [OF b'(1) inv(1) refl] by blast
  have "sys_inv s1" using sys_steps_inv [OF s1(1) inv(1)] .
  moreover have "\<forall>b \<in> set (bs_heads (sys_boot s1)). bt_phase b = Finished" using b'(3) s1(2) by simp
  ultimately obtain s2 where s2: "sys_step\<^sup>*\<^sup>* s1 s2" "sys_boot s2 = b'" "\<forall>r \<in> set (sys_readers s2). rd_phase r = Ended"
    using readers_end s1(2) by metis
  have inv2: "sys_inv s2" using sys_steps_inv [OF s2(1)] sys_steps_inv [OF s1(1) inv(1)] by simp
  have "filter counting (sys_readers s2) = []"
    using s2(3) by (auto simp: counting_def pending_def filter_empty_conv)
  moreover have "filter reported (bs_heads b') = filter (\<lambda>b. bt_peers b \<noteq> []) (bs_heads b')"
    using b'(3) by (intro filter_cong) (auto simp: reported_def)
  ultimately have total: "sum_list (map rd_count (sys_readers s2)) =
      length (filter (\<lambda>b. bt_peers b \<noteq> []) (bs_heads (sys_boot s2)))"
    using readers_count [OF inv2] s2(2) by simp
  have each: "bt_phase (head_at s2 i) = Finished \<and>
      length (rd_printed (reader_at s2 i)) + length (bt_protected (head_at s2 i)) = length (bt_peers (head_at s2 i))"
    if "i < length (sys_readers s2)" for i
  proof -
    have i: "i < length (bs_heads b')" using that inv2 s2(2) by (simp add: sys_inv_length)
    then have b: "head_at s2 i \<in> set (bs_heads b')" using s2(2) by (simp add: head_at_def)
    have "pending (reader_at s2 i) = []"
      using s2(3) that by (simp add: pending_def reader_at_def)
    with sys_inv_reader [OF inv2, of i] i s2(2)
    have "(rd_printed (reader_at s2 i), rd_count (reader_at s2 i)) = handleBootstrapStatus (bt_sent (head_at s2 i))"
      by (auto simp: reader_ok_def head_at_def)
    then have "rd_printed (reader_at s2 i) = fst (handleBootstrapStatus (bt_sent (head_at s2 i)))"
      by (metis fst_conv)
    with b'(3) b show ?thesis by simp
  qed
  have "sys_step\<^sup>*\<^sup>* s s2" using s1(1) s2(1) by (rule rtranclp_trans)
  with s2 b'(2) each total show ?thesis by (intro exI [of _ s2]) simp
qed

theorem bootstrap_readers_end_witness:
  "\<exists>s'. sys_step\<^sup>*\<^sup>* (one_head 1 False (run_phase Reporting) new_reader) s' \<and> bs_tokens (sys_boot s') = 0 \<and>
     (\<forall>r \<in> set (sys_readers s'). rd_phase r = Ended)"
  using bootstrap_readers_end [OF one_head_reporting] by auto

text \<open>
  C36: what a cancelled bootstrap leaves behind. When a head has given up because its context is done,
  then in every continuation its reader is still waiting on the channel (it never ends), and if the
  head held a token the limiter never gets it back: at least one of its slots stays taken.
\<close>

theorem gave_up_leaks:
  assumes "sys_reach BsCon s" "i < length (sys_readers s)" "bt_phase (head_at s i) = Gave_up token"
    and "sys_step\<^sup>*\<^sup>* s s'"
  shows "bt_phase (head_at s' i) = Gave_up token \<and> rd_phase (reader_at s' i) \<noteq> Ended \<and>
    (token \<longrightarrow> 0 < bs_tokens (sys_boot s'))"
proof -
  have inv: "sys_inv s" using sys_reach_inv [OF assms(1)] by simp
  have "sys_inv s' \<and> i < length (sys_readers s') \<and> bt_phase (head_at s' i) = Gave_up token"
    using assms(4)
  proof (induction rule: rtranclp_induct)
    case base
    then show ?case using inv assms(2,3) by simp
  next
    case (step s1 s2)
    note IH = step.IH
    then have i: "i < length (bs_heads (sys_boot s1))" "bt_phase (bs_heads (sys_boot s1) ! i) = Gave_up token"
      using sys_inv_length [of s1] by (simp_all add: head_at_def)
    have stays: "bs_heads b' ! i = bs_heads (sys_boot s1) ! i" if "boot_step (sys_boot s1) b'" for b'
      using boot_step_stays [OF that i(1)] i(2) by simp
    from step.hyps(2) have "bt_phase (head_at s2 i) = Gave_up token \<and> length (sys_readers s2) = length (sys_readers s1)"
      using step.IH stays i(2) by cases simp_all
    with step sys_step_inv show ?case by simp
  qed
  then have s': "sys_inv s'" "i < length (sys_readers s')" "bt_phase (head_at s' i) = Gave_up token" by auto
  then have i: "i < length (bs_heads (sys_boot s'))" by (simp add: sys_inv_length)
  have "rd_phase (reader_at s' i) \<noteq> Ended"
    using s' by (auto simp: sys_inv_def reader_ok_def)
  moreover have "0 < bs_tokens (sys_boot s')" if token
  proof -
    have "holds (bt_phase (bs_heads (sys_boot s') ! i)) \<le> held (sys_boot s')"
      unfolding held_def using i by (intro member_le_sum_list) auto
    with that s'(1,3) show ?thesis by (simp add: sys_inv_def boot_inv_def head_at_def)
  qed
  ultimately show ?thesis using s'(3) by simp
qed

theorem gave_up_leaks_witness:
  "let s = one_head 1 True (run_phase (Gave_up True)) new_reader in
     sys_reach 1 s \<and> (\<forall>s'. sys_step\<^sup>*\<^sup>* s s' \<longrightarrow> rd_phase (reader_at s' 0) \<noteq> Ended \<and> 0 < bs_tokens (sys_boot s'))"
  using gave_up_leaks [OF one_head_gave_up, of 0 True] one_head_gave_up by (simp add: Let_def)

end
