(* ===== verification/Head_Options.thy ===== *)
theory Head_Options
  imports Go_Strings
begin

text \<open>
  \<^verbatim>\<open>src/head/opts/options.go\<close>: the options of a head, each a function on the configuration that may
  fail, and \<open>Apply\<close>, which runs a list of them in order.

  Objects the package only passes around (datastore, peer store, HTTP client, routing table,
  limiter channel, private key, finder) are values of a type \<open>'h\<close>, \<open>None\<close> for nil; provider store
  builders are values of a type \<open>'b\<close>. Multiaddresses are their strings.
\<close>

section \<open>The configuration\<close>

record ('h, 'b) head_options =
  ho_Datastore :: "'h option"
  ho_Peerstore :: "'h option"
  ho_ProviderStoreBuilder :: "'b option"
  ho_DelegateHTTPClient :: "'h option"
  ho_RoutingTable :: "'h option"
  ho_EnableRelay :: bool
  ho_Addrs :: "string list"
  ho_ProtocolPrefix :: string
  ho_BucketSize :: int
  ho_Limiter :: "'h option"
  ho_BootstrapPeers :: "string list"
  ho_ID :: "'h option"
  ho_DisableProvGC :: bool
  ho_DisableProvCounts :: bool
  ho_DisableProviders :: bool
  ho_DisableValues :: bool
  ho_ProvidersFinder :: "'h option"
  ho_DisableResourceManager :: bool
  ho_ResourceManagerLimitsFile :: string
  ho_ConnMgrHighWater :: int
  ho_ConnMgrLowWater :: int
  ho_ConnMgrGracePeriod :: int

definition zero_options :: "('h, 'b) head_options" where
  "zero_options =
     \<lparr>ho_Datastore = None, ho_Peerstore = None, ho_ProviderStoreBuilder = None,
      ho_DelegateHTTPClient = None, ho_RoutingTable = None, ho_EnableRelay = False, ho_Addrs = [],
      ho_ProtocolPrefix = '''', ho_BucketSize = 0, ho_Limiter = None, ho_BootstrapPeers = [],
      ho_ID = None, ho_DisableProvGC = False, ho_DisableProvCounts = False,
      ho_DisableProviders = False, ho_DisableValues = False, ho_ProvidersFinder = None,
      ho_DisableResourceManager = False, ho_ResourceManagerLimitsFile = '''',
      ho_ConnMgrHighWater = 0, ho_ConnMgrLowWater = 0, ho_ConnMgrGracePeriod = 0\<rparr>"

type_synonym ('h, 'b) head_option =
  "('h, 'b) head_options \<Rightarrow> ('h, 'b) head_options \<times> go_error option"

section \<open>Applying options\<close>

definition option_error :: "nat \<Rightarrow> go_error \<Rightarrow> go_error" where
  "option_error i err = Wrapf (''hydra node option '' @ Itoa (int i) @ '' failed: '') err"

fun apply_from :: "nat \<Rightarrow> ('o \<Rightarrow> 'o \<times> go_error option) list \<Rightarrow> 'o \<Rightarrow> 'o \<times> go_error option" where
  "apply_from i [] o1 = (o1, None)"
| "apply_from i (opt # opts) o1 =
     (case opt o1 of
        (o2, Some err) \<Rightarrow> (o2, Some (option_error i err))
      | (o2, None) \<Rightarrow> apply_from (Suc i) opts o2)"

definition Options_Apply ::
    "('h, 'b) head_option list \<Rightarrow> ('h, 'b) head_options \<Rightarrow> ('h, 'b) head_options \<times> go_error option" where
  "Options_Apply opts o1 = apply_from 0 opts o1"

section \<open>The options\<close>

text \<open>Values of the libraries: the default datastore, protocol prefix and bootstrap peers of the DHT.\<close>

record 'h dht_defaults =
  dd_MapDatastore :: 'h
  dd_DefaultPrefix :: string
  dd_DefaultBootstrapPeers :: "string list"

definition Defaults :: "'h dht_defaults \<Rightarrow> ('h, 'b) head_option" where
  "Defaults dd o1 =
     (o1\<lparr>ho_Datastore := Some (dd_MapDatastore dd),
        ho_Addrs := [''/ip4/0.0.0.0/tcp/0'', ''/ip4/0.0.0.0/udp/0/quic''],
        ho_ProtocolPrefix := dd_DefaultPrefix dd, ho_BucketSize := 20,
        ho_BootstrapPeers := dd_DefaultBootstrapPeers dd,
        ho_ConnMgrHighWater := 1800, ho_ConnMgrLowWater := 1200,
        ho_ConnMgrGracePeriod := 60 * 1000000000\<rparr>, None)"

definition Datastore :: "'h option \<Rightarrow> ('h, 'b) head_option" where
  "Datastore ds o1 = (o1\<lparr>ho_Datastore := ds\<rparr>, None)"

definition Peerstore :: "'h option \<Rightarrow> ('h, 'b) head_option" where
  "Peerstore ps o1 = (o1\<lparr>ho_Peerstore := ps\<rparr>, None)"

definition ProviderStoreBuilder :: "'b option \<Rightarrow> ('h, 'b) head_option" where
  "ProviderStoreBuilder builder o1 = (o1\<lparr>ho_ProviderStoreBuilder := builder\<rparr>, None)"

definition DelegateHTTPClient :: "'h option \<Rightarrow> ('h, 'b) head_option" where
  "DelegateHTTPClient c o1 = (o1\<lparr>ho_DelegateHTTPClient := c\<rparr>, None)"

definition RoutingTable :: "'h option \<Rightarrow> ('h, 'b) head_option" where
  "RoutingTable rt o1 = (o1\<lparr>ho_RoutingTable := rt\<rparr>, None)"

definition EnableRelay :: "('h, 'b) head_option" where
  "EnableRelay o1 = (o1\<lparr>ho_EnableRelay := True\<rparr>, None)"

definition Addrs :: "string list \<Rightarrow> ('h, 'b) head_option" where
  "Addrs addrs o1 = (o1\<lparr>ho_Addrs := addrs\<rparr>, None)"

definition ProtocolPrefix :: "string \<Rightarrow> ('h, 'b) head_option" where
  "ProtocolPrefix pfx o1 = (if pfx \<noteq> '''' then o1\<lparr>ho_ProtocolPrefix := pfx\<rparr> else o1, None)"

definition BucketSize :: "int \<Rightarrow> ('h, 'b) head_option" where
  "BucketSize bucketSize o1 =
     (if bucketSize \<noteq> 0 then o1\<lparr>ho_BucketSize := bucketSize\<rparr> else o1, None)"

definition Limiter :: "'h option \<Rightarrow> ('h, 'b) head_option" where
  "Limiter l o1 = (o1\<lparr>ho_Limiter := l\<rparr>, None)"

definition BootstrapPeers :: "string list \<Rightarrow> ('h, 'b) head_option" where
  "BootstrapPeers addrs o1 =
     (if 0 < length addrs then o1\<lparr>ho_BootstrapPeers := addrs\<rparr> else o1, None)"

definition ID :: "'h option \<Rightarrow> ('h, 'b) head_option" where
  "ID key o1 = (if key \<noteq> None then o1\<lparr>ho_ID := key\<rparr> else o1, None)"

definition DisableProvGC :: "('h, 'b) head_option" where
  "DisableProvGC o1 = (o1\<lparr>ho_DisableProvGC := True\<rparr>, None)"

definition DisableProviders :: "('h, 'b) head_option" where
  "DisableProviders o1 = (o1\<lparr>ho_DisableProviders := True\<rparr>, None)"

definition DisableValues :: "('h, 'b) head_option" where
  "DisableValues o1 = (o1\<lparr>ho_DisableValues := True\<rparr>, None)"

definition DisableProvCounts :: "('h, 'b) head_option" where
  "DisableProvCounts o1 = (o1\<lparr>ho_DisableProvCounts := True\<rparr>, None)"

definition ProvidersFinder_opt :: "'h option \<Rightarrow> ('h, 'b) head_option" where
  "ProvidersFinder_opt f o1 = (o1\<lparr>ho_ProvidersFinder := f\<rparr>, None)"

definition DisableResourceManager :: "bool \<Rightarrow> ('h, 'b) head_option" where
  "DisableResourceManager b o1 = (o1\<lparr>ho_DisableResourceManager := b\<rparr>, None)"

definition ResourceManagerLimitsFile :: "string \<Rightarrow> ('h, 'b) head_option" where
  "ResourceManagerLimitsFile f o1 = (o1\<lparr>ho_ResourceManagerLimitsFile := f\<rparr>, None)"

definition ConnMgrHighWater :: "int \<Rightarrow> ('h, 'b) head_option" where
  "ConnMgrHighWater n o1 = (o1\<lparr>ho_ConnMgrHighWater := n\<rparr>, None)"

definition ConnMgrLowWater :: "int \<Rightarrow> ('h, 'b) head_option" where
  "ConnMgrLowWater n o1 = (o1\<lparr>ho_ConnMgrLowWater := n\<rparr>, None)"

definition ConnMgrGracePeriod :: "int \<Rightarrow> ('h, 'b) head_option" where
  "ConnMgrGracePeriod n o1 = (o1\<lparr>ho_ConnMgrGracePeriod := n\<rparr>, None)"

lemmas head_option_defs = Defaults_def Datastore_def Peerstore_def ProviderStoreBuilder_def
  DelegateHTTPClient_def RoutingTable_def EnableRelay_def Addrs_def ProtocolPrefix_def
  BucketSize_def Limiter_def BootstrapPeers_def ID_def DisableProvGC_def DisableProviders_def
  DisableValues_def DisableProvCounts_def ProvidersFinder_opt_def DisableResourceManager_def
  ResourceManagerLimitsFile_def ConnMgrHighWater_def ConnMgrLowWater_def ConnMgrGracePeriod_def

text \<open>The options that set their field whatever its value.\<close>

lemmas plain_option_defs = Defaults_def Datastore_def Peerstore_def ProviderStoreBuilder_def
  DelegateHTTPClient_def Addrs_def Limiter_def DisableResourceManager_def
  ResourceManagerLimitsFile_def ConnMgrHighWater_def ConnMgrLowWater_def ConnMgrGracePeriod_def

section \<open>Facts\<close>

lemma apply_from_append:
  "apply_from i (xs @ ys) o1 =
     (case apply_from i xs o1 of
        (o2, None) \<Rightarrow> apply_from (i + length xs) ys o2
      | r \<Rightarrow> r)"
  by (induction xs arbitrary: i o1) (auto split: prod.split option.split)

lemma apply_from_ok:
  assumes "\<forall>opt \<in> set opts. \<forall>o1. snd (opt o1) = None"
  shows "apply_from i opts o1 = (fold (\<lambda>opt o1. fst (opt o1)) opts o1, None)"
  using assms
proof (induction opts arbitrary: i o1)
  case (Cons opt opts)
  then show ?case by (cases "opt o1") (metis (mono_tags) apply_from.simps(2) fold_simps(2) fst_conv
        list.set_intros option.case(1) prod.case snd_conv)
qed simp

section \<open>Properties\<close>

text \<open>
  \<open>Apply\<close> stops at the first option that fails: the options before it have taken effect and so
  has what the failing option did, the options after it are not run, and the error names the
  position of the failing option. If none fails, all take effect in order and the result is nil.
\<close>

theorem Options_Apply_first_failure:
  assumes "\<forall>opt \<in> set good. \<forall>o1. snd (opt o1) = None"
  shows "Options_Apply good o1 = (fold (\<lambda>opt o1. fst (opt o1)) good o1, None) \<and>
    (bad (fold (\<lambda>opt o1. fst (opt o1)) good o1) = (o2, Some err) \<longrightarrow>
       Options_Apply (good @ bad # rest) o1 = (o2, Some (option_error (length good) err)))"
  using apply_from_ok [OF assms, of 0 o1] by (simp add: Options_Apply_def apply_from_append)

theorem Options_Apply_first_failure_witness:
  "Options_Apply [BucketSize 7, (\<lambda>o1. (o1\<lparr>ho_EnableRelay := True\<rparr>, Some TypedNil)), BucketSize 9]
     (zero_options :: (nat, nat) head_options) =
   (zero_options\<lparr>ho_BucketSize := 7, ho_EnableRelay := True\<rparr>, Some (option_error 1 TypedNil))"
  using Options_Apply_first_failure [of "[BucketSize 7]" "zero_options :: (nat, nat) head_options"
      "\<lambda>o1. (o1\<lparr>ho_EnableRelay := True\<rparr>, Some TypedNil)"
      "zero_options\<lparr>ho_BucketSize := 7, ho_EnableRelay := True\<rparr>" TypedNil "[BucketSize 9]"]
  by (simp add: BucketSize_def)

end
