(* ===== verification/Head.thy ===== *)
theory Head
  imports Head_Options
begin

text \<open>
  \<^verbatim>\<open>src/head/head.go\<close> (and \<open>CreateRcmgrMetrics\<close> of \<^verbatim>\<open>src/metrics/rcmgr.go\<close>): how one head is
  assembled.

  libp2p, the DHT, the resource manager, the connection manager, the file system and the default
  provider manager are the parameter \<open>head_env\<close>: constructors on a world \<open>'w\<close> that return an opaque
  object or an error. Options passed to libp2p and to the DHT are data (\<open>libp2p_option\<close>,
  \<open>dht_option\<close>), so what a head is configured with can be read off. The context is its name tag.
  The bootstrap goroutine that \<open>NewHead\<close> starts is the subject of theory \<open>Bootstrap\<close>.
\<close>

section \<open>The libraries\<close>

datatype 'h libp2p_option =
    L_UserAgent string
  | L_ListenAddrs "string list"
  | L_ConnectionManager 'h
  | L_Identity "'h option"
  | L_EnableNATService
  | L_AutoNATServiceRateLimit int int int
  | L_DefaultMuxers
  | L_TransportQUIC
  | L_TransportTCP
  | L_SecurityTLS
  | L_SecurityNoise
  | L_ResourceManager 'h
  | L_Peerstore 'h
  | L_EnableRelay

text \<open>A provider store as the DHT gets it: the built store, or a cache in front of it whose router
  is set to the DHT afterwards.\<close>

datatype 'h head_store = Plain_Store 'h | Caching_Store_of 'h 'h

datatype 'h dht_option =
    D_ModeServer
  | D_ProtocolPrefix string
  | D_BucketSize int
  | D_Datastore "'h option"
  | D_PublicQueryFilter
  | D_PublicRoutingTableFilter
  | D_DisableValues
  | D_Validator 'h                       \<comment> \<open>the validators for \<open>pk\<close> and \<open>ipns\<close>, with the host's keys\<close>
  | D_DisableProviders
  | D_ProviderStore "'h head_store"

datatype pm_option = CleanupInterval int | ProviderCache

record rcmgr_limits =
  rl_ConnsOutbound :: int
  rl_ConnsInbound :: int
  rl_Conns :: int
  rl_inc_Conns :: int
  rl_inc_ConnsInbound :: int
  rl_inc_ConnsOutbound :: int

record ('w, 'h, 'b) head_env =
  hv_NewConnManager :: "int \<Rightarrow> int \<Rightarrow> int \<Rightarrow> 'h outcome"
  hv_InfiniteLimiter :: 'h
  hv_OpenLimits :: "string \<Rightarrow> 'w \<Rightarrow> 'h outcome"                 \<comment> \<open>\<open>os.Open\<close>\<close>
  hv_LimiterFromJSON :: "'h \<Rightarrow> 'h outcome"
  hv_DefaultLimits :: rcmgr_limits
  hv_AutoScaleLimiter :: "rcmgr_limits \<Rightarrow> 'h"                   \<comment> \<open>with the service limits added\<close>
  hv_NewResourceManager :: "'h \<Rightarrow> string \<Rightarrow> 'h outcome"
  hv_NewHost :: "'h libp2p_option list \<Rightarrow> 'w \<Rightarrow> 'w \<times> 'h outcome"
  hv_BuildStore :: "'b \<Rightarrow> ('h, 'b) head_options \<Rightarrow> 'h \<Rightarrow> 'w \<Rightarrow> 'w \<times> 'h outcome"
  hv_NewLRU :: "int \<Rightarrow> int \<Rightarrow> 'h outcome"
  hv_NewProviderManager :: "'h \<Rightarrow> 'h option \<Rightarrow> pm_option list \<Rightarrow> 'w \<Rightarrow> 'w \<times> 'h outcome"
  hv_RunProviderRecordsTask :: "'h option \<Rightarrow> 'h \<Rightarrow> int \<Rightarrow> 'w \<Rightarrow> 'w"
  hv_NewDHT :: "'h \<Rightarrow> 'h dht_option list \<Rightarrow> 'w \<Rightarrow> 'w \<times> 'h outcome"
  hv_SetRouter :: "'h head_store \<Rightarrow> 'h \<Rightarrow> 'w \<Rightarrow> 'w"
  hv_Bootstrap :: "'h \<Rightarrow> 'w \<Rightarrow> 'w"
  hv_UserAgent :: string                                        \<comment> \<open>\<open>version.UserAgent\<close>\<close>
  hv_defaults :: "'h dht_defaults"

section \<open>The resource manager\<close>

text \<open>\<open>metrics.CreateRcmgrMetrics\<close>: the reporter is its name.\<close>

definition CreateRcmgrMetrics :: "string option \<Rightarrow> string outcome" where
  "CreateRcmgrMetrics ctx =
     (case ctx of None \<Rightarrow> Error (Errorf ''context must contain a 'name' key'') | Some name \<Rightarrow> Ok name)"

definition head_limits :: "rcmgr_limits \<Rightarrow> rcmgr_limits" where
  "head_limits limits =
     limits\<lparr>rl_ConnsOutbound := 128, rl_ConnsInbound := 128, rl_Conns := 256,
       rl_inc_Conns := 1024, rl_inc_ConnsInbound := 1024, rl_inc_ConnsOutbound := 1024\<rparr>"

definition rcmgr_limiter ::
    "('w, 'h, 'b) head_env \<Rightarrow> bool \<Rightarrow> string \<Rightarrow> 'w \<Rightarrow> 'h outcome" where
  "rcmgr_limiter env disableRM limitsFile w =
     (if disableRM then Ok (hv_InfiniteLimiter env)
      else if limitsFile \<noteq> ''''
      then (case hv_OpenLimits env limitsFile w of
              Error e \<Rightarrow> Error (Wrapf ''opening Resource Manager limits file: '' e)
            | Panic p \<Rightarrow> Panic p
            | Ok f \<Rightarrow>
                (case hv_LimiterFromJSON env f of
                   Error e \<Rightarrow> Error (Wrapf ''creating Resource Manager limiter: '' e)
                 | r \<Rightarrow> r))
      else Ok (hv_AutoScaleLimiter env (head_limits (hv_DefaultLimits env))))"

definition buildRcmgr ::
    "('w, 'h, 'b) head_env \<Rightarrow> string option \<Rightarrow> bool \<Rightarrow> string \<Rightarrow> 'w \<Rightarrow> 'h outcome" where
  "buildRcmgr env ctx disableRM limitsFile w =
     (case rcmgr_limiter env disableRM limitsFile w of
        Error e \<Rightarrow> Error e
      | Panic p \<Rightarrow> Panic p
      | Ok limiter \<Rightarrow>
          (case CreateRcmgrMetrics ctx of
             Error e \<Rightarrow> Error (Wrapf ''creating Resource Manager metrics: '' e)
           | Panic p \<Rightarrow> Panic p
           | Ok rcmgrMetrics \<Rightarrow>
               (case hv_NewResourceManager env limiter rcmgrMetrics of
                  Error e \<Rightarrow> Error (Wrapf ''constructing resource manager: '' e)
                | r \<Rightarrow> r)))"

section \<open>Assembling a head\<close>

definition provDisabledGCInterval :: int where
  "provDisabledGCInterval = 3600000000000 * 24 * 365 * 100"

definition newDefaultProviderStore ::
    "('w, 'h, 'b) head_env \<Rightarrow> ('h, 'b) head_options \<Rightarrow> 'h \<Rightarrow> 'w \<Rightarrow> 'w \<times> 'h outcome" where
  "newDefaultProviderStore env options h w =
     (if ho_DisableProvGC options
      then (case hv_NewLRU env 256 3600000000000 of
              Error e \<Rightarrow> (w, Error e)
            | Panic p \<Rightarrow> (w, Panic p)
            | Ok cache \<Rightarrow> hv_NewProviderManager env h (ho_Datastore options)
                [CleanupInterval provDisabledGCInterval, ProviderCache] w)
      else hv_NewProviderManager env h (ho_Datastore options) [] w)"

definition head_libp2p_options ::
    "('w, 'h, 'b) head_env \<Rightarrow> ('h, 'b) head_options \<Rightarrow> 'h \<Rightarrow> 'h \<Rightarrow> 'h libp2p_option list" where
  "head_libp2p_options env cfg cmgr rm =
     [L_UserAgent (hv_UserAgent env), L_ListenAddrs (ho_Addrs cfg), L_ConnectionManager cmgr,
      L_Identity (ho_ID cfg), L_EnableNATService, L_AutoNATServiceRateLimit 0 3 60000000000,
      L_DefaultMuxers, L_TransportQUIC, L_TransportTCP, L_SecurityTLS, L_SecurityNoise,
      L_ResourceManager rm] @
     (case ho_Peerstore cfg of None \<Rightarrow> [] | Some ps \<Rightarrow> [L_Peerstore ps]) @
     (if ho_EnableRelay cfg then [L_EnableRelay] else [])"

definition head_dht_options :: "('h, 'b) head_options \<Rightarrow> 'h \<Rightarrow> 'h dht_option list" where
  "head_dht_options cfg node =
     [D_ModeServer, D_ProtocolPrefix (ho_ProtocolPrefix cfg), D_BucketSize (ho_BucketSize cfg),
      D_Datastore (ho_Datastore cfg), D_PublicQueryFilter, D_PublicRoutingTableFilter] @
     (if ho_DisableValues cfg then [D_DisableValues] else [D_Validator node]) @
     (if ho_DisableProviders cfg then [D_DisableProviders] else [])"

record ('h, 'b) head =
  hd_Host :: 'h
  hd_Datastore :: "'h option"
  hd_Routing :: 'h
  hd_cfg :: "('h, 'b) head_options"      \<comment> \<open>the configuration the bootstrap goroutine keeps\<close>

definition head_provider_store ::
    "('w, 'h, 'b) head_env \<Rightarrow> ('h, 'b) head_options \<Rightarrow> 'h \<Rightarrow> 'w \<Rightarrow> 'w \<times> 'h outcome" where
  "head_provider_store env cfg node w =
     (case ho_ProviderStoreBuilder cfg of
        None \<Rightarrow> newDefaultProviderStore env cfg node w
      | Some b \<Rightarrow> hv_BuildStore env b cfg node w)"

text \<open>From the provider store on: the record counting task, the cache, the DHT.\<close>

definition head_start_dht ::
    "('w, 'h, 'b) head_env \<Rightarrow> ('h, 'b) head_options \<Rightarrow> 'h \<Rightarrow> 'h \<Rightarrow> 'w \<Rightarrow> 'w \<times> ('h, 'b) head outcome" where
  "head_start_dht env cfg node providerStore w =
     (let w1 = (if \<not> ho_DisableProvCounts cfg
                then hv_RunProviderRecordsTask env (ho_Datastore cfg) providerStore (5 * 60000000000) w
                else w);
          store = (case ho_ProvidersFinder cfg of
                     None \<Rightarrow> Plain_Store providerStore
                   | Some finder \<Rightarrow> Caching_Store_of providerStore finder)
      in case hv_NewDHT env node (head_dht_options cfg node @ [D_ProviderStore store]) w1 of
           (w2, Error e) \<Rightarrow> (w2, Error (Wrapf ''failed to instantiate DHT: '' e))
         | (w2, Panic p) \<Rightarrow> (w2, Panic p)
         | (w2, Ok dhtNode) \<Rightarrow>
             (let w3 = (if ho_ProvidersFinder cfg \<noteq> None then hv_SetRouter env store dhtNode w2 else w2);
                  w4 = hv_Bootstrap env dhtNode w3
              in (w4, Ok \<lparr>hd_Host = node, hd_Datastore = ho_Datastore cfg, hd_Routing = dhtNode,
                          hd_cfg = cfg\<rparr>)))"

definition head_start_host ::
    "('w, 'h, 'b) head_env \<Rightarrow> ('h, 'b) head_options \<Rightarrow> 'h \<Rightarrow> 'h \<Rightarrow> 'w \<Rightarrow> 'w \<times> ('h, 'b) head outcome" where
  "head_start_host env cfg cmgr rm w =
     (case hv_NewHost env (head_libp2p_options env cfg cmgr rm) w of
        (w1, Error e) \<Rightarrow> (w1, Error (Wrapf ''failed to spawn libp2p node: '' e))
      | (w1, Panic p) \<Rightarrow> (w1, Panic p)
      | (w1, Ok node) \<Rightarrow>
          (case head_provider_store env cfg node w1 of
             (w2, Error e) \<Rightarrow> (w2, Error e)
           | (w2, Panic p) \<Rightarrow> (w2, Panic p)
           | (w2, Ok providerStore) \<Rightarrow> head_start_dht env cfg node providerStore w2))"

text \<open>\<open>NewHead\<close> ignores the error of \<open>Apply\<close>.\<close>

definition head_config ::
    "('w, 'h, 'b) head_env \<Rightarrow> ('h, 'b) head_option list \<Rightarrow> ('h, 'b) head_options" where
  "head_config env options = fst (Options_Apply (Defaults (hv_defaults env) # options) zero_options)"

definition NewHead ::
    "('w, 'h, 'b) head_env \<Rightarrow> string option \<Rightarrow> ('h, 'b) head_option list \<Rightarrow> 'w \<Rightarrow>
     'w \<times> ('h, 'b) head outcome" where
  "NewHead env ctx options w =
     (let cfg = head_config env options
      in case hv_NewConnManager env (ho_ConnMgrLowWater cfg) (ho_ConnMgrHighWater cfg)
                (ho_ConnMgrGracePeriod cfg) of
           Error e \<Rightarrow> (w, Error (Wrapf ''building connmgr: '' e))
         | Panic p \<Rightarrow> (w, Panic p)
         | Ok cmgr \<Rightarrow>
             (case buildRcmgr env ctx (ho_DisableResourceManager cfg)
                     (ho_ResourceManagerLimitsFile cfg) w of
                Error e \<Rightarrow> (w, Error e)
              | Panic p \<Rightarrow> (w, Panic p)
              | Ok rm \<Rightarrow> head_start_host env cfg cmgr rm w))"

section \<open>Facts\<close>

lemma buildRcmgr_no_name: "\<not> is_Ok (buildRcmgr env None disableRM limitsFile w)"
  by (simp add: buildRcmgr_def CreateRcmgrMetrics_def split: outcome.split)

lemma NewHead_no_name: "\<not> is_Ok (snd (NewHead env None options w)) \<and> fst (NewHead env None options w) = w"
proof -
  let ?cfg = "head_config env options"
  have "\<not> is_Ok (buildRcmgr env None (ho_DisableResourceManager ?cfg) (ho_ResourceManagerLimitsFile ?cfg) w)"
    by (rule buildRcmgr_no_name)
  then show ?thesis by (auto simp: NewHead_def Let_def split: outcome.split)
qed

text \<open>A head that was made keeps the configuration its options give.\<close>

lemma head_start_dht_cfg:
  "head_start_dht env cfg node ps w = (w', Ok h) \<Longrightarrow> hd_cfg h = cfg \<and> hd_Host h = node"
  by (auto simp: head_start_dht_def Let_def split: prod.splits outcome.splits)

lemma head_start_host_cfg:
  "head_start_host env cfg cmgr rm w = (w', Ok h) \<Longrightarrow>
   hd_cfg h = cfg \<and> (\<exists>w1. hv_NewHost env (head_libp2p_options env cfg cmgr rm) w = (w1, Ok (hd_Host h)))"
  by (auto simp: head_start_host_def split: prod.splits outcome.splits dest!: head_start_dht_cfg)

lemma NewHead_cfg:
  assumes "NewHead env ctx options w = (w', Ok h)"
  shows "hd_cfg h = head_config env options"
  using assms head_start_host_cfg
  by (fastforce simp: NewHead_def Let_def split: outcome.splits)

end
