(* ===== verification/Measures.thy ===== *)
theory Measures
  imports Hydra_Prelude
begin

text \<open>
  The tag keys and measures of \<^verbatim>\<open>src/metrics/definitions.go\<close>, by their names, descriptions and units, as
  they are declared with \<^verbatim>\<open>tag.NewKey\<close>, \<^verbatim>\<open>stats.Int64\<close> and \<^verbatim>\<open>stats.Float64\<close> of OpenCensus. A key is its name.
\<close>

datatype measure_unit = UnitDimensionless | UnitMilliseconds

datatype measure =
    Int64 (ms_Name: string) (ms_Description: string) (ms_Unit: measure_unit)
  | Float64 (ms_Name: string) (ms_Description: string) (ms_Unit: measure_unit)

section \<open>Keys\<close>

definition KeyName :: string where "KeyName = ''name''"
definition KeyPeerID :: string where "KeyPeerID = ''peer_id''"
definition KeyStatus :: string where "KeyStatus = ''status''"
definition KeyHTTPCode :: string where "KeyHTTPCode = ''http_code''"
definition KeyOperation :: string where "KeyOperation = ''operation''"
definition KeyErrorCode :: string where "KeyErrorCode = ''err_code''"
definition KeyDirection :: string where "KeyDirection = ''direction''"
definition KeyUsesFD :: string where "KeyUsesFD = ''uses_fd''"
definition KeyProtocol :: string where "KeyProtocol = ''protocol''"
definition KeyService :: string where "KeyService = ''service''"

lemmas key_defs [simp] =
  KeyName_def KeyPeerID_def KeyStatus_def KeyHTTPCode_def KeyOperation_def
  KeyErrorCode_def KeyDirection_def KeyUsesFD_def KeyProtocol_def KeyService_def

section \<open>Measures\<close>

definition Heads :: measure where
  "Heads = Int64 ''heads''
     ''Heads launched by Hydra'' UnitDimensionless"

definition BootstrappedHeads :: measure where
  "BootstrappedHeads = Int64 ''bootstrapped_heads''
     ''Bootstrapped heads'' UnitDimensionless"

definition ConnectedPeers :: measure where
  "ConnectedPeers = Int64 ''connected_peers''
     ''Peers connected to all heads'' UnitDimensionless"

definition UniquePeers :: measure where
  "UniquePeers = Int64 ''unique_peers_total''
     ''Total unique peers seen across all heads'' UnitDimensionless"

definition RoutingTableSize :: measure where
  "RoutingTableSize = Int64 ''routing_table_size''
     ''Number of peers in the routing table'' UnitDimensionless"

definition IPNSRecords :: measure where
  "IPNSRecords = Int64 ''ipns_records''
     ''Number of IPNS records in the IPNS datastore'' UnitDimensionless"

definition ProviderRecords :: measure where
  "ProviderRecords = Int64 ''provider_records''
     ''Number of provider records in the datastore shared by all heads'' UnitDimensionless"

definition ProviderRecordsPerKey :: measure where
  "ProviderRecordsPerKey = Int64 ''provider_records_per_key''
     ''Number of provider records returned per key'' UnitDimensionless"

definition Prefetches :: measure where
  "Prefetches = Int64 ''prov_prefetches''
     (''Total find provider prefetch attempts that were found locally, or not found locally and '' @
     ''succeeded, failed or were discarded'') UnitDimensionless"

definition PrefetchDuration :: measure where
  "PrefetchDuration = Float64 ''prov_prefetch_duration''
     (''The time it took  provider prefetching attempts from the network to succeed or fail '' @
     ''because of timeout or completion'') UnitMilliseconds"

definition PrefetchNegativeCacheHits :: measure where
  "PrefetchNegativeCacheHits = Int64 ''prov_prefetch_neg_cache_hits''
     (''Total provider prefetch negative cache hits (lookups skipped due to previous recent '' @
     ''failed lookups)'') UnitDimensionless"

definition PrefetchNegativeCacheSize :: measure where
  "PrefetchNegativeCacheSize = Int64 ''prov_prefetch_neg_cache_size''
     ''Total size of the provider prefetch negative cache'' UnitDimensionless"

definition PrefetchNegativeCacheTTLSeconds :: measure where
  "PrefetchNegativeCacheTTLSeconds = Int64 ''prov_prefetch_neg_cache_ttl''
     ''The TTL duration for negative cache entries'' UnitDimensionless"

definition PrefetchFailedToCache :: measure where
  "PrefetchFailedToCache = Int64 ''prov_prefetch_failed_to_cache''
     ''Number of times the provider prefetcher failed to cache a result'' UnitDimensionless"

definition PrefetchesPending :: measure where
  "PrefetchesPending = Int64 ''prov_prefetch_pending''
     ''Total number of async provider prefetches pending (queued or in progress)'' UnitDimensionless"

definition PrefetchesPendingLimit :: measure where
  "PrefetchesPendingLimit = Int64 ''prov_prefetch_pending_limit''
     ''The limit of the number of pending prefetches'' UnitDimensionless"

definition DelegatedFindProvs :: measure where
  "DelegatedFindProvs = Int64 ''delegated_find_provs_total''
     (''Total delegated find provider attempts that were found locally, or not found locally and'' @
     '' succeeded, failed or were discarded'') UnitDimensionless"

definition DelegatedFindProvsDuration :: measure where
  "DelegatedFindProvsDuration = Float64 ''delegated_find_provs_duration''
     (''The time it took delegated find provider attempts from the network to succeed or fail '' @
     ''because of timeout or completion'') UnitMilliseconds"

definition STIFindProvs :: measure where
  "STIFindProvs = Int64 ''sti_find_provs_total''
     (''Total store the index find provider attempts that were found locally, or not found '' @
     ''locally and succeeded, failed or were discarded'') UnitDimensionless"

definition STIFindProvsDuration :: measure where
  "STIFindProvsDuration = Float64 ''sti_find_provs_duration''
     (''The time it took storetheindex finds from the network to succeed or fail because of '' @
     ''timeout or completion'') UnitMilliseconds"

definition STIFindProvsLength :: measure where
  "STIFindProvsLength = Int64 ''sti_find_provs_length''
     ''Number of providers returned for successful responses'' UnitDimensionless"

definition STIFindProvsEmpty :: measure where
  "STIFindProvsEmpty = Int64 ''sti_find_provs_empty''
     ''Number of empty responses returned'' UnitDimensionless"

definition AWSRequests :: measure where
  "AWSRequests = Int64 ''aws_reqs''
     ''Requests made to AWS'' UnitDimensionless"

definition AWSRequestDurationMillis :: measure where
  "AWSRequestDurationMillis = Float64 ''aws_req_duration''
     ''The time it took to make an AWS request and receive a response'' UnitMilliseconds"

definition AWSRequestRetries :: measure where
  "AWSRequestRetries = Int64 ''aws_retries''
     ''Retried requests to AWS'' UnitDimensionless"

definition ProviderDDBCollisions :: measure where
  "ProviderDDBCollisions = Int64 ''prov_ddb_collisions''
     ''Number of key collisions when writing provider records into DynamoDB'' UnitDimensionless"

definition RcmgrConnsAllowed :: measure where
  "RcmgrConnsAllowed = Int64 ''libp2p_rcmgr_conns_allowed_total''
     ''Total number of connections allowed by Resource Manager'' UnitDimensionless"

definition RcmgrConnsBlocked :: measure where
  "RcmgrConnsBlocked = Int64 ''libp2p_rcmgr_conns_blocked_total''
     ''Total number of connections blocked by Resource Manager'' UnitDimensionless"

definition RcmgrStreamsAllowed :: measure where
  "RcmgrStreamsAllowed = Int64 ''libp2p_rcmgr_streams_allowed_total''
     ''Total number of streams allowed by Resource Manager'' UnitDimensionless"

definition RcmgrStreamsBlocked :: measure where
  "RcmgrStreamsBlocked = Int64 ''libp2p_rcmgr_streams_blocked_total''
     ''Total number of streams blocked by Resource Manager'' UnitDimensionless"

definition RcmgrPeersAllowed :: measure where
  "RcmgrPeersAllowed = Int64 ''libp2p_rcmgr_peers_allowed_total''
     ''Total number of peers allowed by Resource Manager'' UnitDimensionless"

definition RcmgrPeersBlocked :: measure where
  "RcmgrPeersBlocked = Int64 ''libp2p_rcmgr_peers_blocked_total''
     ''Total number of peers blocked by Resource Manager'' UnitDimensionless"

definition RcmgrProtocolsAllowed :: measure where
  "RcmgrProtocolsAllowed = Int64 ''libp2p_rcmgr_protocols_allowed_total''
     ''Total number of streams attached to a protocol allowed by Resource Manager'' UnitDimensionless"

definition RcmgrProtocolsBlocked :: measure where
  "RcmgrProtocolsBlocked = Int64 ''libp2p_rcmgr_protocols_blocked_total''
     ''Total number of streams attached to a protocol blocked by Resource Manager'' UnitDimensionless"

definition RcmgrProtocolPeersBlocked :: measure where
  "RcmgrProtocolPeersBlocked = Int64 ''libp2p_rcmgr_protocols_for_peer_blocked_total''
     (''Total number of streams attached to a protocol for a specific peer blocked by Resource '' @
     ''Manager'') UnitDimensionless"

definition RcmgrServiceAllowed :: measure where
  "RcmgrServiceAllowed = Int64 ''libp2p_rcmgr_service_allowed_total''
     ''Total number of streams attached to a service allowed by Resource Manager'' UnitDimensionless"

definition RcmgrServiceBlocked :: measure where
  "RcmgrServiceBlocked = Int64 ''libp2p_rcmgr_service_blocked_total''
     ''Total number of streams attached to a service blocked by Resource Manager'' UnitDimensionless"

definition RcmgrServicePeersBlocked :: measure where
  "RcmgrServicePeersBlocked = Int64 ''libp2p_rcmgr_service_for_peer_blocked_total''
     (''Total number of streams attached to a service for a specific peer blocked by Resource '' @
     ''Manager'') UnitDimensionless"

definition RcmgrMemoryAllowed :: measure where
  "RcmgrMemoryAllowed = Int64 ''libp2p_rcmgr_memory_allocations_allowed_total''
     ''Total number of memory allocations allowed by Resource Manager'' UnitDimensionless"

definition RcmgrMemoryBlocked :: measure where
  "RcmgrMemoryBlocked = Int64 ''libp2p_rcmgr_memory_allocations_blocked_total''
     ''Total number of memory allocations blocked by Resource Manager'' UnitDimensionless"

lemmas measure_defs =
  Heads_def BootstrappedHeads_def ConnectedPeers_def UniquePeers_def
  RoutingTableSize_def IPNSRecords_def ProviderRecords_def ProviderRecordsPerKey_def
  Prefetches_def PrefetchDuration_def PrefetchNegativeCacheHits_def PrefetchNegativeCacheSize_def
  PrefetchNegativeCacheTTLSeconds_def PrefetchFailedToCache_def PrefetchesPending_def PrefetchesPendingLimit_def
  DelegatedFindProvs_def DelegatedFindProvsDuration_def STIFindProvs_def STIFindProvsDuration_def
  STIFindProvsLength_def STIFindProvsEmpty_def AWSRequests_def AWSRequestDurationMillis_def
  AWSRequestRetries_def ProviderDDBCollisions_def RcmgrConnsAllowed_def RcmgrConnsBlocked_def
  RcmgrStreamsAllowed_def RcmgrStreamsBlocked_def RcmgrPeersAllowed_def RcmgrPeersBlocked_def
  RcmgrProtocolsAllowed_def RcmgrProtocolsBlocked_def RcmgrProtocolPeersBlocked_def RcmgrServiceAllowed_def
  RcmgrServiceBlocked_def RcmgrServicePeersBlocked_def RcmgrMemoryAllowed_def RcmgrMemoryBlocked_def

text \<open>All measures, in the order of their declarations.\<close>

definition all_measures :: "measure list" where
  "all_measures =
     [Heads, BootstrappedHeads, ConnectedPeers, UniquePeers,
      RoutingTableSize, IPNSRecords, ProviderRecords, ProviderRecordsPerKey,
      Prefetches, PrefetchDuration, PrefetchNegativeCacheHits, PrefetchNegativeCacheSize,
      PrefetchNegativeCacheTTLSeconds, PrefetchFailedToCache, PrefetchesPending, PrefetchesPendingLimit,
      DelegatedFindProvs, DelegatedFindProvsDuration, STIFindProvs, STIFindProvsDuration,
      STIFindProvsLength, STIFindProvsEmpty, AWSRequests, AWSRequestDurationMillis,
      AWSRequestRetries, ProviderDDBCollisions, RcmgrConnsAllowed, RcmgrConnsBlocked,
      RcmgrStreamsAllowed, RcmgrStreamsBlocked, RcmgrPeersAllowed, RcmgrPeersBlocked,
      RcmgrProtocolsAllowed, RcmgrProtocolsBlocked, RcmgrProtocolPeersBlocked, RcmgrServiceAllowed,
      RcmgrServiceBlocked, RcmgrServicePeersBlocked, RcmgrMemoryAllowed, RcmgrMemoryBlocked]"

text \<open>No two measures share a name, so a measure is told by its name.\<close>

lemma measure_names_distinct: "distinct (map ms_Name all_measures)"
  by code_simp

lemma measure_name_inj: "m \<in> set all_measures \<Longrightarrow> m' \<in> set all_measures \<Longrightarrow> ms_Name m = ms_Name m' \<longleftrightarrow> m = m'"
  using measure_names_distinct by (auto simp: distinct_map dest: inj_onD)

text \<open>A duration is a floating point number of milliseconds; every other measure is an integer without a
  unit.\<close>

lemma measure_units:
  "\<forall>m \<in> set all_measures. case m of
     Int64 n d u \<Rightarrow> u = UnitDimensionless | Float64 n d u \<Rightarrow> u = UnitMilliseconds"
  by code_simp

text \<open>The prefix of every exported metric (\<^verbatim>\<open>src/metrics/metrics.go\<close>).\<close>

definition PrometheusNamespace :: string where
  "PrometheusNamespace = ''hydrabooster''"

end
