(* ===== verification/Metric_Views.thy ===== *)
theory Metric_Views
  imports Measures Complex_Main
begin

text \<open>
  \<^verbatim>\<open>src/metrics/definitions.go\<close>: the measures, by their names, and the views that are registered, each
  with the tag keys it distinguishes and its aggregation. The DHT's own measures and its tag key are
  names of a library, in the record \<open>dht_metrics\<close>; the views of the resource manager library are the
  argument \<open>obsViews\<close>. \<open>registered_views\<close> is what \<^verbatim>\<open>ListenAndServe\<close> of \<^verbatim>\<open>src/metrics/metrics.go\<close> registers.
\<close>

datatype aggregation = Sum | LastValue | Count | Distribution "rat list"

datatype view = View (vw_Measure: measure) (vw_TagKeys: "string list") (vw_Aggregation: aggregation)

record dht_metrics =
  dh_ReceivedMessages :: measure
  dh_ReceivedMessageErrors :: measure
  dh_ReceivedBytes :: measure
  dh_InboundRequestLatency :: measure
  dh_OutboundRequestLatency :: measure
  dh_SentMessages :: measure
  dh_SentMessageErrors :: measure
  dh_SentRequests :: measure
  dh_SentRequestErrors :: measure
  dh_SentBytes :: measure
  dh_KeyMessageType :: string

definition defaultBytesDistribution :: aggregation where
  "defaultBytesDistribution =
     Distribution [1024, 2048, 4096, 16384, 65536, 262144, 1048576, 4194304, 16777216, 67108864,
       268435456, 1073741824, 4294967296]"

definition defaultMillisecondsDistribution :: aggregation where
  "defaultMillisecondsDistribution =
     Distribution [1/100, 5/100, 1/10, 3/10, 6/10, 8/10, 1, 2, 3, 4, 5, 6, 8, 10, 13, 16, 20, 25, 30, 40,
       50, 65, 80, 100, 130, 160, 200, 250, 300, 400, 500, 650, 800, 1000, 2000, 5000, 10000, 20000,
       50000, 100000]"

definition coarseMillisecondsDistribution :: aggregation where
  "coarseMillisecondsDistribution =
     Distribution [0, 1, 2, 5, 10, 20, 50, 100, 200, 500, 1000, 2000, 5000, 10000, 20000]"

definition defaultProvidersDistribution :: aggregation where
  "defaultProvidersDistribution =
     Distribution [1/2, 1, 2, 5, 10, 20, 50, 100, 200, 500, 1000, 2000, 5000, 10000]"

section \<open>Views\<close>

definition HeadsView :: view where
  "HeadsView = View Heads [KeyName, KeyPeerID] Sum"

definition BootstrappedHeadsView :: view where
  "BootstrappedHeadsView = View BootstrappedHeads [KeyName, KeyPeerID] Sum"

definition ConnectedPeersView :: view where
  "ConnectedPeersView = View ConnectedPeers [KeyName, KeyPeerID] Sum"

definition UniquePeersView :: view where
  "UniquePeersView = View UniquePeers [KeyName] LastValue"

definition RoutingTableSizeView :: view where
  "RoutingTableSizeView = View RoutingTableSize [KeyName] LastValue"

definition IPNSRecordsView :: view where
  "IPNSRecordsView = View IPNSRecords [KeyName] LastValue"

definition ProviderRecordsView :: view where
  "ProviderRecordsView = View ProviderRecords [KeyName] LastValue"

definition ProviderRecordsPerKeyView :: view where
  "ProviderRecordsPerKeyView = View ProviderRecordsPerKey [KeyName] defaultProvidersDistribution"

definition PrefetchesView :: view where
  "PrefetchesView = View Prefetches [KeyName, KeyStatus] Sum"

definition PrefetchDurationMillisView :: view where
  "PrefetchDurationMillisView = View PrefetchDuration [KeyName, KeyStatus] coarseMillisecondsDistribution"

definition PrefetchNegativeCacheHitsView :: view where
  "PrefetchNegativeCacheHitsView = View PrefetchNegativeCacheHits [] Sum"

definition PrefetchNegativeCacheSizeView :: view where
  "PrefetchNegativeCacheSizeView = View PrefetchNegativeCacheSize [KeyName] LastValue"

definition PrefetchNegativeCacheTTLSecondsView :: view where
  "PrefetchNegativeCacheTTLSecondsView = View PrefetchNegativeCacheTTLSeconds [KeyName] LastValue"

definition PrefetchFailedToCacheView :: view where
  "PrefetchFailedToCacheView = View PrefetchFailedToCache [KeyName] Sum"

definition PrefetchesPendingView :: view where
  "PrefetchesPendingView = View PrefetchesPending [KeyName] LastValue"

definition PrefetchesPendingLimitView :: view where
  "PrefetchesPendingLimitView = View PrefetchesPendingLimit [KeyName] LastValue"

definition AWSRequestsView :: view where
  "AWSRequestsView = View AWSRequests [KeyName, KeyOperation, KeyHTTPCode, KeyErrorCode] Sum"

definition AWSRequestsDurationView :: view where
  "AWSRequestsDurationView = View AWSRequestDurationMillis [KeyName, KeyOperation, KeyHTTPCode] coarseMillisecondsDistribution"

definition AWSRequestRetriesView :: view where
  "AWSRequestRetriesView = View AWSRequestRetries [KeyName, KeyOperation, KeyHTTPCode, KeyErrorCode] Sum"

definition ProviderDDBCollisionsView :: view where
  "ProviderDDBCollisionsView = View ProviderDDBCollisions [KeyName] Sum"

definition STIFindProvsView :: view where
  "STIFindProvsView = View STIFindProvs [KeyName, KeyStatus] Sum"

definition STIFindProvsDurationView :: view where
  "STIFindProvsDurationView = View STIFindProvsDuration [KeyName, KeyStatus] coarseMillisecondsDistribution"

definition STIFindProvsLengthView :: view where
  "STIFindProvsLengthView = View STIFindProvsLength [KeyName] defaultProvidersDistribution"

definition STIFindProvsEmptyView :: view where
  "STIFindProvsEmptyView = View STIFindProvsEmpty [KeyName] Sum"

definition ReceivedMessagesView :: "dht_metrics \<Rightarrow> view" where
  "ReceivedMessagesView dht = View (dh_ReceivedMessages dht) [dh_KeyMessageType dht] Count"

definition ReceivedMessageErrorsView :: "dht_metrics \<Rightarrow> view" where
  "ReceivedMessageErrorsView dht = View (dh_ReceivedMessageErrors dht) [dh_KeyMessageType dht] Count"

definition ReceivedBytesView :: "dht_metrics \<Rightarrow> view" where
  "ReceivedBytesView dht = View (dh_ReceivedBytes dht) [dh_KeyMessageType dht] defaultBytesDistribution"

definition InboundRequestLatencyView :: "dht_metrics \<Rightarrow> view" where
  "InboundRequestLatencyView dht = View (dh_InboundRequestLatency dht) [dh_KeyMessageType dht] defaultMillisecondsDistribution"

definition OutboundRequestLatencyView :: "dht_metrics \<Rightarrow> view" where
  "OutboundRequestLatencyView dht = View (dh_OutboundRequestLatency dht) [dh_KeyMessageType dht] coarseMillisecondsDistribution"

definition SentMessagesView :: "dht_metrics \<Rightarrow> view" where
  "SentMessagesView dht = View (dh_SentMessages dht) [dh_KeyMessageType dht] Count"

definition SentMessageErrorsView :: "dht_metrics \<Rightarrow> view" where
  "SentMessageErrorsView dht = View (dh_SentMessageErrors dht) [dh_KeyMessageType dht] Count"

definition SentRequestsView :: "dht_metrics \<Rightarrow> view" where
  "SentRequestsView dht = View (dh_SentRequests dht) [dh_KeyMessageType dht] Count"

definition SentRequestErrorsView :: "dht_metrics \<Rightarrow> view" where
  "SentRequestErrorsView dht = View (dh_SentRequestErrors dht) [dh_KeyMessageType dht] Count"

definition SentBytesView :: "dht_metrics \<Rightarrow> view" where
  "SentBytesView dht = View (dh_SentBytes dht) [dh_KeyMessageType dht] defaultBytesDistribution"

definition RcmgrConnsAllowedView :: view where
  "RcmgrConnsAllowedView = View RcmgrConnsAllowed [KeyName, KeyDirection, KeyUsesFD] Sum"

definition RcmgrConnsBlockedView :: view where
  "RcmgrConnsBlockedView = View RcmgrConnsBlocked [KeyName, KeyDirection, KeyUsesFD] Sum"

definition RcmgrStreamsAllowedView :: view where
  "RcmgrStreamsAllowedView = View RcmgrStreamsAllowed [KeyName, KeyDirection] Sum"

definition RcmgrStreamsBlockedView :: view where
  "RcmgrStreamsBlockedView = View RcmgrStreamsBlocked [KeyName, KeyDirection] Sum"

definition RcmgrPeersAllowedView :: view where
  "RcmgrPeersAllowedView = View RcmgrPeersAllowed [KeyName] Sum"

definition RcmgrPeersBlockedView :: view where
  "RcmgrPeersBlockedView = View RcmgrPeersBlocked [KeyName] Sum"

definition RcmgrProtocolsAllowedView :: view where
  "RcmgrProtocolsAllowedView = View RcmgrProtocolsAllowed [KeyName, KeyProtocol] Sum"

definition RcmgrProtocolsBlockedView :: view where
  "RcmgrProtocolsBlockedView = View RcmgrProtocolsBlocked [KeyName, KeyProtocol] Sum"

definition RcmgrProtocolPeersBlockedView :: view where
  "RcmgrProtocolPeersBlockedView = View RcmgrProtocolPeersBlocked [KeyName, KeyProtocol] Sum"

definition RcmgrServiceAllowedView :: view where
  "RcmgrServiceAllowedView = View RcmgrServiceAllowed [KeyName, KeyService] Sum"

definition RcmgrServiceBlockedView :: view where
  "RcmgrServiceBlockedView = View RcmgrServiceBlocked [KeyName, KeyService] Sum"

definition RcmgrServicePeersBlockedView :: view where
  "RcmgrServicePeersBlockedView = View RcmgrServicePeersBlocked [KeyName, KeyService] Sum"

definition RcmgrMemoryAllowedView :: view where
  "RcmgrMemoryAllowedView = View RcmgrMemoryAllowed [KeyName] Sum"

definition RcmgrMemoryBlockedView :: view where
  "RcmgrMemoryBlockedView = View RcmgrMemoryBlocked [KeyName] Sum"

definition DefaultViews :: "dht_metrics \<Rightarrow> view list \<Rightarrow> view list" where
  "DefaultViews dht obsViews =
     [HeadsView, BootstrappedHeadsView, ConnectedPeersView, UniquePeersView, RoutingTableSizeView,
      IPNSRecordsView, ProviderRecordsView, STIFindProvsView, STIFindProvsDurationView,
      STIFindProvsLengthView, STIFindProvsEmptyView, ProviderRecordsPerKeyView, PrefetchesView,
      PrefetchDurationMillisView, PrefetchNegativeCacheHitsView, PrefetchNegativeCacheSizeView,
      PrefetchNegativeCacheTTLSecondsView, PrefetchFailedToCacheView, PrefetchesPendingView,
      PrefetchesPendingLimitView, AWSRequestsView, AWSRequestsDurationView, AWSRequestRetriesView,
      ProviderDDBCollisionsView, ReceivedMessagesView dht, ReceivedMessageErrorsView dht,
      ReceivedBytesView dht, InboundRequestLatencyView dht, OutboundRequestLatencyView dht,
      SentMessagesView dht, SentMessageErrorsView dht, SentRequestsView dht, SentRequestErrorsView
      dht, SentBytesView dht, RcmgrConnsAllowedView, RcmgrConnsBlockedView, RcmgrStreamsAllowedView,
      RcmgrStreamsBlockedView, RcmgrPeersAllowedView, RcmgrPeersBlockedView,
      RcmgrProtocolsAllowedView, RcmgrProtocolsBlockedView, RcmgrProtocolPeersBlockedView,
      RcmgrServiceAllowedView, RcmgrServiceBlockedView, RcmgrServicePeersBlockedView,
      RcmgrMemoryAllowedView, RcmgrMemoryBlockedView] @ obsViews"

text \<open>Every view of the HTTP routing client gets the name tag before it is registered.\<close>

definition registered_views :: "view list \<Rightarrow> view list \<Rightarrow> view list" where
  "registered_views defaultViews clientViews =
     defaultViews @
     map (\<lambda>v. View (vw_Measure v) (vw_TagKeys v @ [KeyName]) (vw_Aggregation v)) clientViews"

lemmas rcmgr_view_defs =
  RcmgrConnsAllowedView_def RcmgrConnsBlockedView_def RcmgrStreamsAllowedView_def
  RcmgrStreamsBlockedView_def RcmgrPeersAllowedView_def RcmgrPeersBlockedView_def
  RcmgrProtocolsAllowedView_def RcmgrProtocolsBlockedView_def RcmgrProtocolPeersBlockedView_def
  RcmgrServiceAllowedView_def RcmgrServiceBlockedView_def RcmgrServicePeersBlockedView_def
  RcmgrMemoryAllowedView_def RcmgrMemoryBlockedView_def

lemma rcmgr_views_registered:
  "{RcmgrConnsAllowedView, RcmgrConnsBlockedView, RcmgrStreamsAllowedView, RcmgrStreamsBlockedView,
    RcmgrPeersAllowedView, RcmgrPeersBlockedView, RcmgrProtocolsAllowedView, RcmgrProtocolsBlockedView,
    RcmgrProtocolPeersBlockedView, RcmgrServiceAllowedView, RcmgrServiceBlockedView,
    RcmgrServicePeersBlockedView, RcmgrMemoryAllowedView, RcmgrMemoryBlockedView}
   \<subseteq> set (registered_views (DefaultViews dht obsViews) clientViews)"
  by (simp add: registered_views_def DefaultViews_def)

lemma aws_views_registered:
  "{AWSRequestsView, AWSRequestsDurationView, AWSRequestRetriesView}
   \<subseteq> set (registered_views (DefaultViews dht obsViews) clientViews)"
  by (simp add: registered_views_def DefaultViews_def)

end
