(* ===== verification/Rcmgr_Metrics.thy ===== *)
theory Rcmgr_Metrics
  imports Metric_Views Go_Strings
begin

text \<open>
  \<^verbatim>\<open>src/metrics/rcmgr.go\<close>: the reporter of the resource manager's decisions, and
  \<^verbatim>\<open>src/metrics/aws.go\<close>: the middleware that measures every request to AWS.

  Both hand tag mutators and measurements to \<^verbatim>\<open>stats.RecordWithTags\<close> of OpenCensus. Applying mutators
  is the parameter \<open>newTags\<close> (\<^verbatim>\<open>tag.New\<close>), with \<open>None\<close> when a value is refused; the predicate
  \<open>tag_library\<close> states its documented behaviour. A recording is a set of tags with measurements. The
  peer IDs and sizes that the code ignores are left out of the events.
\<close>

section \<open>Tags and recordings\<close>

type_synonym tags = "string \<rightharpoonup> string"

datatype tag_mutator =
    Upsert (mut_key: string) string
  | Update (mut_key: string) string
  | Insert (mut_key: string) string

type_synonym recording = "tags \<times> (measure \<times> int) list"
type_synonym tag_new = "tags \<Rightarrow> tag_mutator list \<Rightarrow> tags option"

definition RecordWithTags ::
    "tag_new \<Rightarrow> tags \<Rightarrow> tag_mutator list \<Rightarrow> (measure \<times> int) list \<Rightarrow> recording list" where
  "RecordWithTags newTags ctx mutators measurements =
     (case newTags ctx mutators of None \<Rightarrow> [] | Some tags \<Rightarrow> [(tags, measurements)])"

text \<open>Documented: \<open>Upsert\<close> sets the tag, \<open>Update\<close> only one that is there, \<open>Insert\<close> only one that is not;
  an invalid value is an error.\<close>

definition tag_library :: "(string \<Rightarrow> bool) \<Rightarrow> tag_new \<Rightarrow> bool" where
  "tag_library valid newTags \<longleftrightarrow>
     (\<forall>tags. newTags tags [] = Some tags) \<and>
     (\<forall>tags k v ms. newTags tags (Upsert k v # ms) =
        (if valid v then newTags (tags(k \<mapsto> v)) ms else None)) \<and>
     (\<forall>tags k v ms. newTags tags (Update k v # ms) =
        (if valid v then newTags (if tags k = None then tags else tags(k \<mapsto> v)) ms else None)) \<and>
     (\<forall>tags k v ms. newTags tags (Insert k v # ms) =
        (if valid v then newTags (if tags k = None then tags(k \<mapsto> v) else tags) ms else None))"

section \<open>The reporter\<close>

datatype direction = DirUnknown | DirInbound | DirOutbound

fun getDirection :: "direction \<Rightarrow> string" where
  "getDirection DirInbound = ''inbound''"
| "getDirection DirOutbound = ''outbound''"
| "getDirection DirUnknown = []"

record rcmgrMetrics =
  rm_name :: string

definition AllowConn :: "tag_new \<Rightarrow> rcmgrMetrics \<Rightarrow> direction \<Rightarrow> bool \<Rightarrow> recording list" where
  "AllowConn newTags r dir usefd =
     RecordWithTags newTags Map.empty
       [Upsert KeyName (rm_name r), Upsert KeyDirection (getDirection dir), Upsert KeyUsesFD (FormatBool usefd)]
       [(RcmgrConnsAllowed, 1), (RcmgrConnsBlocked, 0)]"

definition BlockConn :: "tag_new \<Rightarrow> rcmgrMetrics \<Rightarrow> direction \<Rightarrow> bool \<Rightarrow> recording list" where
  "BlockConn newTags r dir usefd =
     RecordWithTags newTags Map.empty
       [Upsert KeyName (rm_name r), Upsert KeyDirection (getDirection dir), Update KeyUsesFD (FormatBool usefd)]
       [(RcmgrConnsAllowed, 0), (RcmgrConnsBlocked, 1)]"

definition AllowStream :: "tag_new \<Rightarrow> rcmgrMetrics \<Rightarrow> direction \<Rightarrow> recording list" where
  "AllowStream newTags r dir =
     RecordWithTags newTags Map.empty
       [Upsert KeyName (rm_name r), Upsert KeyDirection (getDirection dir)]
       [(RcmgrStreamsAllowed, 1), (RcmgrStreamsBlocked, 0)]"

definition BlockStream :: "tag_new \<Rightarrow> rcmgrMetrics \<Rightarrow> direction \<Rightarrow> recording list" where
  "BlockStream newTags r dir =
     RecordWithTags newTags Map.empty
       [Upsert KeyName (rm_name r), Upsert KeyDirection (getDirection dir)]
       [(RcmgrStreamsAllowed, 0), (RcmgrStreamsBlocked, 1)]"

definition AllowPeer :: "tag_new \<Rightarrow> rcmgrMetrics \<Rightarrow> recording list" where
  "AllowPeer newTags r =
     RecordWithTags newTags Map.empty
       [Upsert KeyName (rm_name r)]
       [(RcmgrPeersAllowed, 1), (RcmgrPeersBlocked, 0)]"

definition BlockPeer :: "tag_new \<Rightarrow> rcmgrMetrics \<Rightarrow> recording list" where
  "BlockPeer newTags r =
     RecordWithTags newTags Map.empty
       [Upsert KeyName (rm_name r)]
       [(RcmgrPeersAllowed, 0), (RcmgrPeersBlocked, 1)]"

definition AllowProtocol :: "tag_new \<Rightarrow> rcmgrMetrics \<Rightarrow> string \<Rightarrow> recording list" where
  "AllowProtocol newTags r proto =
     RecordWithTags newTags Map.empty
       [Upsert KeyName (rm_name r), Upsert KeyProtocol proto]
       [(RcmgrProtocolsAllowed, 1), (RcmgrProtocolsBlocked, 0)]"

definition BlockProtocol :: "tag_new \<Rightarrow> rcmgrMetrics \<Rightarrow> string \<Rightarrow> recording list" where
  "BlockProtocol newTags r proto =
     RecordWithTags newTags Map.empty
       [Upsert KeyName (rm_name r), Upsert KeyProtocol proto]
       [(RcmgrProtocolsAllowed, 0), (RcmgrProtocolsBlocked, 1)]"

definition BlockProtocolPeer :: "tag_new \<Rightarrow> rcmgrMetrics \<Rightarrow> string \<Rightarrow> recording list" where
  "BlockProtocolPeer newTags r proto =
     RecordWithTags newTags Map.empty
       [Upsert KeyName (rm_name r), Upsert KeyProtocol proto]
       [(RcmgrProtocolPeersBlocked, 1)]"

definition AllowService :: "tag_new \<Rightarrow> rcmgrMetrics \<Rightarrow> string \<Rightarrow> recording list" where
  "AllowService newTags r svc =
     RecordWithTags newTags Map.empty
       [Upsert KeyName (rm_name r), Upsert KeyService svc]
       [(RcmgrServiceAllowed, 1), (RcmgrServiceBlocked, 0)]"

definition BlockService :: "tag_new \<Rightarrow> rcmgrMetrics \<Rightarrow> string \<Rightarrow> recording list" where
  "BlockService newTags r svc =
     RecordWithTags newTags Map.empty
       [Upsert KeyName (rm_name r), Upsert KeyService svc]
       [(RcmgrServiceAllowed, 0), (RcmgrServiceBlocked, 1)]"

definition BlockServicePeer :: "tag_new \<Rightarrow> rcmgrMetrics \<Rightarrow> string \<Rightarrow> recording list" where
  "BlockServicePeer newTags r svc =
     RecordWithTags newTags Map.empty
       [Upsert KeyName (rm_name r), Upsert KeyService svc]
       [(RcmgrServicePeersBlocked, 1)]"

definition AllowMemory :: "tag_new \<Rightarrow> rcmgrMetrics \<Rightarrow> recording list" where
  "AllowMemory newTags r =
     RecordWithTags newTags Map.empty
       [Upsert KeyName (rm_name r)]
       [(RcmgrMemoryAllowed, 1), (RcmgrMemoryBlocked, 0)]"

definition BlockMemory :: "tag_new \<Rightarrow> rcmgrMetrics \<Rightarrow> recording list" where
  "BlockMemory newTags r =
     RecordWithTags newTags Map.empty
       [Upsert KeyName (rm_name r)]
       [(RcmgrMemoryAllowed, 0), (RcmgrMemoryBlocked, 1)]"

text \<open>The calls the resource manager makes.\<close>

datatype rcmgr_event =
    Allow_Conn direction bool | Block_Conn direction bool
  | Allow_Stream direction | Block_Stream direction
  | Allow_Peer | Block_Peer
  | Allow_Protocol string | Block_Protocol string | Block_Protocol_Peer string
  | Allow_Service string | Block_Service string | Block_Service_Peer string
  | Allow_Memory | Block_Memory

fun report :: "tag_new \<Rightarrow> rcmgrMetrics \<Rightarrow> rcmgr_event \<Rightarrow> recording list" where
  "report nt r (Allow_Conn d b) = AllowConn nt r d b"
| "report nt r (Block_Conn d b) = BlockConn nt r d b"
| "report nt r (Allow_Stream d) = AllowStream nt r d"
| "report nt r (Block_Stream d) = BlockStream nt r d"
| "report nt r Allow_Peer = AllowPeer nt r"
| "report nt r Block_Peer = BlockPeer nt r"
| "report nt r (Allow_Protocol p) = AllowProtocol nt r p"
| "report nt r (Block_Protocol p) = BlockProtocol nt r p"
| "report nt r (Block_Protocol_Peer p) = BlockProtocolPeer nt r p"
| "report nt r (Allow_Service s) = AllowService nt r s"
| "report nt r (Block_Service s) = BlockService nt r s"
| "report nt r (Block_Service_Peer s) = BlockServicePeer nt r s"
| "report nt r Allow_Memory = AllowMemory nt r"
| "report nt r Block_Memory = BlockMemory nt r"

lemmas reporter_defs =
  AllowConn_def BlockConn_def AllowStream_def BlockStream_def AllowPeer_def BlockPeer_def
  AllowProtocol_def BlockProtocol_def BlockProtocolPeer_def AllowService_def BlockService_def
  BlockServicePeer_def AllowMemory_def BlockMemory_def

section \<open>The AWS middleware\<close>

text \<open>What the middleware reads from the result of the next handler.\<close>

record 'md aws_env =
  aw_ServiceID :: string
  aw_OperationName :: string
  aw_RawResponse :: "'md \<Rightarrow> int option"            \<comment> \<open>the HTTP status, if the raw response is one\<close>
  aw_ErrorCode :: "go_error \<Rightarrow> string option"       \<comment> \<open>\<open>errors.As\<close> an API error\<close>
  aw_ResponseAt :: "'md \<Rightarrow> int option"             \<comment> \<open>nanoseconds, as \<open>start\<close>\<close>
  aw_AttemptResults :: "'md \<Rightarrow> bool list option"   \<comment> \<open>which attempts were retried\<close>

definition whole_millis :: "int \<Rightarrow> int" where
  "whole_millis d = (if d < 0 then - (- d div 1000000) else d div 1000000)"

definition aws_tags :: "'md aws_env \<Rightarrow> 'md \<Rightarrow> go_error option \<Rightarrow> tag_mutator list" where
  "aws_tags env md err =
     [Upsert KeyOperation (aw_ServiceID env @ ''.'' @ aw_OperationName env),
      Upsert KeyHTTPCode (Itoa (case aw_RawResponse env md of None \<Rightarrow> 0 | Some code \<Rightarrow> code)),
      Upsert KeyErrorCode (case Option.bind err (aw_ErrorCode env) of None \<Rightarrow> ''none'' | Some code \<Rightarrow> code)]"

fun count_retries :: "bool list \<Rightarrow> int" where
  "count_retries [] = 0"
| "count_retries (retried # rs) = (if retried then 1 else 0) + count_retries rs"

definition HandleFinalize ::
    "tag_new \<Rightarrow> 'md aws_env \<Rightarrow> tags \<Rightarrow> int \<Rightarrow> ('w \<Rightarrow> 'w \<times> 'o \<times> 'md \<times> go_error option) \<Rightarrow> 'w \<Rightarrow>
     'w \<times> recording list \<times> 'o \<times> 'md \<times> go_error option" where
  "HandleFinalize newTags env ctx start nxt w =
     (case nxt w of (w1, out, md, err) \<Rightarrow>
        let tags = aws_tags env md err;
            duration = (case aw_ResponseAt env md of None \<Rightarrow> []
              | Some t \<Rightarrow> RecordWithTags newTags ctx tags [(AWSRequestDurationMillis, whole_millis (t - start))]);
            attempts = (case aw_AttemptResults env md of None \<Rightarrow> []
              | Some results \<Rightarrow>
                  RecordWithTags newTags ctx tags [(AWSRequests, int (length results))] @
                  RecordWithTags newTags ctx tags [(AWSRequestRetries, count_retries results)])
        in (w1, duration @ attempts, out, md, err))"

section \<open>Rows of a summing view\<close>

text \<open>A measurement belongs to the row given by the tags the view distinguishes; a summing view shows
  the sum of the measurements of each row.\<close>

type_synonym row = "string option list"

definition row_of :: "view \<Rightarrow> tags \<Rightarrow> row" where
  "row_of v tags = map tags (vw_TagKeys v)"

definition measured :: "measure \<Rightarrow> (measure \<times> int) list \<Rightarrow> int" where
  "measured m measurements = sum_list (map (\<lambda>(m', x). if m' = m then x else 0) measurements)"

definition row_total :: "view \<Rightarrow> recording list \<Rightarrow> row \<Rightarrow> int" where
  "row_total v recs r =
     sum_list (map (\<lambda>(tags, ms). if row_of v tags = r then measured (vw_Measure v) ms else 0) recs)"

lemma row_total_simps [simp]:
  "row_total v [] r = 0"
  "row_total v (recs @ recs') r = row_total v recs r + row_total v recs' r"
  "row_total v ((tags, ms) # recs) r =
     (if row_of v tags = r then measured (vw_Measure v) ms else 0) + row_total v recs r"
  by (simp_all add: row_total_def)

lemma row_total_concat: "row_total v (concat xs) r = sum_list (map (\<lambda>recs. row_total v recs r) xs)"
  by (induction xs) simp_all

section \<open>Facts\<close>

lemma tag_library_simps:
  assumes "tag_library valid newTags"
  shows "newTags tags [] = Some tags"
    "valid v \<Longrightarrow> newTags tags (Upsert k v # ms) = newTags (tags(k \<mapsto> v)) ms"
    "valid v \<Longrightarrow> newTags tags (Update k v # ms) = newTags (if tags k = None then tags else tags(k \<mapsto> v)) ms"
  using assms by (simp_all add: tag_library_def)

lemma count_retries_eq: "count_retries rs = int (length (filter id rs))"
  by (induction rs) simp_all

lemma count_filter_sum: "int (length (filter P xs)) = sum_list (map (\<lambda>x. if P x then 1 else 0) xs)"
  by (induction xs) simp_all

text \<open>The labels of an event are accepted by the library.\<close>

definition labels_valid :: "(string \<Rightarrow> bool) \<Rightarrow> rcmgrMetrics \<Rightarrow> rcmgr_event \<Rightarrow> bool" where
  "labels_valid valid r e \<longleftrightarrow>
     valid (rm_name r) \<and> valid ''inbound'' \<and> valid ''outbound'' \<and> valid [] \<and> valid ''true'' \<and> valid ''false'' \<and>
     (case e of Allow_Protocol p \<Rightarrow> valid p | Block_Protocol p \<Rightarrow> valid p | Block_Protocol_Peer p \<Rightarrow> valid p
      | Allow_Service s \<Rightarrow> valid s | Block_Service s \<Rightarrow> valid s | Block_Service_Peer s \<Rightarrow> valid s | _ \<Rightarrow> True)"

lemma labels_valid_fixed:
  assumes "labels_valid valid r e"
  shows "valid (rm_name r)" "valid (getDirection d)" "valid (FormatBool b)"
  using assms by (cases d; simp add: labels_valid_def FormatBool_def)+

text \<open>The single recording an event makes.\<close>

fun event_tags :: "rcmgrMetrics \<Rightarrow> rcmgr_event \<Rightarrow> tags" where
  "event_tags r (Allow_Conn d b) =
     [''name'' \<mapsto> rm_name r, ''direction'' \<mapsto> getDirection d, ''uses_fd'' \<mapsto> FormatBool b]"
| "event_tags r (Block_Conn d b) = [''name'' \<mapsto> rm_name r, ''direction'' \<mapsto> getDirection d]"
| "event_tags r (Allow_Stream d) = [''name'' \<mapsto> rm_name r, ''direction'' \<mapsto> getDirection d]"
| "event_tags r (Block_Stream d) = [''name'' \<mapsto> rm_name r, ''direction'' \<mapsto> getDirection d]"
| "event_tags r (Allow_Protocol p) = [''name'' \<mapsto> rm_name r, ''protocol'' \<mapsto> p]"
| "event_tags r (Block_Protocol p) = [''name'' \<mapsto> rm_name r, ''protocol'' \<mapsto> p]"
| "event_tags r (Block_Protocol_Peer p) = [''name'' \<mapsto> rm_name r, ''protocol'' \<mapsto> p]"
| "event_tags r (Allow_Service s) = [''name'' \<mapsto> rm_name r, ''service'' \<mapsto> s]"
| "event_tags r (Block_Service s) = [''name'' \<mapsto> rm_name r, ''service'' \<mapsto> s]"
| "event_tags r (Block_Service_Peer s) = [''name'' \<mapsto> rm_name r, ''service'' \<mapsto> s]"
| "event_tags r _ = [''name'' \<mapsto> rm_name r]"

text \<open>The view an event counts in.\<close>

fun event_view :: "rcmgr_event \<Rightarrow> view" where
  "event_view (Allow_Conn d b) = RcmgrConnsAllowedView"
| "event_view (Block_Conn d b) = RcmgrConnsBlockedView"
| "event_view (Allow_Stream d) = RcmgrStreamsAllowedView"
| "event_view (Block_Stream d) = RcmgrStreamsBlockedView"
| "event_view Allow_Peer = RcmgrPeersAllowedView"
| "event_view Block_Peer = RcmgrPeersBlockedView"
| "event_view (Allow_Protocol p) = RcmgrProtocolsAllowedView"
| "event_view (Block_Protocol p) = RcmgrProtocolsBlockedView"
| "event_view (Block_Protocol_Peer p) = RcmgrProtocolPeersBlockedView"
| "event_view (Allow_Service s) = RcmgrServiceAllowedView"
| "event_view (Block_Service s) = RcmgrServiceBlockedView"
| "event_view (Block_Service_Peer s) = RcmgrServicePeersBlockedView"
| "event_view Allow_Memory = RcmgrMemoryAllowedView"
| "event_view Block_Memory = RcmgrMemoryBlockedView"

lemma report_one:
  assumes "tag_library valid newTags" "labels_valid valid r e"
  obtains ms where "report newTags r e = [(event_tags r e, ms)]"
    "\<And>m. measured m ms = (if m = vw_Measure (event_view e) then 1 else 0)"
  using tag_library_simps [OF assms(1)] labels_valid_fixed [OF assms(2)] assms(2)
  by (cases e)
    (fastforce simp: reporter_defs rcmgr_view_defs RecordWithTags_def labels_valid_def measured_def)+

lemma row_total_report:
  assumes "tag_library valid newTags" "labels_valid valid r e"
  shows "row_total v (report newTags r e) rw =
    (if vw_Measure (event_view e) = vw_Measure v \<and> row_of v (event_tags r e) = rw then 1 else 0)"
proof -
  obtain ms where "report newTags r e = [(event_tags r e, ms)]"
    "\<And>m. measured m ms = (if m = vw_Measure (event_view e) then 1 else 0)"
    using report_one [OF assms] by blast
  then show ?thesis by simp
qed

lemma row_total_reports:
  assumes "tag_library valid newTags" "\<forall>e \<in> set es. labels_valid valid r e"
  shows "row_total v (concat (map (report newTags r) es)) rw =
    int (length (filter (\<lambda>e. vw_Measure (event_view e) = vw_Measure v \<and> row_of v (event_tags r e) = rw) es))"
  using assms(2) by (induction es) (simp_all add: row_total_report [OF assms(1)])

lemma conns_blocked_event:
  "vw_Measure (event_view e) = vw_Measure RcmgrConnsBlockedView \<longleftrightarrow> (\<exists>d b. e = Block_Conn d b)"
  by (cases e) (simp_all add: rcmgr_view_defs measure_defs)

section \<open>Properties\<close>

text \<open>
  C33: every decision of the resource manager that is reported makes one recording; in it exactly one
  measure counts it, a view that sums this measure is registered, and the recorded tags are the ones
  the view distinguishes, with one exception: a blocked connection is recorded without its
  \<open>uses_fd\<close> tag, because \<open>BlockConn\<close> updates a tag that is not there.
\<close>

theorem rcmgr_report_fits_views:
  assumes "tag_library valid newTags" "labels_valid valid r e"
  shows "\<exists>tags ms. report newTags r e = [(tags, ms)] \<and>
    event_view e \<in> set (registered_views (DefaultViews dht obsViews) clientViews) \<and>
    vw_Aggregation (event_view e) = Sum \<and>
    (\<forall>m. measured m ms = (if m = vw_Measure (event_view e) then 1 else 0)) \<and>
    dom tags = set (vw_TagKeys (event_view e)) - (if \<exists>d b. e = Block_Conn d b then {''uses_fd''} else {})"
proof -
  obtain ms where ms: "report newTags r e = [(event_tags r e, ms)]"
    "\<And>m. measured m ms = (if m = vw_Measure (event_view e) then 1 else 0)"
    using report_one [OF assms] by blast
  have "event_view e \<in> set (registered_views (DefaultViews dht obsViews) clientViews)"
    using rcmgr_views_registered [of dht obsViews clientViews] by (cases e) auto
  moreover have "vw_Aggregation (event_view e) = Sum"
    by (cases e) (simp_all add: rcmgr_view_defs)
  moreover have "dom (event_tags r e) =
      set (vw_TagKeys (event_view e)) - (if \<exists>d b. e = Block_Conn d b then {''uses_fd''} else {})"
    by (cases e) (auto simp: rcmgr_view_defs)
  ultimately show ?thesis using ms by blast
qed

definition always_valid :: "string \<Rightarrow> bool" where
  "always_valid v = True"

text \<open>A tag library that accepts every value.\<close>

fun apply_mutators :: "tags \<Rightarrow> tag_mutator list \<Rightarrow> tags option" where
  "apply_mutators tags [] = Some tags"
| "apply_mutators tags (Upsert k v # ms) = apply_mutators (tags(k \<mapsto> v)) ms"
| "apply_mutators tags (Update k v # ms) =
     apply_mutators (if tags k = None then tags else tags(k \<mapsto> v)) ms"
| "apply_mutators tags (Insert k v # ms) =
     apply_mutators (if tags k = None then tags(k \<mapsto> v) else tags) ms"

lemma apply_mutators_library: "tag_library always_valid apply_mutators"
  by (simp add: tag_library_def always_valid_def)

lemma always_labels_valid: "labels_valid always_valid r e"
  by (cases e) (simp_all add: labels_valid_def always_valid_def)

theorem rcmgr_report_fits_views_witness:
  "\<exists>tags ms. report apply_mutators \<lparr>rm_name = ''h''\<rparr> (Block_Conn DirInbound True) = [(tags, ms)] \<and>
     dom tags = {''name'', ''direction''}"
  using rcmgr_report_fits_views [OF apply_mutators_library always_labels_valid,
      of "\<lparr>rm_name = ''h''\<rparr>" "Block_Conn DirInbound True" undefined "[]" "[]"]
  by (auto simp: RcmgrConnsBlockedView_def ex_bool_eq)

text \<open>
  C34: what the dashboards add up. For every sequence of reported decisions, the row of a resource
  manager view shows the number of decisions of its kind with the row's tags. So the allowed
  connections are counted by direction and use of a file descriptor; the blocked ones only by
  direction: every row of theirs that has a \<open>uses_fd\<close> tag stays at zero.
\<close>

theorem rcmgr_rows_count_events:
  assumes "tag_library valid newTags" "\<forall>e \<in> set es. labels_valid valid r e"
  shows "row_total v (concat (map (report newTags r) es)) rw =
      int (length (filter (\<lambda>e. vw_Measure (event_view e) = vw_Measure v \<and> row_of v (event_tags r e) = rw) es)) \<and>
    row_total RcmgrConnsAllowedView (concat (map (report newTags r) es))
        [Some (rm_name r), Some (getDirection d), Some (FormatBool b)] =
      int (length (filter (\<lambda>e. e = Allow_Conn d b) es)) \<and>
    row_total RcmgrConnsBlockedView (concat (map (report newTags r) es))
        [Some (rm_name r), Some (getDirection d), None] =
      int (length (filter (\<lambda>e. \<exists>b. e = Block_Conn d b) es)) \<and>
    row_total RcmgrConnsBlockedView (concat (map (report newTags r) es)) [n, dir, Some fd] = 0"
proof (intro conjI)
  note rows = row_total_reports [OF assms]
  have dir: "getDirection d = getDirection d' \<longleftrightarrow> d = d'" for d d' by (cases d; cases d') simp_all
  have bool: "FormatBool b = FormatBool b' \<longleftrightarrow> b = b'" for b b' by (simp add: FormatBool_def)
  show "row_total RcmgrConnsAllowedView (concat (map (report newTags r) es))
        [Some (rm_name r), Some (getDirection d), Some (FormatBool b)] =
      int (length (filter (\<lambda>e. e = Allow_Conn d b) es))"
  proof -
    have "vw_Measure (event_view e) = vw_Measure RcmgrConnsAllowedView \<and>
        row_of RcmgrConnsAllowedView (event_tags r e) =
          [Some (rm_name r), Some (getDirection d), Some (FormatBool b)] \<longleftrightarrow> e = Allow_Conn d b" for e
      by (cases e) (auto simp: rcmgr_view_defs row_of_def dir bool)
    then show ?thesis unfolding rows by simp
  qed
  show "row_total RcmgrConnsBlockedView (concat (map (report newTags r) es))
        [Some (rm_name r), Some (getDirection d), None] =
      int (length (filter (\<lambda>e. \<exists>b. e = Block_Conn d b) es))"
  proof -
    have "vw_Measure (event_view e) = vw_Measure RcmgrConnsBlockedView \<and>
        row_of RcmgrConnsBlockedView (event_tags r e) =
          [Some (rm_name r), Some (getDirection d), None] \<longleftrightarrow> (\<exists>b. e = Block_Conn d b)" for e
      unfolding conns_blocked_event by (auto simp: RcmgrConnsBlockedView_def row_of_def dir)
    then show ?thesis unfolding rows by simp
  qed
  show "row_total RcmgrConnsBlockedView (concat (map (report newTags r) es)) [n, dir, Some fd] = 0"
    unfolding rows conns_blocked_event by (auto simp: RcmgrConnsBlockedView_def row_of_def filter_empty_conv)
qed (rule row_total_reports [OF assms])

theorem rcmgr_rows_count_events_witness:
  "row_total RcmgrConnsBlockedView (concat (map (report apply_mutators \<lparr>rm_name = ''h''\<rparr>)
     [Block_Conn DirInbound True, Allow_Conn DirInbound True, Block_Conn DirInbound False]))
     [Some ''h'', Some ''inbound'', None] = 2"
proof -
  let ?es = "[Block_Conn DirInbound True, Allow_Conn DirInbound True, Block_Conn DirInbound False]"
  have "\<forall>e \<in> set ?es. labels_valid always_valid \<lparr>rm_name = ''h''\<rparr> e" using always_labels_valid by blast
  note total = rcmgr_rows_count_events [OF apply_mutators_library this, of RcmgrConnsBlockedView "[]" DirInbound True,
      THEN conjunct2, THEN conjunct2, THEN conjunct1]
  have "length (filter (\<lambda>e. \<exists>b. e = Block_Conn DirInbound b) ?es) = 2" by (simp add: ex_bool_eq)
  with total show ?thesis by (simp only: rcmgrMetrics.simps getDirection.simps of_nat_numeral)
qed

text \<open>The middleware passes the result of the request on unchanged and counts its attempts.\<close>

lemma HandleFinalize_transparent:
  "HandleFinalize newTags env ctx start nxt w = (w1, recs, res) \<Longrightarrow> nxt w = (w1, res)"
  by (auto simp: HandleFinalize_def Let_def split: prod.splits)

lemma count_retries_bounds: "0 \<le> count_retries rs \<and> count_retries rs \<le> int (length rs)"
  by (simp add: count_retries_eq)

end
