(* ===== verification/Test_Heads.thy ===== *)
theory Test_Heads
  imports Head Bootstrap Rcmgr_Metrics
begin

text \<open>
  \<^verbatim>\<open>src/head/testing.go\<close>, heads for tests that have finished bootstrapping, and \<^verbatim>\<open>src/testing/helpers.go\<close>, a
  writer to a channel and a context with a name.

  What arrives on the status channel of a head is the argument \<open>channel\<close>: the statuses, and whether
  the channel is closed after them. A call that reads an open channel with nothing more to come does
  not return and is \<open>None\<close>. Closing a host is the argument \<open>closeHost\<close>. In theory \<open>Bootstrap\<close> the
  channel of a head is \<open>boot_channel\<close>.
\<close>

section \<open>Test heads\<close>

text \<open>The loop over the channel: the errors it prints.\<close>

fun test_receive :: "bootstrap_status list \<Rightarrow> bool \<Rightarrow> go_error list option" where
  "test_receive [] isClosed = (if isClosed then Some [] else None)"
| "test_receive (status # rest) isClosed =
     (case test_receive rest isClosed of
        None \<Rightarrow> None
      | Some printed \<Rightarrow> Some ((case st_Err status of None \<Rightarrow> [] | Some e \<Rightarrow> [e]) @ printed))"

definition test_defaults :: "'h \<Rightarrow> ('h, 'b) head_option list" where
  "test_defaults mapDatastore = [Datastore (Some mapDatastore), BootstrapPeers []]"

definition SpawnTestHead ::
    "('w, 'h, 'b) head_env \<Rightarrow> 'h \<Rightarrow> (('h, 'b) head \<Rightarrow> 'w \<Rightarrow> bootstrap_status list \<times> bool) \<Rightarrow>
     string option \<Rightarrow> ('h, 'b) head_option list \<Rightarrow> 'w \<Rightarrow> ('w \<times> ('h, 'b) head outcome) option" where
  "SpawnTestHead env mapDatastore channel ctx options w =
     (case NewHead env ctx (test_defaults mapDatastore @ options) w of
        (w1, Error err) \<Rightarrow> Some (w1, Error err)
      | (w1, Panic p) \<Rightarrow> Some (w1, Panic p)
      | (w1, Ok hed) \<Rightarrow>
          (case channel hed w1 of (statuses, isClosed) \<Rightarrow>
             map_option (\<lambda>printed. (w1, Ok hed)) (test_receive statuses isClosed)))"

fun close_all :: "('h \<Rightarrow> 'w \<Rightarrow> 'w) \<Rightarrow> ('h, 'b) head list \<Rightarrow> 'w \<Rightarrow> 'w" where
  "close_all closeHost [] w = w"
| "close_all closeHost (nd # hds) w = close_all closeHost hds (closeHost (hd_Host nd) w)"

text \<open>The loop of \<open>SpawnTestHeads\<close> with the heads it has so far and the number still to make; \<open>spawn\<close> is
  \<open>SpawnTestHead\<close> with the options of the call.\<close>

fun spawn_test_heads ::
    "('w \<Rightarrow> ('w \<times> ('h, 'b) head outcome) option) \<Rightarrow> ('h \<Rightarrow> 'w \<Rightarrow> 'w) \<Rightarrow>
     ('h, 'b) head list \<Rightarrow> nat \<Rightarrow> 'w \<Rightarrow> ('w \<times> ('h, 'b) head list outcome) option" where
  "spawn_test_heads spawn closeHost hds 0 w = Some (w, Ok hds)"
| "spawn_test_heads spawn closeHost hds (Suc n) w =
     (case spawn w of
        None \<Rightarrow> None
      | Some (w1, Panic p) \<Rightarrow> Some (w1, Panic p)
      | Some (w1, Error err) \<Rightarrow> Some (close_all closeHost hds w1, Error err)
      | Some (w1, Ok hed) \<Rightarrow> spawn_test_heads spawn closeHost (hds @ [hed]) n w1)"

definition SpawnTestHeads ::
    "('w, 'h, 'b) head_env \<Rightarrow> 'h \<Rightarrow> (('h, 'b) head \<Rightarrow> 'w \<Rightarrow> bootstrap_status list \<times> bool) \<Rightarrow> ('h \<Rightarrow> 'w \<Rightarrow> 'w) \<Rightarrow>
     string option \<Rightarrow> int \<Rightarrow> ('h, 'b) head_option list \<Rightarrow> 'w \<Rightarrow> ('w \<times> ('h, 'b) head list outcome) option" where
  "SpawnTestHeads env mapDatastore channel closeHost ctx n options w =
     spawn_test_heads (SpawnTestHead env mapDatastore channel ctx options) closeHost [] (nat n) w"

text \<open>The channel of a head whose goroutines have come to rest.\<close>

definition boot_channel :: "boot \<Rightarrow> bootstrap_status list \<times> bool" where
  "boot_channel b = (bt_sent b, bt_phase b = Finished)"

section \<open>Helpers\<close>

text \<open>\<open>Write\<close> copies its argument, so what was sent does not change with the caller's buffer.\<close>

record chan_writer =
  cw_C :: "bytes list"            \<comment> \<open>the slices sent so far\<close>

definition NewChanWriter :: chan_writer where
  "NewChanWriter = \<lparr>cw_C = []\<rparr>"

definition ChanWriter_Write :: "bytes \<Rightarrow> chan_writer \<Rightarrow> chan_writer \<times> int \<times> go_error option" where
  "ChanWriter_Write p w =
     (let d = take (length p) p @ drop (length p) (replicate (length p) 0)
      in (w\<lparr>cw_C := cw_C w @ [d]\<rparr>, int (length p), None))"

text \<open>\<open>None\<close> is the panic on a tag that is refused.\<close>

definition NewContext :: "tag_new \<Rightarrow> tags option" where
  "NewContext newTags = newTags Map.empty [Upsert ''name'' ''test'']"

lemma ChanWriter_Write_bytes:
  "ChanWriter_Write p w = (w\<lparr>cw_C := cw_C w @ [p]\<rparr>, int (length p), None)"
  by (simp add: ChanWriter_Write_def)

lemma NewContext_name:
  assumes "tag_library valid newTags" "valid ''test''"
  shows "NewContext newTags = Some [''name'' \<mapsto> ''test'']"
  using assms by (simp add: NewContext_def tag_library_def)

section \<open>Facts\<close>

lemma test_receive_eq:
  "test_receive statuses isClosed =
     (if isClosed then Some (fst (handleBootstrapStatus statuses)) else None)"
  by (induction statuses isClosed rule: test_receive.induct)
    (auto simp: handleBootstrapStatus_eq split: option.split)

text \<open>A test head has the DHT's bootstrap peers unless its options give others: \<open>BootstrapPeers\<close>
  ignores the empty list of the defaults.\<close>

lemma test_head_default_peers:
  "ho_BootstrapPeers (head_config env (test_defaults mapDatastore)) =
     dd_DefaultBootstrapPeers (hv_defaults env)"
  by (simp add: head_config_def Options_Apply_def test_defaults_def Defaults_def Datastore_def BootstrapPeers_def)

text \<open>A head whose bootstrapping was cancelled keeps the helper waiting.\<close>

lemma cancelled_test_head_hangs:
  assumes "NewHead env ctx (test_defaults mapDatastore @ options) w = (w1, Ok hed)"
    and "channel hed w1 = boot_channel b" "bt_phase b = Gave_up token"
  shows "SpawnTestHead env mapDatastore channel ctx options w = None"
  using assms by (simp add: SpawnTestHead_def boot_channel_def test_receive_eq)

text \<open>A sequence of heads spawned one after the other.\<close>

fun spawned ::
    "('w \<Rightarrow> ('w \<times> ('h, 'b) head outcome) option) \<Rightarrow> 'w \<Rightarrow> ('h, 'b) head list \<Rightarrow> 'w \<Rightarrow> bool" where
  "spawned spawn w [] w' \<longleftrightarrow> w' = w"
| "spawned spawn w (hed # hds) w' \<longleftrightarrow> (\<exists>w1. spawn w = Some (w1, Ok hed) \<and> spawned spawn w1 hds w')"

lemma spawn_test_heads_trace:
  assumes "spawn_test_heads spawn closeHost hds0 n w = Some (w', r)"
  shows "\<exists>hds w1. spawned spawn w hds w1 \<and>
    (case r of
       Ok all \<Rightarrow> all = hds0 @ hds \<and> length hds = n \<and> w' = w1
     | Error e \<Rightarrow> length hds < n \<and>
         (\<exists>w2. spawn w1 = Some (w2, Error e) \<and> w' = close_all closeHost (hds0 @ hds) w2)
     | Panic p \<Rightarrow> length hds < n \<and> spawn w1 = Some (w', Panic p))"
  using assms
proof (induction n arbitrary: hds0 w)
  case 0
  then show ?case by (intro exI [of _ "[]"]) auto
next
  case (Suc n)
  from Suc.prems consider (Fails) w1 e where "spawn w = Some (w1, Error e)" "w' = close_all closeHost hds0 w1" "r = Error e"
    | (Panics) p where "spawn w = Some (w', Panic p)" "r = Panic p"
    | (Goes) w1 hed where "spawn w = Some (w1, Ok hed)" "spawn_test_heads spawn closeHost (hds0 @ [hed]) n w1 = Some (w', r)"
    by (auto split: option.splits prod.splits outcome.splits)
  then show ?case
  proof cases
    case Goes
    from Suc.IH [OF Goes(2)] obtain hds w2 where "spawned spawn w1 hds w2"
      "case r of Ok all \<Rightarrow> all = (hds0 @ [hed]) @ hds \<and> length hds = n \<and> w' = w2
       | Error e \<Rightarrow> length hds < n \<and>
           (\<exists>w3. spawn w2 = Some (w3, Error e) \<and> w' = close_all closeHost ((hds0 @ [hed]) @ hds) w3)
       | Panic p \<Rightarrow> length hds < n \<and> spawn w2 = Some (w', Panic p)" by blast
    with Goes(1) show ?thesis
      by (intro exI [of _ "hed # hds"] exI [of _ w2]) (auto split: outcome.splits)
  qed (auto intro!: exI [of _ "[]"])
qed

lemma spawned_cfg:
  "spawned (SpawnTestHead env mapDatastore channel ctx options) w hds w' \<Longrightarrow>
   \<forall>hed \<in> set hds. hd_cfg hed = head_config env (test_defaults mapDatastore @ options)"
proof (induction hds arbitrary: w)
  case (Cons hed hds)
  then obtain w1 where w1: "SpawnTestHead env mapDatastore channel ctx options w = Some (w1, Ok hed)"
      "spawned (SpawnTestHead env mapDatastore channel ctx options) w1 hds w'" by auto
  then have "NewHead env ctx (test_defaults mapDatastore @ options) w = (w1, Ok hed)"
    by (auto simp: SpawnTestHead_def split: prod.splits outcome.splits)
  with Cons.IH [OF w1(2)] NewHead_cfg show ?case by fastforce
qed simp

section \<open>Properties\<close>

text \<open>
  Test heads are all made or all closed. When \<open>SpawnTestHeads\<close> returns, some heads have been spawned
  one after the other, each with the test defaults followed by the options of the call. It returns
  exactly these, and then they are \<open>n\<close>; or the next one failed with the error it returns, and then
  the hosts of all of them have been closed, in the order in which they were made, and nothing else
  was done after the failure. Only a panic leaves heads open.
\<close>

theorem SpawnTestHeads_all_or_none:
  assumes "SpawnTestHeads env mapDatastore channel closeHost ctx n options w = Some (w', r)"
  shows "\<exists>hds w1. spawned (SpawnTestHead env mapDatastore channel ctx options) w hds w1 \<and>
    (\<forall>hed \<in> set hds. hd_cfg hed = head_config env (test_defaults mapDatastore @ options)) \<and>
    (case r of
       Ok all \<Rightarrow> all = hds \<and> length all = nat n \<and> w' = w1
     | Error e \<Rightarrow> int (length hds) < n \<and>
         (\<exists>w2. SpawnTestHead env mapDatastore channel ctx options w1 = Some (w2, Error e) \<and>
            w' = fold (\<lambda>hed. closeHost (hd_Host hed)) hds w2)
     | Panic p \<Rightarrow> SpawnTestHead env mapDatastore channel ctx options w1 = Some (w', Panic p))"
proof -
  have close: "close_all closeHost hds w2 = fold (\<lambda>hed. closeHost (hd_Host hed)) hds w2"
    for hds :: "('b, 'c) head list" and w2
    by (induction hds arbitrary: w2) auto
  from spawn_test_heads_trace [OF assms [unfolded SpawnTestHeads_def]] obtain hds w1 where
    t: "spawned (SpawnTestHead env mapDatastore channel ctx options) w hds w1"
      "case r of
         Ok all \<Rightarrow> all = [] @ hds \<and> length hds = nat n \<and> w' = w1
       | Error e \<Rightarrow> length hds < nat n \<and>
           (\<exists>w2. SpawnTestHead env mapDatastore channel ctx options w1 = Some (w2, Error e) \<and>
              w' = close_all closeHost ([] @ hds) w2)
       | Panic p \<Rightarrow> length hds < nat n \<and> SpawnTestHead env mapDatastore channel ctx options w1 = Some (w', Panic p)"
    by blast
  from t(2) have "case r of
       Ok all \<Rightarrow> all = hds \<and> length all = nat n \<and> w' = w1
     | Error e \<Rightarrow> int (length hds) < n \<and>
         (\<exists>w2. SpawnTestHead env mapDatastore channel ctx options w1 = Some (w2, Error e) \<and>
            w' = fold (\<lambda>hed. closeHost (hd_Host hed)) hds w2)
     | Panic p \<Rightarrow> SpawnTestHead env mapDatastore channel ctx options w1 = Some (w', Panic p)"
    by (cases r) (auto simp: close)
  with t(1) spawned_cfg [OF t(1)] show ?thesis by blast
qed

text \<open>Hosts are numbers; the third cannot be made. The world is the next host and the closed hosts.\<close>

definition example_test_env :: "(nat \<times> nat list, nat, unit) head_env" where
  "example_test_env =
     \<lparr>hv_NewConnManager = (\<lambda>_ _ _. Ok 0), hv_InfiniteLimiter = 0, hv_OpenLimits = (\<lambda>_ _. Ok 0),
      hv_LimiterFromJSON = (\<lambda>_. Ok 0), hv_DefaultLimits = \<lparr>rl_ConnsOutbound = 0, rl_ConnsInbound = 0,
        rl_Conns = 0, rl_inc_Conns = 0, rl_inc_ConnsInbound = 0, rl_inc_ConnsOutbound = 0\<rparr>,
      hv_AutoScaleLimiter = (\<lambda>_. 0), hv_NewResourceManager = (\<lambda>_ _. Ok 0),
      hv_NewHost = (\<lambda>_ (n, cl). if n = 2 then ((n, cl), Error (Errorf ''no port'')) else ((Suc n, cl), Ok n)),
      hv_BuildStore = (\<lambda>_ _ _ w. (w, Ok 0)), hv_NewLRU = (\<lambda>_ _. Ok 0),
      hv_NewProviderManager = (\<lambda>_ _ _ w. (w, Ok 0)), hv_RunProviderRecordsTask = (\<lambda>_ _ _ w. w),
      hv_NewDHT = (\<lambda>_ _ w. (w, Ok 0)), hv_SetRouter = (\<lambda>_ _ w. w), hv_Bootstrap = (\<lambda>_ w. w),
      hv_UserAgent = ''hydra-booster/'',
      hv_defaults = \<lparr>dd_MapDatastore = 0, dd_DefaultPrefix = ''/ipfs'', dd_DefaultBootstrapPeers = []\<rparr>\<rparr>"

abbreviation example_spawn_test_heads :: "int \<Rightarrow> ((nat \<times> nat list) \<times> (nat, unit) head list outcome) option" where
  "example_spawn_test_heads n \<equiv> SpawnTestHeads example_test_env 0 (\<lambda>_ _. ([], True))
     (\<lambda>h (n, cl). (n, cl @ [h])) (Some ''test'') n [] (0, [])"

lemma example_spawn_test_heads_value:
  "\<exists>e. example_spawn_test_heads 3 = Some ((2, [0, 1]), Error e)"
proof -
  have rm: "buildRcmgr example_test_env (Some ''test'') b f w = Ok 0" for b f w
    by (simp add: buildRcmgr_def rcmgr_limiter_def CreateRcmgrMetrics_def example_test_env_def)
  have ps: "head_provider_store example_test_env cfg node w = (w, Ok 0)" for cfg node w
    by (simp add: head_provider_store_def newDefaultProviderStore_def example_test_env_def split: option.split)
  let ?head = "\<lambda>node cfg. \<lparr>hd_Host = node, hd_Datastore = ho_Datastore cfg, hd_Routing = 0, hd_cfg = cfg\<rparr>"
  have dht: "head_start_dht example_test_env cfg node s w = (w, Ok (?head node cfg))" for cfg node s w
    by (simp add: head_start_dht_def example_test_env_def Let_def)
  have cm: "hv_NewConnManager example_test_env l h g = Ok 0" for l h g by (simp add: example_test_env_def)
  have nh: "hv_NewHost example_test_env o1 (n, cl) =
      (if n = 2 then ((n, cl), Error (Errorf ''no port'')) else ((Suc n, cl), Ok n))" for o1 n cl
    by (simp add: example_test_env_def)
  have ok: "SpawnTestHead example_test_env 0 (\<lambda>_ _. ([], True)) (Some ''test'') [] (n, cl) =
      Some ((Suc n, cl), Ok (?head n (head_config example_test_env (test_defaults 0))))" if "n \<noteq> 2" for n cl
    using that by (simp add: SpawnTestHead_def NewHead_def Let_def cm rm head_start_host_def nh ps dht)
  have bad: "\<exists>e. SpawnTestHead example_test_env 0 (\<lambda>_ _. ([], True)) (Some ''test'') [] (2, cl) =
      Some ((2, cl), Error e)" for cl
    by (simp add: SpawnTestHead_def NewHead_def Let_def cm rm head_start_host_def nh)
  show ?thesis using bad [of "[]"] ok [of 0 "[]"] ok [of "Suc 0" "[]"]
    by (auto simp: SpawnTestHeads_def numeral_3_eq_3 numeral_2_eq_2)
qed

theorem SpawnTestHeads_all_or_none_witness:
  "\<exists>hds w1 w2 e. spawned (SpawnTestHead example_test_env 0 (\<lambda>_ _. ([], True)) (Some ''test'') []) (0, []) hds w1 \<and>
     SpawnTestHead example_test_env 0 (\<lambda>_ _. ([], True)) (Some ''test'') [] w1 = Some (w2, Error e) \<and>
     (2, [0, 1]) = fold (\<lambda>hed (n, cl). (n, cl @ [hd_Host hed])) hds w2"
proof -
  obtain e where "example_spawn_test_heads 3 = Some ((2, [0, 1]), Error e)"
    using example_spawn_test_heads_value by blast
  from SpawnTestHeads_all_or_none [OF this] show ?thesis unfolding outcome.case by (elim exE conjE) (intro exI conjI)
qed

end
