(* ===== verification/Xor_Trie.thy ===== *)
theory Xor_Trie
  imports Hydra_Prelude
begin

text \<open>
  \<^verbatim>\<open>src/idgen/xortrie.go\<close>: the trie over equal-length bit vectors in which the identity
  generator stores the DHT keys of its identities. A Go pointer that may be nil is an \<open>option\<close>;
  the nodes form a tree with one owner each, so the in-place updates are modelled by returning
  the new node. A run-time panic (index out of range, nil dereference) is \<open>None\<close>.
\<close>

section \<open>The code\<close>

type_synonym trie_key = bytes

definition BitAt :: "trie_key \<Rightarrow> nat \<Rightarrow> bool option" where
  "BitAt bs offset =
     (if offset div 8 < length bs
      then Some (\<not> (bs ! (offset div 8) AND push_bit (offset mod 8) 1) = 0)
      else None)"

definition BitLen :: "trie_key \<Rightarrow> nat" where
  "BitLen bs = 8 * length bs"

definition TrieKeyEqual :: "trie_key \<Rightarrow> trie_key \<Rightarrow> bool" where
  "TrieKeyEqual x y \<longleftrightarrow> x = y"

datatype xor_trie = XorTrie (branch0: "xor_trie option") (branch1: "xor_trie option")
  (key: "trie_key option")

definition NewXorTrie :: xor_trie where
  "NewXorTrie = XorTrie None None None"

text \<open>\<open>trie.branch[b]\<close>, read and written; \<open>trie.key = k\<close>.\<close>

fun branch :: "xor_trie \<Rightarrow> bool \<Rightarrow> xor_trie option" where
  "branch (XorTrie b0 b1 k) b = (if b then b1 else b0)"

fun set_branch :: "xor_trie \<Rightarrow> bool \<Rightarrow> xor_trie \<Rightarrow> xor_trie" where
  "set_branch (XorTrie b0 b1 k) b t = (if b then XorTrie b0 (Some t) k else XorTrie (Some t) b1 k)"

fun set_key :: "xor_trie \<Rightarrow> trie_key option \<Rightarrow> xor_trie" where
  "set_key (XorTrie b0 b1 _) k = XorTrie b0 b1 k"

definition max_int :: "nat \<Rightarrow> nat \<Rightarrow> nat" where
  "max_int x y = (if x > y then x else y)"

lemma size_branch [termination_simp]: "branch t b = Some t' \<Longrightarrow> size t' < size t"
  by (cases t) (auto split: if_splits)

fun depth_from :: "xor_trie option \<Rightarrow> nat \<Rightarrow> nat option" where
  "depth_from None depth = None"
| "depth_from (Some (XorTrie b0 b1 k)) depth =
     (if b0 = None \<and> b1 = None then Some depth
      else case depth_from b0 (depth + 1) of
             None \<Rightarrow> None
           | Some x \<Rightarrow> (case depth_from b1 (depth + 1) of
                          None \<Rightarrow> None
                        | Some y \<Rightarrow> Some (max_int x y)))"

definition XorTrie_Depth :: "xor_trie \<Rightarrow> nat option" where
  "XorTrie_Depth trie = depth_from (Some trie) 0"

definition isEmptyLeaf :: "xor_trie option \<Rightarrow> bool option" where
  "isEmptyLeaf p = (case p of None \<Rightarrow> None
     | Some trie \<Rightarrow> Some (key trie = None \<and> branch trie False = None \<and> branch trie True = None))"

definition isNonEmptyLeaf :: "xor_trie option \<Rightarrow> bool option" where
  "isNonEmptyLeaf p = (case p of None \<Rightarrow> None
     | Some trie \<Rightarrow> Some (key trie \<noteq> None \<and> branch trie False = None \<and> branch trie True = None))"

lemma BitAt_Some_less: "BitAt q i = Some b \<Longrightarrow> i < BitLen q"
  by (auto simp: BitAt_def BitLen_def split: if_splits)

function insert_at :: "xor_trie \<Rightarrow> nat \<Rightarrow> trie_key \<Rightarrow> (xor_trie \<times> nat \<times> bool) option" where
  "insert_at trie depth q =
     (case BitAt q depth of
        None \<Rightarrow> None
      | Some b \<Rightarrow>
          (case branch trie b of
             Some qb \<Rightarrow>
               (case insert_at qb (depth + 1) q of
                  None \<Rightarrow> None
                | Some (qb', d, ok) \<Rightarrow> Some (set_branch trie b qb', d, ok))
           | None \<Rightarrow>
               (case key trie of
                  None \<Rightarrow> Some (set_key trie (Some q), depth, True)
                | Some p \<Rightarrow>
                    if TrieKeyEqual p q then Some (trie, depth, False)
                    else
                      (case BitAt p depth of
                         None \<Rightarrow> None
                       | Some bp \<Rightarrow>
                           (case insert_at NewXorTrie (depth + 1) p of
                              None \<Rightarrow> None
                            | Some (pb, _, _) \<Rightarrow>
                                let trie1 = set_branch (XorTrie (Some NewXorTrie) (Some NewXorTrie) None) bp pb
                                in (case branch trie1 b of
                                      None \<Rightarrow> None
                                    | Some qb \<Rightarrow>
                                        (case insert_at qb (depth + 1) q of
                                           None \<Rightarrow> None
                                         | Some (qb', d, ok) \<Rightarrow> Some (set_branch trie1 b qb', d, ok))))))))"
  by pat_completeness auto
termination
  by (relation "measure (\<lambda>(t, d, q). if t = NewXorTrie then 0 else Suc (BitLen q - d))")
     (auto simp: NewXorTrie_def dest!: BitAt_Some_less split: if_splits)

definition XorTrie_Insert :: "xor_trie \<Rightarrow> trie_key \<Rightarrow> (xor_trie \<times> nat \<times> bool) option" where
  "XorTrie_Insert trie q = insert_at trie 0 q"

definition shrink :: "xor_trie \<Rightarrow> xor_trie option" where
  "shrink trie =
     (let b0 = branch trie False; b1 = branch trie True in
      case andalso (isEmptyLeaf b0) (isEmptyLeaf b1) of
        None \<Rightarrow> None
      | Some True \<Rightarrow> Some (XorTrie None None (key trie))
      | Some False \<Rightarrow>
          (case andalso (isEmptyLeaf b0) (isNonEmptyLeaf b1) of
             None \<Rightarrow> None
           | Some True \<Rightarrow> Some (XorTrie None None (key (the b1)))
           | Some False \<Rightarrow>
               (case andalso (isNonEmptyLeaf b0) (isEmptyLeaf b1) of
                  None \<Rightarrow> None
                | Some True \<Rightarrow> Some (XorTrie None None (key (the b0)))
                | Some False \<Rightarrow> Some trie)))"

fun remove_at :: "xor_trie \<Rightarrow> nat \<Rightarrow> trie_key \<Rightarrow> (xor_trie \<times> nat \<times> bool) option" where
  "remove_at trie depth q =
     (case BitAt q depth of
        None \<Rightarrow> None
      | Some b \<Rightarrow>
          (case branch trie b of
             Some qb \<Rightarrow>
               (case remove_at qb (depth + 1) q of
                  None \<Rightarrow> None
                | Some (qb', d, ok) \<Rightarrow>
                    if ok
                    then (case shrink (set_branch trie b qb') of
                            None \<Rightarrow> None
                          | Some trie' \<Rightarrow> Some (trie', d, True))
                    else Some (set_branch trie b qb', d, False))
           | None \<Rightarrow>
               if (case key trie of None \<Rightarrow> False | Some k \<Rightarrow> TrieKeyEqual q k)
               then Some (set_key trie None, depth, True)
               else Some (trie, depth, False)))"

definition XorTrie_Remove :: "xor_trie \<Rightarrow> trie_key \<Rightarrow> (xor_trie \<times> nat \<times> bool) option" where
  "XorTrie_Remove trie q = remove_at trie 0 q"

declare insert_at.simps [simp del] remove_at.simps [simp del]


section \<open>Specification: key sets, canonical tries\<close>

text \<open>
  \<open>bitval k i\<close> is bit \<open>i\<close> of a key, \<open>agree d p q\<close> says that two keys share their first \<open>d\<close>
  bits, and \<open>has_prefix ps k\<close> that \<open>k\<close> starts with the bits \<open>ps\<close> of a path from the root.
\<close>

definition bitval :: "trie_key \<Rightarrow> nat \<Rightarrow> bool" where
  "bitval k i = bit (k ! (i div 8)) (i mod 8)"

definition agree :: "nat \<Rightarrow> trie_key \<Rightarrow> trie_key \<Rightarrow> bool" where
  "agree d p q \<longleftrightarrow> (\<forall>i < d. bitval p i = bitval q i)"

definition has_prefix :: "bool list \<Rightarrow> trie_key \<Rightarrow> bool" where
  "has_prefix ps k \<longleftrightarrow> (\<forall>i < length ps. bitval k i = ps ! i)"

fun keys :: "xor_trie \<Rightarrow> trie_key list" where
  "keys (XorTrie b0 b1 k) =
     (case k of None \<Rightarrow> [] | Some x \<Rightarrow> [x]) @
     (case b0 of None \<Rightarrow> [] | Some l \<Rightarrow> keys l) @
     (case b1 of None \<Rightarrow> [] | Some r \<Rightarrow> keys r)"

text \<open>
  The invariant at a node reached by the path \<open>ps\<close>, for keys of \<open>L\<close> bytes: values only in the
  leaves, every key below the node starts with the path, the node is less than \<open>8 * L\<close> deep (so
  that \<open>BitAt\<close> is in range), and the trie is fully shrunk: below an inner node there are at
  least two keys.
\<close>

fun wf_trie :: "nat \<Rightarrow> bool list \<Rightarrow> xor_trie \<Rightarrow> bool" where
  "wf_trie L ps (XorTrie None None None) = (length ps < 8 * L)"
| "wf_trie L ps (XorTrie None None (Some k)) =
     (length ps < 8 * L \<and> length k = L \<and> has_prefix ps k)"
| "wf_trie L ps (XorTrie (Some l) (Some r) None) =
     (wf_trie L (ps @ [False]) l \<and> wf_trie L (ps @ [True]) r \<and>
      2 \<le> length (keys l) + length (keys r))"
| "wf_trie L ps _ = False"

abbreviation leaf :: "trie_key \<Rightarrow> xor_trie" where
  "leaf k \<equiv> XorTrie None None (Some k)"

text \<open>
  The depth at which a key \<open>q\<close> sits (or would sit) in the canonical trie of the keys \<open>K\<close>, below
  depth \<open>d0\<close>: the least depth at which no other key shares the prefix of \<open>q\<close>.
\<close>

definition leaf_depth :: "nat \<Rightarrow> trie_key set \<Rightarrow> trie_key \<Rightarrow> nat \<Rightarrow> bool" where
  "leaf_depth d0 K q e \<longleftrightarrow>
     d0 \<le> e \<and> (\<forall>k \<in> K - {q}. \<not> agree e k q) \<and>
     (e = d0 \<or> (\<exists>k \<in> K - {q}. agree (e - 1) k q))"

subsection \<open>Bits and prefixes\<close>

lemma BitAt_eq [go_simps]: "BitAt q i = (if i < BitLen q then Some (bitval q i) else None)"
proof -
  have "i div 8 < length q \<longleftrightarrow> i < BitLen q"
    by (auto simp: BitLen_def)
  then show ?thesis
    by (simp add: BitAt_def bitval_def bit_iff_and_push_bit_not_eq_0)
qed

lemma agree_0 [simp]: "agree 0 p q"
  by (simp add: agree_def)

lemma agree_mono: "agree d p q \<Longrightarrow> e \<le> d \<Longrightarrow> agree e p q"
  by (auto simp: agree_def)

lemma agree_Suc: "agree (Suc d) p q \<longleftrightarrow> agree d p q \<and> bitval p d = bitval q d"
  by (auto simp: agree_def less_Suc_eq)

lemma agree_sym: "agree d p q \<longleftrightarrow> agree d q p"
  by (auto simp: agree_def)

lemma agree_full_eq:
  assumes "length p = L" "length q = L" "agree (8 * L) p q"
  shows "p = q"
proof (rule nth_equalityI)
  show "length p = length q" using assms by simp
next
  fix j assume j: "j < length p"
  show "p ! j = q ! j"
  proof (rule bit_word_eqI)
    fix n assume n: "n < LENGTH(8)"
    have "8 * j + n < 8 * L" using j n assms(1) by simp
    then have "bitval p (8 * j + n) = bitval q (8 * j + n)"
      using assms(3) by (simp add: agree_def)
    then show "bit (p ! j) n = bit (q ! j) n"
      using n by (simp add: bitval_def)
  qed
qed

lemma has_prefix_Nil [simp]: "has_prefix [] k"
  by (simp add: has_prefix_def)

lemma has_prefix_snoc [simp]:
  "has_prefix (ps @ [b]) k \<longleftrightarrow> has_prefix ps k \<and> bitval k (length ps) = b"
  by (auto simp: has_prefix_def nth_append less_Suc_eq)

lemma has_prefix_agree: "has_prefix ps p \<Longrightarrow> has_prefix ps q \<Longrightarrow> agree (length ps) p q"
  by (simp add: has_prefix_def agree_def)

lemma leaf_depth_unique:
  assumes "leaf_depth d0 K q e" "leaf_depth d0 K q e'"
  shows "e = e'"
proof -
  have "\<not> e < e'" if "leaf_depth d0 K q e" "leaf_depth d0 K q e'" for e e'
    using that agree_mono [of "e' - 1" _ q e] unfolding leaf_depth_def by fastforce
  then show ?thesis
    using assms by (meson linorder_neqE_nat)
qed

subsection \<open>Facts about well-formed tries\<close>

lemma keys_NewXorTrie [simp]: "keys NewXorTrie = []"
  by (simp add: NewXorTrie_def)

lemma wf_NewXorTrie: "wf_trie L [] NewXorTrie \<longleftrightarrow> 0 < L"
  by (auto simp: NewXorTrie_def)

lemma wf_trie_depth: "wf_trie L ps t \<Longrightarrow> length ps < 8 * L"
  by (induction L ps t rule: wf_trie.induct) auto

lemma wf_trie_keys:
  "wf_trie L ps t \<Longrightarrow> k \<in> set (keys t) \<Longrightarrow> length k = L \<and> has_prefix ps k"
  by (induction L ps t rule: wf_trie.induct) auto

lemma wf_trie_bit:
  "wf_trie L (ps @ [b]) t \<Longrightarrow> k \<in> set (keys t) \<Longrightarrow> bitval k (length ps) = b"
  using wf_trie_keys by force

lemma wf_trie_cases [consumes 1, case_names Empty Leaf Inner]:
  assumes "wf_trie L ps t"
  obtains "t = XorTrie None None None"
    | k where "t = leaf k" "length k = L" "has_prefix ps k"
    | l r where "t = XorTrie (Some l) (Some r) None" "wf_trie L (ps @ [False]) l"
        "wf_trie L (ps @ [True]) r" "2 \<le> length (keys l) + length (keys r)"
  using assms by (cases "(L, ps, t)" rule: wf_trie.cases) auto

lemma distinct_keys: "wf_trie L ps t \<Longrightarrow> distinct (keys t)"
proof (induction L ps t rule: wf_trie.induct)
  case (3 L ps l r)
  then have "set (keys l) \<inter> set (keys r) = {}"
    by (auto dest: wf_trie_bit)
  with 3 show ?case by simp
qed auto

lemma length_keys_eq: "wf_trie L ps t \<Longrightarrow> length (keys t) = card (set (keys t))"
  by (rule distinct_card [OF distinct_keys, symmetric])

lemma inner_split:
  assumes "wf_trie L ps (XorTrie (Some l) (Some r) None)"
  shows "set (keys l) = {k \<in> set (keys (XorTrie (Some l) (Some r) None)). \<not> bitval k (length ps)}"
    and "set (keys r) = {k \<in> set (keys (XorTrie (Some l) (Some r) None)). bitval k (length ps)}"
  using assms by (auto dest: wf_trie_bit)

lemma inner_two_keys:
  assumes "wf_trie L ps (XorTrie (Some l) (Some r) None)"
  shows "\<exists>k \<in> set (keys (XorTrie (Some l) (Some r) None)). k \<noteq> q"
proof -
  let ?ks = "keys (XorTrie (Some l) (Some r) None)"
  have "2 \<le> card (set ?ks)"
    using assms length_keys_eq [OF assms] by simp
  then have "\<not> set ?ks \<subseteq> {q}"
    using card_mono [of "{q}" "set ?ks"] by auto
  then show ?thesis by blast
qed

text \<open>Canonicity: a fully shrunk trie is determined by its set of keys.\<close>

lemma wf_trie_unique:
  "wf_trie L ps t \<Longrightarrow> wf_trie L ps t' \<Longrightarrow> set (keys t) = set (keys t') \<Longrightarrow> t = t'"
proof (induction L ps t arbitrary: t' rule: wf_trie.induct)
  case (1 L ps)
  from "1.prems"(2,1,3) show ?case
    by (cases rule: wf_trie_cases) (auto simp: Suc_le_eq)
next
  case (2 L ps k)
  from "2.prems"(2) show ?case
  proof (cases rule: wf_trie_cases)
    case (Inner l r)
    with "2.prems"(2) inner_two_keys [of L ps l r k] "2.prems"(3) show ?thesis by auto
  qed (use "2.prems" in auto)
next
  case (3 L ps l r)
  from "3.prems"(2) show ?case
  proof (cases rule: wf_trie_cases)
    case Empty
    with "3.prems" show ?thesis by auto
  next
    case (Leaf k)
    with "3.prems" inner_two_keys [OF "3.prems"(1), of k] show ?thesis by auto
  next
    case (Inner l' r')
    from "3.prems"(2) Inner(1) have wf': "wf_trie L ps (XorTrie (Some l') (Some r') None)" by simp
    have K: "set (keys (XorTrie (Some l) (Some r) None)) = set (keys (XorTrie (Some l') (Some r') None))"
      using "3.prems"(3) Inner(1) by (simp only:)
    have "set (keys l) = set (keys l')"
      by (rule trans [OF inner_split(1) [OF "3.prems"(1), unfolded K] inner_split(1) [OF wf', symmetric]])
    moreover have "set (keys r) = set (keys r')"
      by (rule trans [OF inner_split(2) [OF "3.prems"(1), unfolded K] inner_split(2) [OF wf', symmetric]])
    ultimately have "l = l'" "r = r'"
      using "3.IH" "3.prems"(1) Inner by auto
    then show ?thesis by (simp add: Inner(1))
  qed
qed auto


text \<open>
  One step down: at an inner node the operations continue in the child \<open>c\<close> on the side of bit
  \<open>length ps\<close> of \<open>q\<close>; this child holds exactly the keys that agree with \<open>q\<close> one bit further.
\<close>

lemma inner_child:
  assumes "wf_trie L ps (XorTrie (Some l) (Some r) None)" (is "wf_trie L ps ?t")
    and "has_prefix ps q" and "c = (if bitval q (length ps) then r else l)"
  shows "set (keys c) = {k \<in> set (keys ?t). agree (Suc (length ps)) k q}"
proof -
  have "agree (length ps) k q" if "k \<in> set (keys ?t)" for k
    using wf_trie_keys [OF assms(1) that] assms(2) by (auto intro: has_prefix_agree)
  with assms(1,3) show ?thesis
    by (auto simp: agree_Suc dest: wf_trie_bit)
qed

lemma inner_child_leaf_depth:
  assumes wf: "wf_trie L ps (XorTrie (Some l) (Some r) None)" (is "wf_trie L ps ?t")
    and q: "has_prefix ps q" and c: "c = (if bitval q (length ps) then r else l)"
    and e: "leaf_depth (Suc (length ps)) (set (keys c)) q e"
  shows "leaf_depth (length ps) (set (keys ?t)) q e"
proof -
  note in_c = inner_child [OF wf q c]
  obtain k where k: "k \<in> set (keys ?t)" "k \<noteq> q" "agree (length ps) k q"
    using inner_two_keys [OF wf, of q] wf_trie_keys [OF wf] q by (auto intro: has_prefix_agree)
  have "\<not> agree e k' q" if "k' \<in> set (keys ?t) - {q}" for k'
    using that e agree_mono [of e k' q "Suc (length ps)"] unfolding leaf_depth_def in_c by auto
  moreover have "\<exists>k \<in> set (keys ?t) - {q}. agree (e - 1) k q"
    using e k unfolding leaf_depth_def in_c by auto
  ultimately show ?thesis
    using e unfolding leaf_depth_def by auto
qed

lemma wf_set_branch:
  assumes "wf_trie L ps (XorTrie (Some l) (Some r) None)" (is "wf_trie L ps ?t")
    and "c = (if b then r else l)"
    and "wf_trie L (ps @ [b]) c'" "length (keys c) \<le> length (keys c')"
  shows "wf_trie L ps (set_branch ?t b c')"
  using assms by auto

section \<open>Insert\<close>

lemma insert_at_empty:
  "insert_at NewXorTrie d q = (if d < BitLen q then Some (leaf q, d, True) else None)"
  unfolding NewXorTrie_def by (simp add: insert_at.simps [of "XorTrie None None None"] BitAt_eq)

text \<open>The two children of a node that was split: the old key on its side, a fresh leaf on the other.\<close>

definition split_node :: "bool \<Rightarrow> xor_trie \<Rightarrow> xor_trie" where
  "split_node b t = set_branch (XorTrie (Some NewXorTrie) (Some NewXorTrie) None) b t"

lemma insert_at_leaf:
  assumes "length p = L" "length q = L" "p \<noteq> q" "d < 8 * L"
  shows "insert_at (leaf p) d q =
    (if Suc d < 8 * L
     then if bitval q d = bitval p d
          then map_option (\<lambda>(t, e, ok). (split_node (bitval p d) t, e, ok)) (insert_at (leaf p) (Suc d) q)
          else Some (set_branch (split_node (bitval p d) (leaf p)) (bitval q d) (leaf q), Suc d, True)
     else None)"
  using assms
  by (auto simp: insert_at.simps [of "leaf p" d q] BitAt_eq BitLen_def TrieKeyEqual_def
      insert_at_empty split_node_def Let_def split: option.split prod.split)

lemma insert_at_leaf_collide:
  assumes "length p = L" "length q = L" "p \<noteq> q" "d < 8 * L" "agree (8 * L - 1) p q"
  shows "insert_at (leaf p) d q = None"
  using assms(4)
proof (induction "8 * L - d" arbitrary: d rule: less_induct)
  case less
  have "insert_at (leaf p) (Suc d) q = None \<and> bitval p d = bitval q d" if "Suc d < 8 * L"
    using that less assms(5) by (simp add: agree_def)
  with less.prems assms(1-3) show ?case by (auto simp: insert_at_leaf)
qed

lemma wf_split_node:
  assumes "wf_trie L (ps @ [b]) t" "2 \<le> length (keys t)" "Suc (length ps) < 8 * L"
  shows "wf_trie L ps (split_node b t)" "keys (split_node b t) = keys t"
  using assms by (auto simp: split_node_def NewXorTrie_def)

lemma insert_at_leaf_ok:
  assumes "length p = L" "length q = L" "p \<noteq> q" "\<not> agree (8 * L - 1) p q"
  shows "has_prefix ps p \<Longrightarrow> has_prefix ps q \<Longrightarrow> length ps < 8 * L \<Longrightarrow>
    \<exists>t e. insert_at (leaf p) (length ps) q = Some (t, e, True) \<and> wf_trie L ps t \<and>
      set (keys t) = {p, q} \<and> length ps < e \<and> agree (e - 1) p q \<and> \<not> agree e p q"
proof (induction "8 * L - length ps" arbitrary: ps rule: less_induct)
  case less
  let ?d = "length ps"
  have ag: "agree ?d p q" by (rule has_prefix_agree) fact+
  have d: "Suc ?d < 8 * L"
  proof (rule ccontr)
    assume "\<not> Suc ?d < 8 * L"
    with less.prems have "?d = 8 * L - 1" by simp
    with ag assms(4) show False by simp
  qed
  show ?case
  proof (cases "bitval q ?d = bitval p ?d")
    case True
    let ?ps = "ps @ [bitval p ?d]"
    obtain t e where t: "insert_at (leaf p) (length ?ps) q = Some (t, e, True)"
      "wf_trie L ?ps t" "set (keys t) = {p, q}" "length ?ps < e" "agree (e - 1) p q" "\<not> agree e p q"
      using less.hyps [of ?ps] less.prems True d by (metis (no_types) diff_less_mono2 has_prefix_snoc
        length_append_singleton lessI)
    have "length (keys t) = 2"
      using distinct_card [OF distinct_keys [OF t(2)]] t(3) assms(3) by simp
    with t wf_split_node [OF t(2) _ d] insert_at_leaf [OF assms(1-3) less.prems(3)] True d
    show ?thesis by (intro exI [of _ "split_node (bitval p ?d) t"] exI [of _ e]) simp
  next
    case False
    let ?t = "set_branch (split_node (bitval p ?d) (leaf p)) (bitval q ?d) (leaf q)"
    have "wf_trie L ps ?t" "set (keys ?t) = {p, q}"
      using False less.prems assms d by (auto simp: split_node_def NewXorTrie_def)
    with False ag insert_at_leaf [OF assms(1-3) less.prems(3)] d
    show ?thesis by (intro exI [of _ ?t] exI [of _ "Suc ?d"]) (auto simp: agree_Suc)
  qed
qed

text \<open>
  The result of \<open>insert_at\<close> at a node of a well-formed trie. It panics exactly when the trie
  holds a different key that agrees with \<open>q\<close> on all bits but the last one.
\<close>

definition clash :: "nat \<Rightarrow> trie_key set \<Rightarrow> trie_key \<Rightarrow> bool" where
  "clash L K q \<longleftrightarrow> (\<exists>k \<in> K. k \<noteq> q \<and> agree (8 * L - 1) k q)"

lemma insert_at_spec:
  "length q = L \<Longrightarrow> wf_trie L ps t \<Longrightarrow> has_prefix ps q \<Longrightarrow>
    (if clash L (set (keys t)) q then insert_at t (length ps) q = None
     else \<exists>t' e. insert_at t (length ps) q = Some (t', e, q \<notin> set (keys t)) \<and> wf_trie L ps t' \<and>
            set (keys t') = insert q (set (keys t)) \<and> leaf_depth (length ps) (set (keys t)) q e)"
proof (induction L ps t rule: wf_trie.induct)
  case (1 L ps)
  then show ?case
    using insert_at_empty [of "length ps" q]
    by (simp add: clash_def leaf_depth_def BitLen_def NewXorTrie_def)
next
  case (2 L ps k)
  show ?case
  proof (cases "k = q")
    case True
    with 2 show ?thesis
      by (simp add: clash_def leaf_depth_def insert_at.simps [of "leaf q"] BitAt_eq BitLen_def
          TrieKeyEqual_def)
  next
    case False
    with 2 have *: "length k = L" "length q = L" "k \<noteq> q" "length ps < 8 * L"
      "has_prefix ps k" by auto
    show ?thesis
    proof (cases "agree (8 * L - 1) k q")
      case True
      with False insert_at_leaf_collide [OF *(1-4)] show ?thesis by (simp add: clash_def)
    next
      case no: False
      obtain t e where "insert_at (leaf k) (length ps) q = Some (t, e, True)" "wf_trie L ps t"
        "set (keys t) = {k, q}" "length ps < e" "agree (e - 1) k q" "\<not> agree e k q"
        using insert_at_leaf_ok [OF *(1-3) no] * 2 by blast
      with False no show ?thesis
        by (auto simp: clash_def leaf_depth_def)
    qed
  qed
next
  case (3 L ps l r)
  let ?t = "XorTrie (Some l) (Some r) None" and ?d = "length ps"
  define b where "b = bitval q ?d"
  define c where "c = (if b then r else l)"
  have wf: "wf_trie L ps ?t" by fact
  have d: "Suc ?d < 8 * L" using wf wf_trie_depth by fastforce
  have wfc: "wf_trie L (ps @ [b]) c" using wf by (simp add: c_def)
  have step: "insert_at ?t ?d q =
      map_option (\<lambda>(t, e, ok). (set_branch ?t b t, e, ok)) (insert_at c (Suc ?d) q)"
    using d 3(3) by (simp add: insert_at.simps [of ?t] BitAt_eq BitLen_def b_def c_def
        split: option.split)
  note in_c = inner_child [OF wf \<open>has_prefix ps q\<close> c_def [unfolded b_def]]
  have clash: "clash L (set (keys ?t)) q \<longleftrightarrow> clash L (set (keys c)) q"
    unfolding clash_def in_c using agree_mono [of "8 * L - 1" _ q "Suc ?d"] d by auto
  have IH: "if clash L (set (keys c)) q then insert_at c (Suc ?d) q = None
     else \<exists>t' e. insert_at c (Suc ?d) q = Some (t', e, q \<notin> set (keys c)) \<and>
       wf_trie L (ps @ [b]) t' \<and> set (keys t') = insert q (set (keys c)) \<and>
       leaf_depth (Suc ?d) (set (keys c)) q e"
    using 3 unfolding length_append_singleton by (cases b) (simp_all add: b_def c_def)
  show ?case
  proof (cases "clash L (set (keys c)) q")
    case True
    with IH clash step show ?thesis by simp
  next
    case False
    with IH obtain t' e where t': "insert_at c (Suc ?d) q = Some (t', e, q \<notin> set (keys c))"
      "wf_trie L (ps @ [b]) t'" "set (keys t') = insert q (set (keys c))"
      "leaf_depth (Suc ?d) (set (keys c)) q e" by auto
    have "length (keys c) \<le> length (keys t')"
      using t'(3) card_insert_le [of "set (keys c)" q]
      by (simp only: length_keys_eq [OF t'(2)] length_keys_eq [OF wfc])
    from wf_set_branch [OF wf c_def t'(2) this]
    have "wf_trie L ps (set_branch ?t b t')" .
    moreover have "set (keys (set_branch ?t b t')) = insert q (set (keys ?t))"
      using t'(3) by (auto simp: c_def)
    moreover have "leaf_depth ?d (set (keys ?t)) q e"
      using inner_child_leaf_depth [OF wf \<open>has_prefix ps q\<close> c_def [unfolded b_def]] t'(4) .
    moreover have "q \<in> set (keys c) \<longleftrightarrow> q \<in> set (keys ?t)"
      by (simp add: in_c agree_def)
    ultimately show ?thesis using False clash step t'(1) by simp
  qed
qed auto


section \<open>Remove\<close>

lemma shrink_spec:
  assumes "wf_trie L (ps @ [False]) l" "wf_trie L (ps @ [True]) r"
  shows "\<exists>t. shrink (XorTrie (Some l) (Some r) None) = Some t \<and> wf_trie L ps t \<and>
    set (keys t) = set (keys l) \<union> set (keys r)"
  using assms(1)
proof (cases rule: wf_trie_cases)
  case Empty
  from assms(2) Empty assms(1) show ?thesis
    by (cases rule: wf_trie_cases)
       (auto simp: shrink_def isEmptyLeaf_def isNonEmptyLeaf_def)
next
  case (Leaf k)
  from assms(2) Leaf assms(1) show ?thesis
    by (cases rule: wf_trie_cases)
       (auto simp: shrink_def isEmptyLeaf_def isNonEmptyLeaf_def)
next
  case (Inner l' r')
  with assms show ?thesis
    by (auto simp: shrink_def isEmptyLeaf_def isNonEmptyLeaf_def)
qed

lemma remove_at_spec:
  "length q = L \<Longrightarrow> wf_trie L ps t \<Longrightarrow> has_prefix ps q \<Longrightarrow>
    \<exists>t' e. remove_at t (length ps) q = Some (t', e, q \<in> set (keys t)) \<and> wf_trie L ps t' \<and>
      set (keys t') = set (keys t) - {q} \<and>
      (q \<in> set (keys t) \<longrightarrow> leaf_depth (length ps) (set (keys t)) q e)"
proof (induction L ps t rule: wf_trie.induct)
  case (1 L ps)
  then show ?case
    by (simp add: remove_at.simps [of "XorTrie None None None"] BitAt_eq BitLen_def)
next
  case (2 L ps k)
  then show ?case
    by (auto simp: remove_at.simps [of "leaf k"] BitAt_eq BitLen_def TrieKeyEqual_def leaf_depth_def)
next
  case (3 L ps l r)
  let ?t = "XorTrie (Some l) (Some r) None" and ?d = "length ps"
  define b where "b = bitval q ?d"
  define c where "c = (if b then r else l)"
  have wf: "wf_trie L ps ?t" by fact
  have d: "Suc ?d < 8 * L" using wf wf_trie_depth by fastforce
  have wfc: "wf_trie L (ps @ [b]) c" using wf by (simp add: c_def)
  have step: "remove_at ?t ?d q =
      (case remove_at c (Suc ?d) q of None \<Rightarrow> None
       | Some (c', e, ok) \<Rightarrow>
           if ok then map_option (\<lambda>t. (t, e, True)) (shrink (set_branch ?t b c'))
           else Some (set_branch ?t b c', e, False))"
    using d 3(3) by (simp add: remove_at.simps [of ?t] BitAt_eq BitLen_def b_def c_def
        split: option.split)
  note in_c = inner_child [OF wf \<open>has_prefix ps q\<close> c_def [unfolded b_def]]
  have qc: "q \<in> set (keys c) \<longleftrightarrow> q \<in> set (keys ?t)"
    by (simp add: in_c agree_def)
  obtain c' e where c': "remove_at c (Suc ?d) q = Some (c', e, q \<in> set (keys c))"
      "wf_trie L (ps @ [b]) c'" "set (keys c') = set (keys c) - {q}"
      "q \<in> set (keys c) \<longrightarrow> leaf_depth (Suc ?d) (set (keys c)) q e"
    using 3 unfolding length_append_singleton by (cases b) (auto simp: b_def c_def)
  show ?case
  proof (cases "q \<in> set (keys c)")
    case True
    let ?l = "if b then l else c'" and ?r = "if b then c' else r"
    have sb: "set_branch ?t b c' = XorTrie (Some ?l) (Some ?r) None" by simp
    have "wf_trie L (ps @ [False]) ?l" "wf_trie L (ps @ [True]) ?r"
      using wf c'(2) by (auto split: if_splits)
    then obtain t' where t': "shrink (set_branch ?t b c') = Some t'" "wf_trie L ps t'"
        "set (keys t') = set (keys ?l) \<union> set (keys ?r)"
      using shrink_spec sb by metis
    have other: "q \<notin> set (keys (if b then l else r))"
      using wf by (auto simp: b_def dest: wf_trie_bit)
    have "set (keys t') = set (keys ?t) - {q}"
      unfolding t'(3) using c'(3) other by (auto simp: c_def split: if_splits)
    moreover have "leaf_depth ?d (set (keys ?t)) q e"
      using inner_child_leaf_depth [OF wf \<open>has_prefix ps q\<close> c_def [unfolded b_def]] c'(4) True by blast
    ultimately show ?thesis using step c'(1) t'(1,2) qc True by simp
  next
    case False
    then have "set (keys c') = set (keys c)" using c'(3) by simp
    then have "c' = c" using wf_trie_unique c'(2) wfc by metis
    then have "set_branch ?t b c' = ?t" by (simp add: c_def)
    with False step c'(1) qc wf show ?thesis by simp
  qed
qed auto


section \<open>Depth\<close>

lemma depth_from_bounds:
  "wf_trie L ps t \<Longrightarrow>
   \<exists>n. depth_from (Some t) (length ps) = Some (length ps + n) \<and> length ps + n < 8 * L \<and>
     length (keys t) \<le> 2 ^ n"
proof (induction L ps t rule: wf_trie.induct)
  case (3 L ps l r)
  then obtain m n where
    "depth_from (Some l) (Suc (length ps)) = Some (Suc (length ps + m))" "Suc (length ps + m) < 8 * L"
    "length (keys l) \<le> 2 ^ m"
    "depth_from (Some r) (Suc (length ps)) = Some (Suc (length ps + n))" "Suc (length ps + n) < 8 * L"
    "length (keys r) \<le> 2 ^ n" by auto
  moreover from this have "length (keys l) + length (keys r) \<le> 2 * 2 ^ max m n"
    using power_increasing [of m "max m n" "2::nat"] power_increasing [of n "max m n" "2::nat"]
    by linarith
  ultimately show ?case
    by (intro exI [of _ "Suc (max m n)"]) (auto simp: max_int_def)
qed auto

lemma depth_from_ge: "depth_from (Some t) d = Some n \<Longrightarrow> d \<le> n"
  by (induction t arbitrary: d n)
     (fastforce simp: max_int_def elim: depth_from.elims split: option.splits if_splits)

lemma depth_from_empty:
  assumes "wf_trie L ps t" "keys t = []" "depth_from (Some t) d = Some n"
  shows "n = d"
  using assms by (cases rule: wf_trie_cases) auto

lemma attained_max_Un:
  fixes x y n :: nat
  assumes "A \<noteq> {} \<Longrightarrow> (\<exists>k \<in> A. P k x) \<and> (\<forall>k \<in> A. \<exists>e \<le> x. P k e)"
    and "B \<noteq> {} \<Longrightarrow> (\<exists>k \<in> B. P k y) \<and> (\<forall>k \<in> B. \<exists>e \<le> y. P k e)"
    and "A = {} \<Longrightarrow> n = y" and "B = {} \<Longrightarrow> n = x" and "n = max x y" and "A \<union> B \<noteq> {}"
  shows "(\<exists>k \<in> A \<union> B. P k n) \<and> (\<forall>k \<in> A \<union> B. \<exists>e \<le> n. P k e)"
proof
  show "\<exists>k \<in> A \<union> B. P k n"
    using assms by (cases "A = {}"; cases "B = {}"; cases "x \<le> y") (auto simp: max_def)
  show "\<forall>k \<in> A \<union> B. \<exists>e \<le> n. P k e"
  proof
    fix k assume "k \<in> A \<union> B"
    then obtain e where "P k e" "e \<le> x \<or> e \<le> y" using assms(1,2) by blast
    with assms(5) show "\<exists>e \<le> n. P k e" by (auto simp: le_max_iff_disj)
  qed
qed

lemma depth_from_max:
  "wf_trie L ps t \<Longrightarrow> keys t \<noteq> [] \<Longrightarrow> depth_from (Some t) (length ps) = Some n \<Longrightarrow>
   (\<exists>k \<in> set (keys t). leaf_depth (length ps) (set (keys t)) k n) \<and>
   (\<forall>k \<in> set (keys t). \<exists>e \<le> n. leaf_depth (length ps) (set (keys t)) k e)"
proof (induction L ps t arbitrary: n rule: wf_trie.induct)
  case (2 L ps k)
  then show ?case by (auto simp: leaf_depth_def)
next
  case (3 L ps l r)
  let ?t = "XorTrie (Some l) (Some r) None" and ?d = "Suc (length ps)"
  have wf: "wf_trie L ps ?t" by fact
  obtain x y where x: "depth_from (Some l) ?d = Some x"
      and y: "depth_from (Some r) ?d = Some y" and n: "n = max x y"
    using "3.prems"(3) by (auto simp: max_int_def max_def split: option.splits if_splits)
  have up: "leaf_depth (length ps) (set (keys ?t)) k e"
    if "k \<in> set (keys c)" "leaf_depth ?d (set (keys c)) k e" "c = r \<and> b \<or> c = l \<and> \<not> b" for c k e b
  proof -
    have "has_prefix ps k" using that(1,3) wf_trie_keys [OF wf, of k] by auto
    moreover have "c = (if bitval k (length ps) then r else l)"
      using that(1,3) wf by (auto dest: wf_trie_bit)
    ultimately show ?thesis using inner_child_leaf_depth [OF wf _ _ that(2)] by blast
  qed
  have l: "(\<exists>k \<in> set (keys l). leaf_depth (length ps) (set (keys ?t)) k x) \<and>
      (\<forall>k \<in> set (keys l). \<exists>e \<le> x. leaf_depth (length ps) (set (keys ?t)) k e)" if "keys l \<noteq> []"
    using "3.IH"(1) [of x] that wf x up [where c = l and b = False] by (simp; blast)
  have r: "(\<exists>k \<in> set (keys r). leaf_depth (length ps) (set (keys ?t)) k y) \<and>
      (\<forall>k \<in> set (keys r). \<exists>e \<le> y. leaf_depth (length ps) (set (keys ?t)) k e)" if "keys r \<noteq> []"
    using "3.IH"(2) [of y] that wf y up [where c = r and b = True] by (simp; blast)
  have "n = y" if "keys l = []"
    using that depth_from_empty [OF _ _ x, of L "ps @ [False]"] wf depth_from_ge [OF y] n by simp
  moreover have "n = x" if "keys r = []"
    using that depth_from_empty [OF _ _ y, of L "ps @ [True]"] wf depth_from_ge [OF x] n by simp
  moreover have "set (keys ?t) = set (keys l) \<union> set (keys r)" by simp
  ultimately show ?case
    using attained_max_Un [OF _ _ _ _ n, of "set (keys l)" "leaf_depth (length ps) (set (keys ?t))"
        "set (keys r)"] l r "3.prems"(2) by auto
qed auto


section \<open>The interface the identity generator relies on\<close>

text \<open>
  The generator only uses the trie through \<open>Insert\<close> and \<open>Remove\<close>. The contract: the trie is a
  canonical representation of a set of keys; an insertion panics exactly on a clash, otherwise it
  adds the key, says whether it was new and reports the key's leaf depth; a removal is its inverse.
\<close>

fun insert_all :: "('t \<Rightarrow> 'k \<Rightarrow> ('t \<times> nat \<times> bool) option) \<Rightarrow> 't \<Rightarrow> 'k list \<Rightarrow> 't option" where
  "insert_all ins t [] = Some t"
| "insert_all ins t (k # ks) =
     (case ins t k of None \<Rightarrow> None | Some (t', _, _) \<Rightarrow> insert_all ins t' ks)"

locale key_trie =
  fixes ins :: "'t \<Rightarrow> 'k \<Rightarrow> ('t \<times> nat \<times> bool) option"
    and rem :: "'t \<Rightarrow> 'k \<Rightarrow> ('t \<times> nat \<times> bool) option"
    and elems :: "'t \<Rightarrow> 'k set"
    and invar :: "'t \<Rightarrow> bool"
    and valid :: "'k \<Rightarrow> bool"
    and clashes :: "'k set \<Rightarrow> 'k \<Rightarrow> bool"
    and dep :: "'k set \<Rightarrow> 'k \<Rightarrow> nat \<Rightarrow> bool"
  assumes ins_clash: "invar t \<Longrightarrow> valid q \<Longrightarrow> clashes (elems t) q \<Longrightarrow> ins t q = None"
    and ins_ok: "invar t \<Longrightarrow> valid q \<Longrightarrow> \<not> clashes (elems t) q \<Longrightarrow>
      \<exists>t' e. ins t q = Some (t', e, q \<notin> elems t) \<and> invar t' \<and> elems t' = insert q (elems t) \<and>
        dep (elems t) q e"
    and rem_ok: "invar t \<Longrightarrow> valid q \<Longrightarrow>
      \<exists>t' e. rem t q = Some (t', e, q \<in> elems t) \<and> invar t' \<and> elems t' = elems t - {q} \<and>
        (q \<in> elems t \<longrightarrow> dep (elems t) q e)"
    and canonical: "invar t \<Longrightarrow> invar t' \<Longrightarrow> elems t = elems t' \<Longrightarrow> t = t'"
    and clashes_mono: "clashes K q \<Longrightarrow> K \<subseteq> K' \<Longrightarrow> clashes K' q"
    and dep_unique: "dep K q e \<Longrightarrow> dep K q e' \<Longrightarrow> e = e'"
    and dep_insert: "dep (insert q K) q e \<longleftrightarrow> dep K q e"
begin

lemma ins_SomeD:
  assumes "invar t" "valid q" "ins t q = Some (t', e, ok)"
  shows "\<not> clashes (elems t) q" "invar t'" "elems t' = insert q (elems t)" "ok \<longleftrightarrow> q \<notin> elems t"
    "dep (elems t) q e"
proof -
  show "\<not> clashes (elems t) q" using ins_clash assms by fastforce
  with ins_ok [OF assms(1,2)] assms(3)
  show "invar t'" "elems t' = insert q (elems t)" "ok \<longleftrightarrow> q \<notin> elems t" "dep (elems t) q e"
    by auto
qed

lemma ins_present:
  assumes "invar t" "valid q" "q \<in> elems t" "ins t q = Some (t', e, ok)"
  shows "t' = t \<and> \<not> ok"
  using ins_SomeD [OF assms(1,2,4)] assms(1,3) canonical by (auto simp: insert_absorb)

lemma ins_rem:
  assumes "invar t" "valid q" "ins t q = Some (t', e, True)"
  shows "rem t' q = Some (t, e, True)"
proof -
  note I = ins_SomeD [OF assms]
  obtain t'' e' where R: "rem t' q = Some (t'', e', q \<in> elems t')" "invar t''"
      "elems t'' = elems t' - {q}" "dep (elems t') q e'"
    using rem_ok [OF I(2) assms(2)] I(3) by auto
  have "t'' = t" using I R assms(1) by (intro canonical) auto
  moreover have "e' = e" using R(4) I(3,5) dep_unique by (simp add: dep_insert)
  ultimately show ?thesis using R(1) I(3) by simp
qed

lemma rem_ins:
  assumes "invar t" "valid q" "rem t q = Some (t', e, True)" "\<not> clashes (elems t) q"
  shows "ins t' q = Some (t, e, True)"
proof -
  obtain R: "invar t'" "elems t' = elems t - {q}" "q \<in> elems t" "dep (elems t) q e"
    using rem_ok [OF assms(1,2)] assms(3) by auto
  then obtain t'' e' where I: "ins t' q = Some (t'', e', q \<notin> elems t')" "invar t''"
      "elems t'' = insert q (elems t')" "dep (elems t') q e'"
    using ins_ok [of t' q] assms clashes_mono [of "elems t'" q "elems t"] by auto
  have "t'' = t" using I R assms(1) by (intro canonical) auto
  moreover have "e' = e"
    using R I(4) dep_unique [of "elems t" q e e'] dep_insert [of q "elems t'" e']
    by (simp add: insert_absorb)
  ultimately show ?thesis using I(1) R by simp
qed

lemma insert_all_ok:
  assumes "invar t" "\<forall>k \<in> set ks. valid k" "\<forall>q \<in> set ks. \<not> clashes (elems t \<union> set ks) q"
  shows "\<exists>t'. insert_all ins t ks = Some t' \<and> invar t' \<and> elems t' = elems t \<union> set ks"
  using assms
proof (induction ks arbitrary: t)
  case (Cons k ks)
  have "\<not> clashes (elems t) k"
    using Cons.prems(3) clashes_mono [of "elems t" k "elems t \<union> set (k # ks)"] by auto
  then obtain t' e where t': "ins t k = Some (t', e, k \<notin> elems t)" "invar t'"
      "elems t' = insert k (elems t)"
    using ins_ok [of t k] Cons.prems by auto
  have "\<forall>q \<in> set ks. \<not> clashes (elems t' \<union> set ks) q"
    using Cons.prems(3) t'(3) by simp
  with Cons.IH [of t'] Cons.prems(2) t' show ?case by auto
qed auto

text \<open>The order in which keys arrive does not matter: the same keys give the same trie.\<close>

lemma insert_all_order:
  assumes "invar t" "\<forall>k \<in> set ks. valid k" "\<forall>q \<in> set ks. \<not> clashes (elems t \<union> set ks) q"
    and "set ks' = set ks"
  shows "insert_all ins t ks' = insert_all ins t ks"
proof -
  obtain u where u: "insert_all ins t ks = Some u" "invar u" "elems u = elems t \<union> set ks"
    using insert_all_ok [OF assms(1-3)] by blast
  obtain v where v: "insert_all ins t ks' = Some v" "invar v" "elems v = elems t \<union> set ks"
    using insert_all_ok [OF assms(1), of ks'] assms(2-4) by auto
  from u v have "u = v" by (intro canonical) auto
  with u v show ?thesis by simp
qed

end

lemma clash_mono: "clash L K q \<Longrightarrow> K \<subseteq> K' \<Longrightarrow> clash L K' q"
  by (auto simp: clash_def)

interpretation xt: key_trie XorTrie_Insert XorTrie_Remove "\<lambda>t. set (keys t)" "wf_trie L []"
  "\<lambda>q. length q = L" "clash L" "leaf_depth 0" for L
proof
  fix t and q :: trie_key assume *: "wf_trie L [] t" "length q = L"
  show "XorTrie_Insert t q = None" if "clash L (set (keys t)) q"
    using insert_at_spec [OF *(2,1)] that by (simp add: XorTrie_Insert_def)
  show "\<exists>t' e. XorTrie_Insert t q = Some (t', e, q \<notin> set (keys t)) \<and> wf_trie L [] t' \<and>
      set (keys t') = insert q (set (keys t)) \<and> leaf_depth 0 (set (keys t)) q e"
    if "\<not> clash L (set (keys t)) q"
    using insert_at_spec [OF *(2,1)] that by (simp add: XorTrie_Insert_def)
  show "\<exists>t' e. XorTrie_Remove t q = Some (t', e, q \<in> set (keys t)) \<and> wf_trie L [] t' \<and>
      set (keys t') = set (keys t) - {q} \<and> (q \<in> set (keys t) \<longrightarrow> leaf_depth 0 (set (keys t)) q e)"
    using remove_at_spec [OF *(2,1)] by (simp add: XorTrie_Remove_def)
next
  show "wf_trie L [] t \<Longrightarrow> wf_trie L [] t' \<Longrightarrow> set (keys t) = set (keys t') \<Longrightarrow> t = t'" for t t'
    by (rule wf_trie_unique)
next
  show "clash L K q \<Longrightarrow> K \<subseteq> K' \<Longrightarrow> clash L K' q" for K K' q
    by (rule clash_mono)
next
  show "leaf_depth 0 K q e \<Longrightarrow> leaf_depth 0 K q e' \<Longrightarrow> e = e'" for K q e e'
    by (rule leaf_depth_unique)
next
  show "leaf_depth 0 (insert q K) q e \<longleftrightarrow> leaf_depth 0 K q e" for q K e
    by (simp add: leaf_depth_def)
qed


section \<open>Properties\<close>

lemma leaf_depth_less:
  assumes "length q = L" "0 < L" "\<not> clash L K q" "leaf_depth 0 K q e"
  shows "e < 8 * L"
proof (rule ccontr)
  assume e: "\<not> e < 8 * L"
  then obtain k where "k \<in> K" "k \<noteq> q" "agree (e - 1) k q"
    using assms(2,4) by (auto simp: leaf_depth_def)
  moreover have "8 * L - 1 \<le> e - 1" using e by simp
  ultimately show False
    using assms(3) agree_mono unfolding clash_def by blast
qed

text \<open>
  C3: on a well-formed trie of \<open>L\<close>-byte keys, \<open>Insert\<close> panics exactly when another stored key
  agrees with \<open>q\<close> on all but the last bit; otherwise it returns a well-formed trie that holds
  \<open>q\<close> in addition, reports whether \<open>q\<close> was new, and the depth it reports is the least depth at
  which no other key shares the prefix of \<open>q\<close>, less than the key's bit length.
\<close>

theorem XorTrie_Insert_correct:
  assumes "wf_trie L [] t" "length q = L"
  shows "(XorTrie_Insert t q = None \<longleftrightarrow> clash L (set (keys t)) q) \<and>
    (\<forall>t' d ok. XorTrie_Insert t q = Some (t', d, ok) \<longrightarrow>
       wf_trie L [] t' \<and> set (keys t') = insert q (set (keys t)) \<and> ok = (q \<notin> set (keys t)) \<and>
       leaf_depth 0 (set (keys t)) q d \<and> d < 8 * L)"
proof (intro conjI allI impI)
  show "XorTrie_Insert t q = None \<longleftrightarrow> clash L (set (keys t)) q"
    using xt.ins_clash [OF assms] xt.ins_ok [OF assms] by force
next
  fix t' d ok assume "XorTrie_Insert t q = Some (t', d, ok)"
  note I = xt.ins_SomeD [OF assms this]
  show "wf_trie L [] t'" "set (keys t') = insert q (set (keys t))" "ok = (q \<notin> set (keys t))"
    "leaf_depth 0 (set (keys t)) q d" using I by auto
  show "d < 8 * L"
    using leaf_depth_less [OF assms(2) _ I(1,5)] wf_trie_depth [OF assms(1)] by simp
qed

theorem XorTrie_Insert_correct_witness:
  "wf_trie 1 [] (leaf [0]) \<and>
   (XorTrie_Insert (leaf [0]) [1] = None \<longleftrightarrow> clash 1 (set (keys (leaf [0]))) [1]) \<and>
   XorTrie_Insert (leaf [0]) [1] =
     Some (XorTrie (Some (leaf [0])) (Some (leaf [1])) None, 1, True)"
proof -
  have "wf_trie 1 [] (leaf [0])" by simp
  moreover have "XorTrie_Insert (leaf [0]) [1] =
      Some (XorTrie (Some (leaf [0])) (Some (leaf [1])) None, 1, True)" by code_simp
  ultimately show ?thesis
    using XorTrie_Insert_correct [of 1 "leaf [0]" "[1]"] by simp
qed

text \<open>
  C4: on a well-formed trie \<open>Remove\<close> never panics; it removes exactly \<open>q\<close>, reports whether \<open>q\<close>
  was there, keeps the trie fully shrunk, and for a key that was there reports its leaf depth.
\<close>

theorem XorTrie_Remove_correct:
  assumes "wf_trie L [] t" "length q = L"
  shows "\<exists>t' d. XorTrie_Remove t q = Some (t', d, q \<in> set (keys t)) \<and> wf_trie L [] t' \<and>
    set (keys t') = set (keys t) - {q} \<and> (q \<in> set (keys t) \<longrightarrow> leaf_depth 0 (set (keys t)) q d)"
  by (rule xt.rem_ok [OF assms])

theorem XorTrie_Remove_correct_witness:
  "wf_trie 1 [] (XorTrie (Some (leaf [0])) (Some (leaf [1])) None) \<and>
   XorTrie_Remove (XorTrie (Some (leaf [0])) (Some (leaf [1])) None) [1] = Some (leaf [0], 1, True) \<and>
   leaf_depth 0 {[0], [1]} [1] 1"
proof -
  have "wf_trie 1 [] (XorTrie (Some (leaf [0])) (Some (leaf [1])) None)"
    by (simp add: has_prefix_def bitval_def)
  moreover have "XorTrie_Remove (XorTrie (Some (leaf [0])) (Some (leaf [1])) None) [1] =
      Some (leaf [0], 1, True)" by code_simp
  ultimately show ?thesis
    using XorTrie_Remove_correct [of 1 "XorTrie (Some (leaf [0])) (Some (leaf [1])) None" "[1]"]
    by (auto simp: insert_commute)
qed

text \<open>
  C15: probing, the way \<open>genUniqueID\<close> does it, leaves no trace: removing a key that was just newly
  inserted restores exactly the trie there was before, and finds the key at the depth at which it
  was inserted.
\<close>

theorem XorTrie_Insert_Remove:
  assumes "wf_trie L [] t" "length q = L" "XorTrie_Insert t q = Some (t', d, True)"
  shows "XorTrie_Remove t' q = Some (t, d, True)"
  by (rule xt.ins_rem [OF assms])

theorem XorTrie_Insert_Remove_witness:
  "XorTrie_Remove (XorTrie (Some (leaf [0])) (Some (leaf [1])) None) [1] = Some (leaf [0], 1, True)"
  by (rule XorTrie_Insert_Remove [of 1]) (simp, simp, code_simp)

text \<open>
  C16: the trie depends only on the set of keys it holds, not on the order in which they were
  inserted: keys that pairwise differ before their last bit can be inserted in any order, with or
  without repetition, and give the same trie, which holds exactly these keys.
\<close>

theorem XorTrie_order_independent:
  assumes "0 < L" "\<forall>k \<in> set ks. length k = L \<and> \<not> clash L (set ks) k" "set ks' = set ks"
  shows "insert_all XorTrie_Insert NewXorTrie ks' = insert_all XorTrie_Insert NewXorTrie ks \<and>
    (\<exists>t. insert_all XorTrie_Insert NewXorTrie ks = Some t \<and> wf_trie L [] t \<and> set (keys t) = set ks)"
proof -
  have wf: "wf_trie L [] NewXorTrie" using assms(1) by (simp add: wf_NewXorTrie)
  have *: "\<forall>k \<in> set ks. length k = L" "\<forall>k \<in> set ks. \<not> clash L (set (keys NewXorTrie) \<union> set ks) k"
    using assms(2) by auto
  show ?thesis
    using xt.insert_all_order [OF wf * assms(3)] xt.insert_all_ok [OF wf *] by simp
qed

theorem XorTrie_order_independent_witness:
  "insert_all XorTrie_Insert NewXorTrie [[1], [0], [1]] =
   insert_all XorTrie_Insert NewXorTrie [[0], [1]]"
proof -
  have "\<forall>k \<in> set [[0], [1::byte]]. length k = 1 \<and> \<not> clash 1 (set [[0], [1]]) k"
    by code_simp
  then show ?thesis
    using XorTrie_order_independent [of 1 "[[0], [1]]" "[[1], [0], [1]]"] by auto
qed

text \<open>
  \<open>Depth\<close> never dereferences nil on a well-formed trie. It is smaller than the key length in
  bits, a trie of depth \<open>n\<close> holds at most \<open>2 ^ n\<close> keys, and for a non-empty trie it is the
  largest leaf depth of a stored key.
\<close>

theorem XorTrie_Depth_correct:
  assumes "wf_trie L [] t"
  shows "\<exists>n. XorTrie_Depth t = Some n \<and> n < 8 * L \<and> length (keys t) \<le> 2 ^ n \<and>
    (keys t \<noteq> [] \<longrightarrow>
       (\<exists>k \<in> set (keys t). leaf_depth 0 (set (keys t)) k n) \<and>
       (\<forall>k \<in> set (keys t). \<exists>e \<le> n. leaf_depth 0 (set (keys t)) k e))"
  using depth_from_bounds [OF assms] depth_from_max [OF assms] by (auto simp: XorTrie_Depth_def)

theorem XorTrie_Depth_correct_witness:
  "XorTrie_Depth (XorTrie (Some (leaf [0])) (Some (leaf [1])) None) = Some 1 \<and>
   length (keys (XorTrie (Some (leaf [0])) (Some (leaf [1])) None)) \<le> 2 ^ 1"
proof -
  have "wf_trie 1 [] (XorTrie (Some (leaf [0])) (Some (leaf [1])) None)"
    by (simp add: has_prefix_def bitval_def)
  from XorTrie_Depth_correct [OF this] show ?thesis by (simp add: XorTrie_Depth_def max_int_def)
qed

end
