(* ===== verification/Id_Gen.thy ===== *)
theory Id_Gen
  imports Xor_Trie
begin

text \<open>
  \<^verbatim>\<open>src/idgen/idgen.go\<close>: the balanced identity generator. The cryptographic operations are not
  part of the repository; they are the fields of a \<open>crypto_env\<close> passed to the definitions:
  \<^item> \<open>GenerateKey seed salt info\<close>: \<^verbatim>\<open>crypto.GenerateKeyPairWithReader(crypto.Ed25519, 0,
    hkdf.New(sha256.New, seed, salt, info))\<close>;
  \<^item> \<open>IDFromPrivateKey\<close>: \<^verbatim>\<open>peer.IDFromPrivateKey\<close>;
  \<^item> \<open>ConvertPeerID\<close>: \<^verbatim>\<open>kbucket.ConvertPeerID\<close>, a fixed-length hash of the peer ID.

  Every method takes the generator's mutex for its whole body, so one call is one atomic step on
  the record \<open>generator\<close>. A method that may loop forever returns an \<open>option\<close>, \<open>None\<close> for not
  returning.
\<close>

section \<open>The code\<close>

record 'pk crypto_env =
  GenerateKey :: "bytes \<Rightarrow> bytes \<Rightarrow> bytes \<Rightarrow> go_error + 'pk"
  IDFromPrivateKey :: "'pk \<Rightarrow> go_error + bytes"
  ConvertPeerID :: "bytes \<Rightarrow> bytes"

record generator =
  xorTrie :: xor_trie
  bg_count :: int
  idgenCount :: "32 word"
  bg_seed :: bytes

text \<open>\<^verbatim>\<open>bits.Reverse8\<close> and \<^verbatim>\<open>binary.LittleEndian.PutUint32\<close> of the standard library.\<close>

definition Reverse8 :: "byte \<Rightarrow> byte" where
  "Reverse8 w = horner_sum of_bool 2 (rev (map (bit w) [0..<8]))"

definition PutUint32_LittleEndian :: "32 word \<Rightarrow> bytes" where
  "PutUint32_LittleEndian v = map (\<lambda>i. ucast (drop_bit (8 * i) v)) [0, 1, 2, 3]"

definition bytes_of :: "string \<Rightarrow> bytes" where
  "bytes_of = map of_char"

definition reversePerByteBits :: "bytes \<Rightarrow> bytes" where
  "reversePerByteBits blob = map Reverse8 blob"

definition privKeyToTrieKey :: "'pk crypto_env \<Rightarrow> 'pk \<Rightarrow> trie_key outcome" where
  "privKeyToTrieKey env privKey =
     (case IDFromPrivateKey env privKey of
        Inl err \<Rightarrow> Error err
      | Inr peerID \<Rightarrow> Ok (reversePerByteBits (ConvertPeerID env peerID)))"

definition genID :: "'pk crypto_env \<Rightarrow> generator \<Rightarrow> generator \<times> ('pk \<times> trie_key) outcome" where
  "genID env bg =
     (let salt = idgenCount bg + 1;
          bg' = bg\<lparr>idgenCount := salt\<rparr>
      in case GenerateKey env (bg_seed bg) (PutUint32_LittleEndian salt) (bytes_of ''hydra keys'') of
           Inl err \<Rightarrow> (bg', Error (Wrapf ''generating private key for trie, '' err))
         | Inr privKey \<Rightarrow>
             (case privKeyToTrieKey env privKey of
                Error err \<Rightarrow> (bg', Error (Wrapf ''converting private key to a trie key, '' err))
              | Panic p \<Rightarrow> (bg', Panic p)
              | Ok trieKey \<Rightarrow> (bg', Ok (privKey, trieKey))))"

partial_function (option) genUniqueID ::
    "'pk crypto_env \<Rightarrow> generator \<Rightarrow> (generator \<times> ('pk \<times> trie_key \<times> nat) outcome) option" where
  "genUniqueID env bg =
     (case genID env bg of
        (bg1, Error err) \<Rightarrow> Some (bg1, Error err)
      | (bg1, Panic p) \<Rightarrow> Some (bg1, Panic p)
      | (bg1, Ok (privKey, trieKey)) \<Rightarrow>
          (case XorTrie_Insert (xorTrie bg1) trieKey of
             None \<Rightarrow> Some (bg1, Panic IndexOutOfRange)
           | Some (t, depth, ok) \<Rightarrow>
               if ok
               then (case XorTrie_Remove t trieKey of
                       None \<Rightarrow> Some (bg1, Panic IndexOutOfRange)
                     | Some (t', _, _) \<Rightarrow> Some (bg1\<lparr>xorTrie := t'\<rparr>, Ok (privKey, trieKey, depth)))
               else genUniqueID env (bg1\<lparr>xorTrie := t\<rparr>)))"

declare genUniqueID.simps [code]

text \<open>\<open>bg.xorTrie.Insert(t); bg.count++; return p, nil\<close>\<close>

definition insert_and_count ::
    "generator \<Rightarrow> trie_key \<Rightarrow> 'pk \<Rightarrow> generator \<times> 'pk outcome" where
  "insert_and_count bg t p =
     (case XorTrie_Insert (xorTrie bg) t of
        None \<Rightarrow> (bg, Panic IndexOutOfRange)
      | Some (t', _, _) \<Rightarrow> (bg\<lparr>xorTrie := t', bg_count := bg_count bg + 1\<rparr>, Ok p))"

definition AddUnbalanced :: "'pk crypto_env \<Rightarrow> generator \<Rightarrow> (generator \<times> 'pk outcome) option" where
  "AddUnbalanced env bg =
     (case genUniqueID env bg of
        None \<Rightarrow> None
      | Some (bg1, Error err0) \<Rightarrow> Some (bg1, Error (Wrapf ''generating unbalanced ID candidate, '' err0))
      | Some (bg1, Panic p) \<Rightarrow> Some (bg1, Panic p)
      | Some (bg1, Ok (p0, t0, _)) \<Rightarrow> Some (insert_and_count bg1 t0 p0))"

definition AddBalanced :: "'pk crypto_env \<Rightarrow> generator \<Rightarrow> (generator \<times> 'pk outcome) option" where
  "AddBalanced env bg =
     (case genUniqueID env bg of
        None \<Rightarrow> None
      | Some (bg1, Error err0) \<Rightarrow>
          Some (bg1, Error (Wrapf ''generating first balanced ID candidate, '' err0))
      | Some (bg1, Panic p) \<Rightarrow> Some (bg1, Panic p)
      | Some (bg1, Ok (p0, t0, d0)) \<Rightarrow>
          (case genUniqueID env bg1 of
             None \<Rightarrow> None
           | Some (bg2, Error err1) \<Rightarrow>
               Some (bg2, Error (Wrapf ''generating second balanced ID candidate, '' err1))
           | Some (bg2, Panic p) \<Rightarrow> Some (bg2, Panic p)
           | Some (bg2, Ok (p1, t1, d1)) \<Rightarrow>
               if d0 < d1 then Some (insert_and_count bg2 t0 p0)
               else Some (insert_and_count bg2 t1 p1)))"

definition BalancedIdentityGenerator_Remove ::
    "'pk crypto_env \<Rightarrow> generator \<Rightarrow> 'pk \<Rightarrow> generator \<times> unit outcome" where
  "BalancedIdentityGenerator_Remove env bg privKey =
     (case privKeyToTrieKey env privKey of
        Error err \<Rightarrow> (bg, Error err)
      | Panic p \<Rightarrow> (bg, Panic p)
      | Ok trieKey \<Rightarrow>
          (case XorTrie_Remove (xorTrie bg) trieKey of
             None \<Rightarrow> (bg, Panic IndexOutOfRange)
           | Some (t, _, ok) \<Rightarrow>
               if ok then (bg\<lparr>xorTrie := t, bg_count := bg_count bg - 1\<rparr>, Ok ())
               else (bg\<lparr>xorTrie := t\<rparr>, Ok ())))"

definition BalancedIdentityGenerator_Count :: "generator \<Rightarrow> int" where
  "BalancedIdentityGenerator_Count bg = bg_count bg"

definition BalancedIdentityGenerator_Depth :: "generator \<Rightarrow> nat option" where
  "BalancedIdentityGenerator_Depth bg = XorTrie_Depth (xorTrie bg)"

text \<open>The loop \<open>for i := 0; i < idOffset; i++ { idGenerator.AddBalanced() }\<close>; errors are ignored.\<close>

fun skip_ids :: "'pk crypto_env \<Rightarrow> nat \<Rightarrow> generator \<Rightarrow> generator outcome option" where
  "skip_ids env 0 bg = Some (Ok bg)"
| "skip_ids env (Suc n) bg =
     (case AddBalanced env bg of
        None \<Rightarrow> None
      | Some (bg', Panic p) \<Rightarrow> Some (Panic p)
      | Some (bg', _) \<Rightarrow> skip_ids env n bg')"

definition NewBalancedIdentityGeneratorFromSeed ::
    "'pk crypto_env \<Rightarrow> bytes \<Rightarrow> int \<Rightarrow> generator outcome option" where
  "NewBalancedIdentityGeneratorFromSeed env seed idOffset =
     skip_ids env (nat idOffset)
       \<lparr>xorTrie = NewXorTrie, bg_count = 0, idgenCount = 0, bg_seed = seed\<rparr>"

text \<open>\<open>RandomSeed\<close> is the next 32 bytes of \<^verbatim>\<open>crypto/rand\<close>, an argument here.\<close>

definition NewBalancedIdentityGenerator :: "'pk crypto_env \<Rightarrow> bytes \<Rightarrow> generator outcome option" where
  "NewBalancedIdentityGenerator env RandomSeed =
     NewBalancedIdentityGeneratorFromSeed env RandomSeed 0"

section \<open>Bits of a trie key are the bits of the Kademlia ID, most significant first\<close>

lemma bit_Reverse8: "n < 8 \<Longrightarrow> bit (Reverse8 w) n = bit w (7 - n)"
  by (simp add: Reverse8_def bit_horner_sum_bit_word_iff rev_nth nth_append)

lemma Reverse8_Reverse8: "Reverse8 (Reverse8 w) = w"
  by (rule bit_word_eqI) (simp add: bit_Reverse8)


lemma bitval_reversePerByteBits:
  assumes "i < 8 * length k"
  shows "bitval (reversePerByteBits k) i = bit (k ! (i div 8)) (7 - i mod 8)"
  using assms by (simp add: bitval_def reversePerByteBits_def bit_Reverse8 less_mult_imp_div_less)

section \<open>The invariant\<close>

text \<open>
  What the code relies on of \<^verbatim>\<open>kbucket.ConvertPeerID\<close>: its result is a hash of a fixed positive
  length \<open>L\<close> (32 bytes for the SHA-256 it documents).
\<close>

definition env_ok :: "nat \<Rightarrow> 'pk crypto_env \<Rightarrow> bool" where
  "env_ok L env \<longleftrightarrow> 0 < L \<and> (\<forall>peerID. length (ConvertPeerID env peerID) = L)"

abbreviation gkeys :: "generator \<Rightarrow> trie_key set" where
  "gkeys bg \<equiv> set (keys (xorTrie bg))"

definition wf_gen :: "nat \<Rightarrow> generator \<Rightarrow> bool" where
  "wf_gen L bg \<longleftrightarrow> wf_trie L [] (xorTrie bg) \<and> bg_count bg = int (card (gkeys bg))"

lemma privKeyToTrieKey_cases:
  obtains e where "privKeyToTrieKey env pk = Error e" | k where "privKeyToTrieKey env pk = Ok k"
  by (cases "IDFromPrivateKey env pk") (auto simp: privKeyToTrieKey_def)

lemma privKeyToTrieKey_length:
  "env_ok L env \<Longrightarrow> privKeyToTrieKey env pk = Ok k \<Longrightarrow> length k = L"
  by (auto simp: privKeyToTrieKey_def env_ok_def reversePerByteBits_def split: sum.splits)

lemma genID_fst: "fst (genID env bg) = bg\<lparr>idgenCount := idgenCount bg + 1\<rparr>"
  by (auto simp: genID_def Let_def split: sum.split outcome.split)

lemma genID_not_Panic: "snd (genID env bg) \<noteq> Panic p"
  by (rule privKeyToTrieKey_cases) 
     (auto simp: genID_def Let_def privKeyToTrieKey_def split: sum.split)

lemma genID_Ok: "snd (genID env bg) = Ok (pk, tk) \<Longrightarrow> privKeyToTrieKey env pk = Ok tk"
  by (auto simp: genID_def Let_def split: sum.splits outcome.splits)

text \<open>What a candidate identity returned by \<open>genUniqueID\<close> satisfies with respect to a set of keys.\<close>

definition candidate_ok ::
    "'pk crypto_env \<Rightarrow> nat \<Rightarrow> trie_key set \<Rightarrow> 'pk \<Rightarrow> trie_key \<Rightarrow> nat \<Rightarrow> bool" where
  "candidate_ok env L K pk tk d \<longleftrightarrow>
     privKeyToTrieKey env pk = Ok tk \<and> tk \<notin> K \<and> \<not> clash L K tk \<and> leaf_depth 0 K tk d"

lemma probe_fresh:
  assumes "wf_trie L [] t" "length k = L" "k \<notin> set (keys t)" "\<not> clash L (set (keys t)) k"
  shows "\<exists>t' d. XorTrie_Insert t k = Some (t', d, True) \<and> XorTrie_Remove t' k = Some (t, d, True) \<and>
    leaf_depth 0 (set (keys t)) k d"
  using xt.ins_ok [OF assms(1,2,4)] xt.ins_rem [OF assms(1,2)] assms(3) by auto

lemma probe_present:
  assumes "wf_trie L [] t" "length k = L" "k \<in> set (keys t)" "\<not> clash L (set (keys t)) k"
  shows "\<exists>d. XorTrie_Insert t k = Some (t, d, False)"
  using xt.ins_ok [OF assms(1,2,4)] xt.ins_present [OF assms(1-3)] assms(3) by auto

text \<open>
  One round of the loop of \<open>genUniqueID\<close>, for any continuation \<open>f\<close> in place of the next rounds.
\<close>

definition genUniqueID_round ::
    "('pk crypto_env \<Rightarrow> generator \<Rightarrow> (generator \<times> ('pk \<times> trie_key \<times> nat) outcome) option) \<Rightarrow>
     'pk crypto_env \<Rightarrow> generator \<Rightarrow> (generator \<times> ('pk \<times> trie_key \<times> nat) outcome) option" where
  "genUniqueID_round f env bg =
     (case genID env bg of
        (bg1, Error err) \<Rightarrow> Some (bg1, Error err)
      | (bg1, Panic p) \<Rightarrow> Some (bg1, Panic p)
      | (bg1, Ok (privKey, trieKey)) \<Rightarrow>
          (case XorTrie_Insert (xorTrie bg1) trieKey of
             None \<Rightarrow> Some (bg1, Panic IndexOutOfRange)
           | Some (t, depth, ok) \<Rightarrow>
               if ok
               then (case XorTrie_Remove t trieKey of
                       None \<Rightarrow> Some (bg1, Panic IndexOutOfRange)
                     | Some (t', _, _) \<Rightarrow> Some (bg1\<lparr>xorTrie := t'\<rparr>, Ok (privKey, trieKey, depth)))
               else f env (bg1\<lparr>xorTrie := t\<rparr>)))"

lemma genUniqueID_eq_round: "genUniqueID env bg = genUniqueID_round genUniqueID env bg"
  unfolding genUniqueID_round_def by (rule genUniqueID.simps)

lemma genUniqueID_round:
  fixes env :: "'pk crypto_env"
  assumes env: "env_ok L env" and wf: "wf_trie L [] (xorTrie bg)"
  defines "bg1 \<equiv> bg\<lparr>idgenCount := idgenCount bg + 1\<rparr>"
  obtains (Err) e where "snd (genID env bg) = Error e" "genUniqueID_round f env bg = Some (bg1, Error e)"
    | (Clash) pk tk where "snd (genID env bg) = Ok (pk, tk)" "clash L (gkeys bg) tk"
        "genUniqueID_round f env bg = Some (bg1, Panic IndexOutOfRange)"
    | (Retry) pk tk where "snd (genID env bg) = Ok (pk, tk)" "\<not> clash L (gkeys bg) tk"
        "tk \<in> gkeys bg" "genUniqueID_round f env bg = f env bg1"
    | (Fresh) pk tk d where "snd (genID env bg) = Ok (pk, tk)" "candidate_ok env L (gkeys bg) pk tk d"
        "genUniqueID_round f env bg = Some (bg1, Ok (pk, tk, d))"
proof -
  have t: "xorTrie bg1 = xorTrie bg" "bg1\<lparr>xorTrie := xorTrie bg\<rparr> = bg1" by (simp_all add: bg1_def)
  consider e where "genID env bg = (bg1, Error e)" | pk tk where "genID env bg = (bg1, Ok (pk, tk))"
    unfolding bg1_def using genID_fst [of env bg] genID_not_Panic [of env bg]
    by (metis outcome.exhaust prod.collapse)
  then show thesis
  proof cases
    case 1
    then show thesis by (intro Err) (simp_all add: genUniqueID_round_def)
  next
    case g: 2
    then have key: "privKeyToTrieKey env pk = Ok tk" using genID_Ok [of env bg pk tk] by simp
    then have L: "length tk = L" by (rule privKeyToTrieKey_length [OF env])
    consider "clash L (gkeys bg) tk" | "\<not> clash L (gkeys bg) tk" "tk \<in> gkeys bg"
      | "\<not> clash L (gkeys bg) tk" "tk \<notin> gkeys bg" by blast
    then show thesis
    proof cases
      case 1
      with g xt.ins_clash [OF wf L] show thesis
        by (intro Clash) (simp_all add: genUniqueID_round_def t)
    next
      case 2
      with g probe_present [OF wf L] show thesis
        by (intro Retry) (auto simp add: genUniqueID_round_def t)
    next
      case 3
      obtain t' d where td: "XorTrie_Insert (xorTrie bg) tk = Some (t', d, True)"
          "XorTrie_Remove t' tk = Some (xorTrie bg, d, True)" "leaf_depth 0 (gkeys bg) tk d"
        using probe_fresh [OF wf L 3(2,1)] by blast
      with g 3 key show thesis
        by (intro Fresh [of pk tk d]) (simp_all add: genUniqueID_round_def t candidate_ok_def)
    qed
  qed
qed

lemma genUniqueID_sound:
  assumes "genUniqueID env bg = Some y" "env_ok L env" "wf_trie L [] (xorTrie bg)"
  shows "(\<exists>c. fst y = bg\<lparr>idgenCount := c\<rparr>) \<and>
    (\<forall>pk tk d. snd y = Ok (pk, tk, d) \<longrightarrow> candidate_ok env L (gkeys bg) pk tk d)"
proof -
  let ?Q = "\<lambda>env L bg y. (\<exists>c. fst y = bg\<lparr>idgenCount := c\<rparr>) \<and>
    (\<forall>pk tk d. snd y = Ok (pk, tk, d) \<longrightarrow> candidate_ok env L (gkeys bg) pk tk d)"
  let ?P = "\<lambda>env bg y. env_ok L env \<longrightarrow> wf_trie L [] (xorTrie bg) \<longrightarrow> ?Q env L bg y"
  have "?P env bg y"
  proof (rule genUniqueID.raw_induct [where P = ?P, OF _ assms(1)])
    fix f :: "'a crypto_env \<Rightarrow> generator \<Rightarrow> (generator \<times> ('a \<times> trie_key \<times> nat) outcome) option"
    fix env bg y
    assume IH: "\<And>env bg y. f env bg = Some y \<Longrightarrow> ?P env bg y"
    assume "(case genID env bg of
        (bg1, Error err) \<Rightarrow> Some (bg1, Error err)
      | (bg1, Panic p) \<Rightarrow> Some (bg1, Panic p)
      | (bg1, Ok (privKey, trieKey)) \<Rightarrow>
          (case XorTrie_Insert (xorTrie bg1) trieKey of
             None \<Rightarrow> Some (bg1, Panic IndexOutOfRange)
           | Some (t, depth, ok) \<Rightarrow>
               if ok
               then (case XorTrie_Remove t trieKey of
                       None \<Rightarrow> Some (bg1, Panic IndexOutOfRange)
                     | Some (t', _, _) \<Rightarrow> Some (bg1\<lparr>xorTrie := t'\<rparr>, Ok (privKey, trieKey, depth)))
               else f env (bg1\<lparr>xorTrie := t\<rparr>))) = Some y"
    then have y: "genUniqueID_round f env bg = Some y" unfolding genUniqueID_round_def .
    show "?P env bg y"
    proof (intro impI)
      assume *: "env_ok L env" "wf_trie L [] (xorTrie bg)"
      from * show "?Q env L bg y"
      proof (cases rule: genUniqueID_round [where f = f])
        case Retry
        with IH [of env _ y] y * show ?thesis by fastforce
      qed (use y in auto)
    qed
  qed
  with assms(2,3) show ?thesis by blast
qed


section \<open>Lemmas about the operations\<close>

text \<open>The \<open>i\<close>-th next candidate of the deterministic key sequence.\<close>

definition candidate :: "'pk crypto_env \<Rightarrow> generator \<Rightarrow> nat \<Rightarrow> ('pk \<times> trie_key) outcome" where
  "candidate env bg i = snd (genID env (bg\<lparr>idgenCount := idgenCount bg + of_nat i\<rparr>))"

lemma candidate_0: "candidate env bg 0 = snd (genID env bg)"
  by (simp add: candidate_def)

lemma candidate_Suc:
  "candidate env bg (Suc i) = candidate env (bg\<lparr>idgenCount := idgenCount bg + 1\<rparr>) i"
  by (simp add: candidate_def algebra_simps)

lemma wf_trie_no_clash:
  assumes "wf_trie L [] t" "q \<in> set (keys t)"
  shows "\<not> clash L (set (keys t)) q"
proof -
  obtain n where n: "depth_from (Some t) 0 = Some n" "n < 8 * L"
    using depth_from_bounds [OF assms(1)] by auto
  then obtain e where "e \<le> n" "leaf_depth 0 (set (keys t)) q e"
    using depth_from_max [OF assms(1), of n] assms(2) by fastforce
  then show ?thesis
    using n(2) agree_mono [of "8 * L - 1" _ q e] by (fastforce simp: clash_def leaf_depth_def)
qed

lemma genUniqueID_reaches:
  assumes "env_ok L env"
  shows "wf_trie L [] (xorTrie bg) \<Longrightarrow>
    \<forall>i < n. \<exists>pk' tk'. candidate env bg i = Ok (pk', tk') \<and> tk' \<in> gkeys bg \<Longrightarrow>
    genUniqueID env bg = genUniqueID_round genUniqueID env
      (bg\<lparr>idgenCount := idgenCount bg + of_nat n\<rparr>)"
proof (induction n arbitrary: bg)
  case 0
  then show ?case using genUniqueID_eq_round [of env bg] by simp
next
  case (Suc n)
  let ?bg1 = "bg\<lparr>idgenCount := idgenCount bg + 1\<rparr>"
  obtain pk' tk' where c: "snd (genID env bg) = Ok (pk', tk')" "tk' \<in> gkeys bg"
    using Suc.prems(2) by (auto simp flip: candidate_0)
  have "genUniqueID env bg = genUniqueID env ?bg1"
    using assms Suc.prems(1)
    by (cases rule: genUniqueID_round [where f = genUniqueID])
       (use c Suc.prems(1) wf_trie_no_clash genUniqueID_eq_round [of env bg] in
         \<open>auto simp: candidate_ok_def\<close>)
  moreover have "\<forall>i < n. \<exists>pk' tk'. candidate env ?bg1 i = Ok (pk', tk') \<and> tk' \<in> gkeys ?bg1"
    using Suc.prems(2) by (auto simp flip: candidate_Suc)
  ultimately show ?case
    using Suc.IH [of ?bg1] Suc.prems(1) by (simp add: algebra_simps)
qed

lemma insert_and_count_ok:
  assumes env: "env_ok L env" and wf: "wf_gen L bg" and c: "candidate_ok env L (gkeys bg) pk tk d"
  shows "\<exists>bg'. insert_and_count bg tk pk = (bg', Ok pk) \<and> wf_gen L bg' \<and>
    gkeys bg' = insert tk (gkeys bg) \<and> bg_count bg' = bg_count bg + 1 \<and>
    XorTrie_Remove (xorTrie bg') tk = Some (xorTrie bg, d, True)"
proof -
  have wt: "wf_trie L [] (xorTrie bg)" and L: "length tk = L"
    using wf c privKeyToTrieKey_length [OF env] by (auto simp: wf_gen_def candidate_ok_def)
  obtain t' e where t': "XorTrie_Insert (xorTrie bg) tk = Some (t', e, True)" "wf_trie L [] t'"
      "set (keys t') = insert tk (gkeys bg)" "leaf_depth 0 (gkeys bg) tk e"
    using xt.ins_ok [OF wt L] c by (auto simp: candidate_ok_def)
  have "e = d" using leaf_depth_unique t'(4) c by (auto simp: candidate_ok_def)
  with t' xt.ins_rem [OF wt L t'(1)] wf c show ?thesis
    by (auto simp: insert_and_count_def wf_gen_def candidate_ok_def)
qed

lemma wf_gen_idgenCount [simp]: "wf_gen L (bg\<lparr>idgenCount := c\<rparr>) = wf_gen L bg"
  by (simp add: wf_gen_def)

lemma AddBalanced_two:
  assumes env: "env_ok L env" and wf: "wf_gen L bg"
    and g0: "genUniqueID env bg = Some (bg1, Ok (p0, t0, d0))"
    and g1: "genUniqueID env bg1 = Some (bg2, Ok (p1, t1, d1))"
  defines "tk \<equiv> if d0 < d1 then t0 else t1" and "pk \<equiv> if d0 < d1 then p0 else p1"
  shows "\<exists>bg'. AddBalanced env bg = Some (bg', Ok pk) \<and> wf_gen L bg' \<and>
    gkeys bg' = insert tk (gkeys bg) \<and> bg_count bg' = bg_count bg + 1 \<and>
    XorTrie_Remove (xorTrie bg') tk = Some (xorTrie bg, min d0 d1, True) \<and>
    candidate_ok env L (gkeys bg) pk tk (min d0 d1)"
proof -
  have wt: "wf_trie L [] (xorTrie bg)" using wf by (simp add: wf_gen_def)
  obtain c1 where c1: "bg1 = bg\<lparr>idgenCount := c1\<rparr>" and ok0: "candidate_ok env L (gkeys bg) p0 t0 d0"
    using genUniqueID_sound [OF g0 env wt] by auto
  obtain c2 where c2: "bg2 = bg\<lparr>idgenCount := c2\<rparr>" and ok1: "candidate_ok env L (gkeys bg) p1 t1 d1"
    using genUniqueID_sound [OF g1 env] wt c1 by auto
  have ok: "candidate_ok env L (gkeys bg2) pk tk (min d0 d1)"
    using ok0 ok1 c2 by (simp add: pk_def tk_def min_def)
  have "AddBalanced env bg = Some (insert_and_count bg2 tk pk)"
    by (simp add: AddBalanced_def g0 g1 pk_def tk_def)
  then show ?thesis
    using insert_and_count_ok [OF env _ ok] ok wf c2 by auto
qed

text \<open>Everything a call of \<open>AddBalanced\<close> or \<open>AddUnbalanced\<close> may do, in one rule.\<close>

lemma AddBalanced_cases:
  assumes env: "env_ok L env" and wf: "wf_gen L bg" and add: "AddBalanced env bg = Some (bg', r)"
  obtains (Ok) pk tk d where "r = Ok pk" "candidate_ok env L (gkeys bg) pk tk d" "wf_gen L bg'"
      "gkeys bg' = insert tk (gkeys bg)" "bg_count bg' = bg_count bg + 1"
      "XorTrie_Remove (xorTrie bg') tk = Some (xorTrie bg, d, True)"
    | (Error) e c where "r = Error e" "bg' = bg\<lparr>idgenCount := c\<rparr>"
    | (Panic) p where "r = Panic p"
proof -
  have wt: "wf_trie L [] (xorTrie bg)" using wf by (simp add: wf_gen_def)
  obtain bg1 r0 where g0: "genUniqueID env bg = Some (bg1, r0)"
    using add by (cases "genUniqueID env bg") (auto simp: AddBalanced_def)
  obtain c1 where c1: "bg1 = bg\<lparr>idgenCount := c1\<rparr>"
    using genUniqueID_sound [OF g0 env wt] by auto
  show thesis
  proof (cases r0)
    case ok0: (Ok x)
    obtain p0 t0 d0 where x: "x = (p0, t0, d0)" by (cases x)
    obtain bg2 r1 where g1: "genUniqueID env bg1 = Some (bg2, r1)"
      using add g0 ok0 x by (cases "genUniqueID env bg1") (auto simp: AddBalanced_def)
    obtain c2 where c2: "bg2 = bg\<lparr>idgenCount := c2\<rparr>"
      using genUniqueID_sound [OF g1 env] wt c1 by auto
    show thesis
    proof (cases r1)
      case ok1: (Ok y)
      then obtain p1 t1 d1 where y: "y = (p1, t1, d1)" by (cases y)
      show thesis
        using AddBalanced_two [OF env wf, of bg1 p0 t0 d0 bg2 p1 t1 d1] g0 g1 ok0 ok1 x y add
          that(1) by auto
    qed (use add g0 g1 ok0 x c2 that in \<open>auto simp: AddBalanced_def\<close>)
  qed (use add g0 c1 that in \<open>auto simp: AddBalanced_def\<close>)
qed

lemma Remove_ok:
  assumes env: "env_ok L env" and wf: "wf_gen L bg" and k: "privKeyToTrieKey env pk = Ok tk"
  shows "\<exists>bg'. BalancedIdentityGenerator_Remove env bg pk = (bg', Ok ()) \<and> wf_gen L bg' \<and>
    gkeys bg' = gkeys bg - {tk} \<and> idgenCount bg' = idgenCount bg \<and> bg_seed bg' = bg_seed bg"
proof -
  have wt: "wf_trie L [] (xorTrie bg)" and L: "length tk = L"
    using wf k privKeyToTrieKey_length [OF env] by (auto simp: wf_gen_def)
  obtain t e where t: "XorTrie_Remove (xorTrie bg) tk = Some (t, e, tk \<in> gkeys bg)" "wf_trie L [] t"
      "set (keys t) = gkeys bg - {tk}"
    using xt.rem_ok [OF wt L] by auto
  have "int (card (gkeys bg)) - 1 = int (card (gkeys bg - {tk}))" if "tk \<in> gkeys bg"
    using that card_Suc_Diff1 [of "gkeys bg" tk] by simp
  with t k wf show ?thesis
    by (auto simp: BalancedIdentityGenerator_Remove_def wf_gen_def)
qed


section \<open>The \<open>IdentityGenerator\<close> interface\<close>

text \<open>
  The contract behind the Go interface \<^verbatim>\<open>IdentityGenerator\<close>. \<open>held s\<close> is the set of DHT keys the
  generator remembers and \<open>keyOf\<close> the DHT key of a private key, \<open>None\<close> when it has none. A
  successful \<open>AddBalanced\<close> remembers one new key, that of the returned private key; a failed one
  remembers nothing; \<open>Remove\<close> forgets exactly the key of its argument.
\<close>

locale identity_generator =
  fixes add :: "'s \<Rightarrow> ('s \<times> 'pk outcome) option"
    and rem :: "'s \<Rightarrow> 'pk \<Rightarrow> 's \<times> unit outcome"
    and held :: "'s \<Rightarrow> 'k set"
    and invar :: "'s \<Rightarrow> bool"
    and keyOf :: "'pk \<Rightarrow> 'k option"
  assumes add_Ok: "invar s \<Longrightarrow> add s = Some (s', Ok pk) \<Longrightarrow>
      invar s' \<and> (\<exists>k. keyOf pk = Some k \<and> k \<notin> held s \<and> held s' = insert k (held s))"
    and add_Error: "invar s \<Longrightarrow> add s = Some (s', Error e) \<Longrightarrow> invar s' \<and> held s' = held s"
    and rem_Ok: "invar s \<Longrightarrow> keyOf pk = Some k \<Longrightarrow>
      \<exists>s'. rem s pk = (s', Ok ()) \<and> invar s' \<and> held s' = held s - {k}"
    and rem_Error: "invar s \<Longrightarrow> keyOf pk = None \<Longrightarrow> \<exists>e. rem s pk = (s, Error e)"
begin

lemma add_rem:
  assumes "invar s" "add s = Some (s', Ok pk)"
  shows "\<exists>s''. rem s' pk = (s'', Ok ()) \<and> invar s'' \<and> held s'' = held s"
  using add_Ok [OF assms] rem_Ok by fastforce

end

definition trieKeyOf :: "'pk crypto_env \<Rightarrow> 'pk \<Rightarrow> trie_key option" where
  "trieKeyOf env pk = (case privKeyToTrieKey env pk of Ok k \<Rightarrow> Some k | _ \<Rightarrow> None)"

definition wf_gen_env :: "'pk crypto_env \<Rightarrow> nat \<Rightarrow> generator \<Rightarrow> bool" where
  "wf_gen_env env L bg \<longleftrightarrow> env_ok L env \<and> wf_gen L bg"

interpretation big: identity_generator "AddBalanced env" "BalancedIdentityGenerator_Remove env"
  gkeys "wf_gen_env env L" "trieKeyOf env" for env L
proof
  fix s s' pk assume s: "wf_gen_env env L s" "AddBalanced env s = Some (s', Ok pk)"
  then have e: "env_ok L env" "wf_gen L s" by (auto simp: wf_gen_env_def)
  then show "wf_gen_env env L s' \<and>
      (\<exists>k. trieKeyOf env pk = Some k \<and> k \<notin> gkeys s \<and> gkeys s' = insert k (gkeys s))"
    using s(2) by (cases rule: AddBalanced_cases)
      (use e(1) in \<open>auto simp: wf_gen_env_def trieKeyOf_def candidate_ok_def\<close>)
next
  fix s s' e assume s: "wf_gen_env env L s" "AddBalanced env s = Some (s', Error e)"
  then have e: "env_ok L env" "wf_gen L s" by (auto simp: wf_gen_env_def)
  then show "wf_gen_env env L s' \<and> gkeys s' = gkeys s"
    using s(2) by (cases rule: AddBalanced_cases) (use e in \<open>auto simp: wf_gen_env_def\<close>)
next
  fix s pk k assume "wf_gen_env env L s" "trieKeyOf env pk = Some k"
  then show "\<exists>s'. BalancedIdentityGenerator_Remove env s pk = (s', Ok ()) \<and>
      wf_gen_env env L s' \<and> gkeys s' = gkeys s - {k}"
    using Remove_ok [of L env s pk k]
    by (auto simp: wf_gen_env_def trieKeyOf_def split: outcome.splits)
next
  fix s pk assume "trieKeyOf env pk = None"
  then show "\<exists>e. BalancedIdentityGenerator_Remove env s pk = (s, Error e)"
    by (cases rule: privKeyToTrieKey_cases [of env pk])
       (auto simp: BalancedIdentityGenerator_Remove_def trieKeyOf_def)
qed

section \<open>Properties\<close>

text \<open>
  A small crypto environment for the witnesses: the private key is the salt, its peer ID is
  itself, and the Kademlia ID is its first byte followed by a zero byte.
\<close>

definition example_env :: "bytes crypto_env" where
  "example_env = \<lparr>GenerateKey = (\<lambda>seed salt info. Inr salt), IDFromPrivateKey = Inr,
     ConvertPeerID = (\<lambda>peerID. [if peerID = [] then 0 else hd peerID, 0])\<rparr>"

definition example_gen :: generator where
  "example_gen = \<lparr>xorTrie = NewXorTrie, bg_count = 0, idgenCount = 0, bg_seed = []\<rparr>"

lemma example_env_ok: "env_ok 2 example_env" "wf_gen 2 example_gen"
  by (simp_all add: env_ok_def example_env_def wf_gen_def example_gen_def NewXorTrie_def)

text \<open>
  The loop of \<open>genUniqueID\<close> returns as soon as the seeded key sequence reaches a fresh key:
  if the first \<open>n\<close> candidates are already remembered and candidate \<open>n\<close> is new and does not clash,
  then exactly \<open>n + 1\<close> salts are consumed, the trie and the count are unchanged, and the result is
  that candidate with its leaf depth.
\<close>

theorem genUniqueID_first_fresh:
  assumes "env_ok L env" "wf_gen L bg"
    and "\<forall>i < n. \<exists>pk' tk'. candidate env bg i = Ok (pk', tk') \<and> tk' \<in> gkeys bg"
    and "candidate env bg n = Ok (pk, tk)" "tk \<notin> gkeys bg" "\<not> clash L (gkeys bg) tk"
  shows "\<exists>d. genUniqueID env bg =
      Some (bg\<lparr>idgenCount := idgenCount bg + of_nat (Suc n)\<rparr>, Ok (pk, tk, d)) \<and>
    leaf_depth 0 (gkeys bg) tk d"
proof -
  let ?bgn = "bg\<lparr>idgenCount := idgenCount bg + of_nat n\<rparr>"
  have wf: "wf_trie L [] (xorTrie ?bgn)" using assms(2) by (simp add: wf_gen_def)
  have "snd (genID env ?bgn) = Ok (pk, tk)" using assms(4) by (simp add: candidate_def)
  with assms(1) wf have "\<exists>d. genUniqueID_round genUniqueID env ?bgn =
      Some (?bgn\<lparr>idgenCount := idgenCount ?bgn + 1\<rparr>, Ok (pk, tk, d)) \<and> leaf_depth 0 (gkeys bg) tk d"
    by (cases rule: genUniqueID_round [where f = genUniqueID])
       (use assms(5,6) in \<open>auto simp: candidate_ok_def\<close>)
  then show ?thesis
    using genUniqueID_reaches [OF assms(1) _ assms(3)] wf by (auto simp: algebra_simps)
qed

definition example_gen1 :: generator where
  "example_gen1 = example_gen\<lparr>xorTrie := leaf [128, 0], bg_count := 1\<rparr>"

lemma example_gen1_ok: "wf_gen 2 example_gen1"
  by (simp add: example_gen1_def wf_gen_def)

theorem genUniqueID_first_fresh_witness:
  "\<exists>d. genUniqueID example_env example_gen1 =
      Some (example_gen1\<lparr>idgenCount := 2\<rparr>, Ok ([2, 0, 0, 0], [64, 0], d)) \<and>
    leaf_depth 0 {[128, 0]} [64, 0] d"
proof -
  have c: "candidate example_env example_gen1 0 = Ok ([1, 0, 0, 0], [128, 0])"
    "candidate example_env example_gen1 1 = Ok ([2, 0, 0, 0], [64, 0])" by code_simp+
  have "\<not> clash 2 (gkeys example_gen1) [64, 0]" "gkeys example_gen1 = {[128, 0]}"
    "idgenCount example_gen1 = 0" by code_simp+
  then show ?thesis
    using genUniqueID_first_fresh [OF example_env_ok(1) example_gen1_ok, of 1 "[2, 0, 0, 0]" "[64, 0]"] c
    by simp
qed

text \<open>
  What \<open>AddBalanced\<close> does on every branch, from a state that satisfies the invariant. A
  returned private key has a DHT key that was not remembered before; exactly this key is added,
  the count grows by one and the invariant holds again. An error leaves everything but the salt
  counter unchanged.
\<close>

theorem AddBalanced_correct:
  assumes "env_ok L env" "wf_gen L bg" "AddBalanced env bg = Some (bg', r)"
  shows "(\<forall>pk. r = Ok pk \<longrightarrow>
      (\<exists>tk. privKeyToTrieKey env pk = Ok tk \<and> tk \<notin> gkeys bg \<and> gkeys bg' = insert tk (gkeys bg)) \<and>
      wf_gen L bg' \<and> bg_count bg' = bg_count bg + 1) \<and>
    (\<forall>e. r = Error e \<longrightarrow> (\<exists>c. bg' = bg\<lparr>idgenCount := c\<rparr>))"
  using assms by (cases rule: AddBalanced_cases) (auto simp: candidate_ok_def)


lemma example_add: "map_option snd (AddBalanced example_env example_gen1) = Some (Ok [3, 0, 0, 0])"
  "privKeyToTrieKey example_env [3, 0, 0, 0] = Ok [192, 0]"
  "gkeys example_gen1 = {[128, 0]}" "bg_count example_gen1 = 1"
  by code_simp+

theorem AddBalanced_correct_witness:
  "\<exists>bg'. AddBalanced example_env example_gen1 = Some (bg', Ok [3, 0, 0, 0]) \<and>
     gkeys bg' = {[192, 0], [128, 0]} \<and> bg_count bg' = 2"
proof -
  obtain bg' where a: "AddBalanced example_env example_gen1 = Some (bg', Ok [3, 0, 0, 0])"
    using example_add(1) by auto
  show ?thesis
    using AddBalanced_correct [OF example_env_ok(1) example_gen1_ok a] a example_add(2-) by auto
qed

text \<open>
  C5: the power of two choices. When both candidates can be generated, \<open>AddBalanced\<close> succeeds and
  keeps the candidate whose leaf is closer to the root, the second one on a tie: the leaf depth of
  the key it adds is the minimum of the two.
\<close>

theorem AddBalanced_two_choices:
  assumes "env_ok L env" "wf_gen L bg"
    and "genUniqueID env bg = Some (bg1, Ok (p0, t0, d0))"
    and "genUniqueID env bg1 = Some (bg2, Ok (p1, t1, d1))"
  shows "\<exists>bg'. AddBalanced env bg = Some (bg', Ok (if d0 < d1 then p0 else p1)) \<and>
    gkeys bg' = insert (if d0 < d1 then t0 else t1) (gkeys bg) \<and>
    leaf_depth 0 (gkeys bg) (if d0 < d1 then t0 else t1) (min d0 d1)"
  using AddBalanced_two [OF assms] by (auto simp: candidate_ok_def)

lemma example_two:
  "genUniqueID example_env example_gen1 = Some (example_gen1\<lparr>idgenCount := 2\<rparr>, Ok ([2, 0, 0, 0], [64, 0], 7))"
  "genUniqueID example_env (example_gen1\<lparr>idgenCount := 2\<rparr>) =
     Some (example_gen1\<lparr>idgenCount := 3\<rparr>, Ok ([3, 0, 0, 0], [192, 0], 7))"
  by code_simp+

theorem AddBalanced_two_choices_witness:
  "\<exists>bg'. AddBalanced example_env example_gen1 = Some (bg', Ok [3, 0, 0, 0]) \<and>
    leaf_depth 0 {[128, 0]} [192, 0] 7"
  using AddBalanced_two_choices [OF example_env_ok(1) example_gen1_ok example_two] example_add(3)
  by auto

text \<open>
  \<open>Remove\<close> forgets exactly the DHT key of its argument and keeps the invariant, so the count
  drops by one precisely when the key was remembered. A private key without a DHT key is an error
  that changes nothing.
\<close>

theorem BalancedIdentityGenerator_Remove_correct:
  assumes "env_ok L env" "wf_gen L bg"
  shows "(\<forall>tk. privKeyToTrieKey env pk = Ok tk \<longrightarrow>
      (\<exists>bg'. BalancedIdentityGenerator_Remove env bg pk = (bg', Ok ()) \<and> wf_gen L bg' \<and>
        gkeys bg' = gkeys bg - {tk} \<and>
        bg_count bg' = bg_count bg - (if tk \<in> gkeys bg then 1 else 0))) \<and>
    (\<forall>e. privKeyToTrieKey env pk = Error e \<longrightarrow>
      BalancedIdentityGenerator_Remove env bg pk = (bg, Error e))"
proof (intro conjI allI impI)
  fix tk assume k: "privKeyToTrieKey env pk = Ok tk"
  obtain bg' where bg': "BalancedIdentityGenerator_Remove env bg pk = (bg', Ok ())" "wf_gen L bg'"
      "gkeys bg' = gkeys bg - {tk}"
    using Remove_ok [OF assms k] by blast
  have "int (card (gkeys bg - {tk})) = int (card (gkeys bg)) - (if tk \<in> gkeys bg then 1 else 0)"
    using card_Suc_Diff1 [of "gkeys bg" tk] by auto
  with bg' assms(2) show "\<exists>bg'. BalancedIdentityGenerator_Remove env bg pk = (bg', Ok ()) \<and>
      wf_gen L bg' \<and> gkeys bg' = gkeys bg - {tk} \<and>
      bg_count bg' = bg_count bg - (if tk \<in> gkeys bg then 1 else 0)"
    by (auto simp: wf_gen_def)
qed (simp add: BalancedIdentityGenerator_Remove_def)

theorem BalancedIdentityGenerator_Remove_correct_witness:
  "\<exists>bg'. BalancedIdentityGenerator_Remove example_env example_gen1 [1, 0, 0, 0] = (bg', Ok ()) \<and>
    gkeys bg' = {} \<and> bg_count bg' = 0"
proof -
  have "privKeyToTrieKey example_env [1, 0, 0, 0] = Ok [128, 0]" by code_simp
  then show ?thesis
    using BalancedIdentityGenerator_Remove_correct [OF example_env_ok(1) example_gen1_ok,
        of "[1, 0, 0, 0]"] example_add(3,4) by auto
qed

text \<open>
  \<open>AddBalanced\<close> followed by \<open>Remove\<close> of the returned key gives back the trie and the count
  that were there before.
\<close>

theorem AddBalanced_Remove_roundtrip:
  assumes "env_ok L env" "wf_gen L bg" "AddBalanced env bg = Some (bg', Ok pk)"
  shows "\<exists>bg''. BalancedIdentityGenerator_Remove env bg' pk = (bg'', Ok ()) \<and>
    xorTrie bg'' = xorTrie bg \<and> bg_count bg'' = bg_count bg"
  using assms by (cases rule: AddBalanced_cases)
    (auto simp: BalancedIdentityGenerator_Remove_def candidate_ok_def)

theorem AddBalanced_Remove_roundtrip_witness:
  "\<exists>bg' bg''. AddBalanced example_env example_gen1 = Some (bg', Ok [3, 0, 0, 0]) \<and>
    BalancedIdentityGenerator_Remove example_env bg' [3, 0, 0, 0] = (bg'', Ok ()) \<and>
    xorTrie bg'' = leaf [128, 0]"
proof -
  obtain bg' where a: "AddBalanced example_env example_gen1 = Some (bg', Ok [3, 0, 0, 0])"
    using example_add(1) by auto
  then show ?thesis
    using AddBalanced_Remove_roundtrip [OF example_env_ok(1) example_gen1_ok a]
    by (auto simp: example_gen1_def)
qed

text \<open>
  The first bit the trie looks at is the most significant bit of the Kademlia ID: bit \<open>i\<close> of
  the trie key (least significant bit of each byte first) is bit \<open>i\<close> of the Kademlia ID read most
  significant bit first, so trie depth is common-prefix length in the XOR metric. Reversing the
  bytes twice is the identity.
\<close>

theorem reversePerByteBits_bit_order:
  "i < BitLen kadID \<Longrightarrow>
     BitAt (reversePerByteBits kadID) i = Some (bit (kadID ! (i div 8)) (7 - i mod 8)) \<and>
     reversePerByteBits (reversePerByteBits kadID) = kadID"
proof -
  assume i: "i < BitLen kadID"
  then have "bitval (reversePerByteBits kadID) i = bit (kadID ! (i div 8)) (7 - i mod 8)"
    by (intro bitval_reversePerByteBits) (simp add: BitLen_def)
  moreover have "BitLen (reversePerByteBits kadID) = BitLen kadID"
    by (simp add: BitLen_def reversePerByteBits_def)
  moreover have "reversePerByteBits (reversePerByteBits kadID) = kadID"
    by (simp add: reversePerByteBits_def Reverse8_Reverse8 comp_def)
  ultimately show ?thesis using i by (simp add: BitAt_eq)
qed

theorem reversePerByteBits_bit_order_witness:
  "BitAt (reversePerByteBits [128, 1]) 0 = Some True \<and>
   BitAt (reversePerByteBits [128, 1]) 15 = Some True"
  using reversePerByteBits_bit_order [of 0 "[128, 1]"] reversePerByteBits_bit_order [of 15 "[128, 1]"]
  by (simp add: BitLen_def)


section \<open>Runs of the generator\<close>

text \<open>
  The states a generator can be in: it is made from a seed, and then its methods are called in any
  order. Go stops at a panic, so only calls that return appear.
\<close>

inductive gen_reachable :: "'pk crypto_env \<Rightarrow> generator \<Rightarrow> bool" for env where
  new: "NewBalancedIdentityGeneratorFromSeed env seed idOffset = Some (Ok bg) \<Longrightarrow> gen_reachable env bg"
| add: "gen_reachable env bg \<Longrightarrow> AddBalanced env bg = Some (bg', r) \<Longrightarrow> \<forall>p. r \<noteq> Panic p \<Longrightarrow>
    gen_reachable env bg'"
| add_unbalanced: "gen_reachable env bg \<Longrightarrow> AddUnbalanced env bg = Some (bg', r) \<Longrightarrow>
    \<forall>p. r \<noteq> Panic p \<Longrightarrow> gen_reachable env bg'"
| remove: "gen_reachable env bg \<Longrightarrow> BalancedIdentityGenerator_Remove env bg pk = (bg', r) \<Longrightarrow>
    \<forall>p. r \<noteq> Panic p \<Longrightarrow> gen_reachable env bg'"

lemma AddBalanced_wf [inv_intros]:
  assumes "env_ok L env" "wf_gen L bg" "AddBalanced env bg = Some (bg', r)" "\<forall>p. r \<noteq> Panic p"
  shows "wf_gen L bg'"
  using assms(1-3) by (cases rule: AddBalanced_cases) (use assms(2,4) in auto)

lemma AddUnbalanced_wf [inv_intros]:
  assumes env: "env_ok L env" and wf: "wf_gen L bg" and add: "AddUnbalanced env bg = Some (bg', r)"
    and np: "\<forall>p. r \<noteq> Panic p"
  shows "wf_gen L bg'"
proof -
  have wt: "wf_trie L [] (xorTrie bg)" using wf by (simp add: wf_gen_def)
  obtain bg1 r0 where g0: "genUniqueID env bg = Some (bg1, r0)"
    using add by (cases "genUniqueID env bg") (auto simp: AddUnbalanced_def)
  obtain c where c: "bg1 = bg\<lparr>idgenCount := c\<rparr>"
    and ok: "\<And>pk tk d. r0 = Ok (pk, tk, d) \<Longrightarrow> candidate_ok env L (gkeys bg) pk tk d"
    using genUniqueID_sound [OF g0 env wt] by auto
  have wf1: "wf_gen L bg1" using wf c by simp
  show ?thesis
  proof (cases r0)
    case (Ok x)
    obtain p0 t0 d0 where x: "x = (p0, t0, d0)" by (cases x)
    then show ?thesis
      using insert_and_count_ok [OF env wf1, of p0 t0 d0] ok Ok add g0 c by (auto simp: AddUnbalanced_def)
  qed (use add g0 wf1 np in \<open>auto simp: AddUnbalanced_def\<close>)
qed

lemma Remove_wf [inv_intros]:
  assumes "env_ok L env" "wf_gen L bg" "BalancedIdentityGenerator_Remove env bg pk = (bg', r)"
  shows "wf_gen L bg'"
  using Remove_ok [OF assms(1,2), of pk] assms
  by (cases rule: privKeyToTrieKey_cases [of env pk])
     (auto simp: BalancedIdentityGenerator_Remove_def)

lemma skip_ids_wf [inv_intros]:
  "env_ok L env \<Longrightarrow> wf_gen L bg \<Longrightarrow> skip_ids env n bg = Some (Ok bg') \<Longrightarrow> wf_gen L bg'"
proof (induction n arbitrary: bg)
  case (Suc n)
  then obtain bg1 r where a: "AddBalanced env bg = Some (bg1, r)" "\<forall>p. r \<noteq> Panic p"
    "skip_ids env n bg1 = Some (Ok bg')"
    by (auto split: option.splits outcome.splits)
  then show ?case using Suc.IH AddBalanced_wf [OF Suc.prems(1,2) a(1,2)] Suc.prems(1) by blast
qed simp

lemma wf_gen_new: "0 < L \<Longrightarrow>
  wf_gen L \<lparr>xorTrie = NewXorTrie, bg_count = 0, idgenCount = 0, bg_seed = seed\<rparr>"
  by (simp add: wf_gen_def wf_NewXorTrie)

text \<open>
  C17: in every reachable state of a generator the trie is well-formed and fully shrunk, and
  \<open>Count\<close> is the number of remembered keys (so \<open>Count\<close> is never negative and \<open>Depth\<close> never panics).
\<close>

theorem generator_invariant:
  assumes "gen_reachable env bg" "env_ok L env"
  shows "wf_trie L [] (xorTrie bg) \<and> BalancedIdentityGenerator_Count bg = int (card (gkeys bg)) \<and>
    BalancedIdentityGenerator_Depth bg \<noteq> None"
proof -
  from assms have "wf_gen L bg"
  proof (induction rule: gen_reachable.induct)
    case (new seed idOffset bg)
    then have "0 < L" by (simp add: env_ok_def)
    from skip_ids_wf [OF new(2) wf_gen_new [OF this]] new(1) show ?case
      unfolding NewBalancedIdentityGeneratorFromSeed_def .
  qed (auto intro: inv_intros)
  then show ?thesis
    using depth_from_bounds [of L "[]" "xorTrie bg"]
    by (auto simp: wf_gen_def BalancedIdentityGenerator_Count_def BalancedIdentityGenerator_Depth_def
        XorTrie_Depth_def)
qed

theorem generator_invariant_witness:
  "gen_reachable example_env example_gen \<and> wf_trie 2 [] (xorTrie example_gen)"
proof -
  have "NewBalancedIdentityGeneratorFromSeed example_env [] 0 = Some (Ok example_gen)"
    by (simp add: NewBalancedIdentityGeneratorFromSeed_def example_gen_def)
  then have "gen_reachable example_env example_gen" by (rule gen_reachable.new)
  with generator_invariant [OF this example_env_ok(1)] show ?thesis by simp
qed

text \<open>The results of \<open>n\<close> successive calls of \<open>AddBalanced\<close>, and the state after them.\<close>

fun generate :: "'pk crypto_env \<Rightarrow> nat \<Rightarrow> generator \<Rightarrow> ('pk outcome list \<times> generator) option" where
  "generate env 0 bg = Some ([], bg)"
| "generate env (Suc n) bg =
     (case AddBalanced env bg of
        None \<Rightarrow> None
      | Some (bg', r) \<Rightarrow> map_option (\<lambda>(rs, b). (r # rs, b)) (generate env n bg'))"

lemma skip_ids_generate:
  "generate env (n + m) bg = Some (rs, bg') \<Longrightarrow> \<forall>r \<in> set (take n rs). \<forall>p. r \<noteq> Panic p \<Longrightarrow>
   \<exists>bgn. skip_ids env n bg = Some (Ok bgn) \<and> generate env m bgn = Some (drop n rs, bg')"
proof (induction n arbitrary: bg rs)
  case (Suc n)
  then obtain bg1 r rs' where r: "AddBalanced env bg = Some (bg1, r)" "rs = r # rs'"
    "generate env (n + m) bg1 = Some (rs', bg')" "\<forall>p. r \<noteq> Panic p"
    by (auto split: option.splits)
  then show ?case using Suc.IH [of bg1 rs'] Suc.prems(2) by (cases r) auto
qed simp

text \<open>
  C18: \<open>idOffset\<close> resumes the key sequence of a seed. If \<open>n + m\<close> calls on a generator made with
  offset 0 return the results \<open>rs\<close> and none of the first \<open>n\<close> panics, then a generator made from the
  same seed with offset \<open>n\<close> exists and its first \<open>m\<close> results are \<open>drop n rs\<close>; it also remembers the
  \<open>n\<close> skipped identities, since it ends in the same state.
\<close>

theorem idOffset_resumes:
  assumes "NewBalancedIdentityGeneratorFromSeed env seed 0 = Some (Ok bg0)"
    and "generate env (n + m) bg0 = Some (rs, bg')"
    and "\<forall>r \<in> set (take n rs). \<forall>p. r \<noteq> Panic p"
  shows "\<exists>bgn. NewBalancedIdentityGeneratorFromSeed env seed (int n) = Some (Ok bgn) \<and>
    generate env m bgn = Some (drop n rs, bg')"
  using skip_ids_generate [OF assms(2,3)] assms(1)
  by (auto simp: NewBalancedIdentityGeneratorFromSeed_def)

theorem idOffset_resumes_witness:
  "\<exists>bgn. NewBalancedIdentityGeneratorFromSeed example_env [] 1 = Some (Ok bgn) \<and>
    map_option fst (generate example_env 1 bgn) = Some [Ok [4, 0, 0, 0]]"
proof -
  have new: "NewBalancedIdentityGeneratorFromSeed example_env [] 0 = Some (Ok example_gen)"
    by (simp add: NewBalancedIdentityGeneratorFromSeed_def example_gen_def)
  have "map_option fst (generate example_env 2 example_gen) = Some [Ok [2, 0, 0, 0], Ok [4, 0, 0, 0]]"
    by code_simp
  then obtain bg' where
    g: "generate example_env (1 + 1) example_gen = Some ([Ok [2, 0, 0, 0], Ok [4, 0, 0, 0]], bg')"
    by (auto simp: numeral_2_eq_2)
  show ?thesis using idOffset_resumes [OF new g] by auto
qed

end
