(* ===== verification/Cleaning_Id_Gen.thy ===== *)
theory Cleaning_Id_Gen
  imports Id_Gen
begin

text \<open>
  \<^verbatim>\<open>src/idgen/cleaning.go\<close>: a wrapper around any \<^verbatim>\<open>IdentityGenerator\<close> that remembers the private
  keys it handed out and can remove them all. The wrapped generator is given by its operations
  \<open>add\<close> and \<open>rem\<close> on a state \<open>'s\<close>. Parameters for code outside the repository:
  \<open>equals\<close> is \<^verbatim>\<open>crypto.PrivKey.Equals\<close> and \<open>merr_append\<close> is \<^verbatim>\<open>multierror.Append\<close> (its first argument
  \<open>None\<close> for a nil error).
\<close>

section \<open>The code\<close>

record ('s, 'pk) cleaning =
  cg_idgen :: 's
  cg_keys :: "'pk list"

definition NewCleaningIDGenerator :: "'s \<Rightarrow> ('s, 'pk) cleaning" where
  "NewCleaningIDGenerator idgen = \<lparr>cg_idgen = idgen, cg_keys = []\<rparr>"

definition CleaningIDGenerator_AddBalanced ::
    "('s \<Rightarrow> ('s \<times> 'pk outcome) option) \<Rightarrow> ('s, 'pk) cleaning \<Rightarrow>
     (('s, 'pk) cleaning \<times> 'pk outcome) option" where
  "CleaningIDGenerator_AddBalanced add c =
     (case add (cg_idgen c) of
        None \<Rightarrow> None
      | Some (s, Error err) \<Rightarrow> Some (c\<lparr>cg_idgen := s\<rparr>, Error err)
      | Some (s, Panic p) \<Rightarrow> Some (c\<lparr>cg_idgen := s\<rparr>, Panic p)
      | Some (s, Ok pk) \<Rightarrow> Some (c\<lparr>cg_idgen := s, cg_keys := cg_keys c @ [pk]\<rparr>, Ok pk))"

definition CleaningIDGenerator_Remove ::
    "('s \<Rightarrow> 'pk \<Rightarrow> 's \<times> unit outcome) \<Rightarrow> ('pk \<Rightarrow> 'pk \<Rightarrow> bool) \<Rightarrow>
     ('s, 'pk) cleaning \<Rightarrow> 'pk \<Rightarrow> ('s, 'pk) cleaning \<times> unit outcome" where
  "CleaningIDGenerator_Remove rem equals c privKey =
     (case rem (cg_idgen c) privKey of
        (s, Error err) \<Rightarrow> (c\<lparr>cg_idgen := s\<rparr>, Error err)
      | (s, Panic p) \<Rightarrow> (c\<lparr>cg_idgen := s\<rparr>, Panic p)
      | (s, Ok _) \<Rightarrow>
          (c\<lparr>cg_idgen := s, cg_keys := filter (\<lambda>pk. \<not> equals pk privKey) (cg_keys c)\<rparr>, Ok ()))"

text \<open>The loop of \<open>Clean\<close> over \<open>c.keys\<close>, with the errors collected so far.\<close>

fun clean_loop ::
    "('s \<Rightarrow> 'pk \<Rightarrow> 's \<times> unit outcome) \<Rightarrow> (go_error option \<Rightarrow> go_error \<Rightarrow> go_error) \<Rightarrow>
     's \<Rightarrow> go_error option \<Rightarrow> 'pk list \<Rightarrow> 's \<times> go_error option outcome" where
  "clean_loop rem merr_append s errs [] = (s, Ok errs)"
| "clean_loop rem merr_append s errs (pk # pks) =
     (case rem s pk of
        (s', Panic p) \<Rightarrow> (s', Panic p)
      | (s', Error err) \<Rightarrow> clean_loop rem merr_append s' (Some (merr_append errs err)) pks
      | (s', Ok _) \<Rightarrow> clean_loop rem merr_append s' errs pks)"

definition CleaningIDGenerator_Clean ::
    "('s \<Rightarrow> 'pk \<Rightarrow> 's \<times> unit outcome) \<Rightarrow> (go_error option \<Rightarrow> go_error \<Rightarrow> go_error) \<Rightarrow>
     ('s, 'pk) cleaning \<Rightarrow> ('s, 'pk) cleaning \<times> unit outcome" where
  "CleaningIDGenerator_Clean rem merr_append c =
     (case clean_loop rem merr_append (cg_idgen c) None (cg_keys c) of
        (s, Ok None) \<Rightarrow> (\<lparr>cg_idgen = s, cg_keys = []\<rparr>, Ok ())
      | (s, Ok (Some errs)) \<Rightarrow> (\<lparr>cg_idgen = s, cg_keys = []\<rparr>, Error errs)
      | (s, Error e) \<Rightarrow> (c\<lparr>cg_idgen := s\<rparr>, Error e)
      | (s, Panic p) \<Rightarrow> (c\<lparr>cg_idgen := s\<rparr>, Panic p))"

section \<open>Sessions: a sequence of calls on the wrapper\<close>

datatype 'pk cleaning_op = CAdd | CRemove 'pk

fun cleaning_step ::
    "('s \<Rightarrow> ('s \<times> 'pk outcome) option) \<Rightarrow> ('s \<Rightarrow> 'pk \<Rightarrow> 's \<times> unit outcome) \<Rightarrow>
     ('pk \<Rightarrow> 'pk \<Rightarrow> bool) \<Rightarrow> ('s, 'pk) cleaning \<Rightarrow> 'pk cleaning_op \<Rightarrow> ('s, 'pk) cleaning option" where
  "cleaning_step add rem equals c CAdd =
     (case CleaningIDGenerator_AddBalanced add c of
        Some (c', Ok _) \<Rightarrow> Some c' | Some (c', Error _) \<Rightarrow> Some c' | _ \<Rightarrow> None)"
| "cleaning_step add rem equals c (CRemove pk) =
     (if pk \<in> set (cg_keys c)
      then (case CleaningIDGenerator_Remove rem equals c pk of
              (c', Ok _) \<Rightarrow> Some c' | (c', Error _) \<Rightarrow> Some c' | _ \<Rightarrow> None)
      else None)"

text \<open>
  \<open>None\<close> when a call does not return, panics, or removes a key that the wrapper did not hand out.
\<close>

fun cleaning_run ::
    "('s \<Rightarrow> ('s \<times> 'pk outcome) option) \<Rightarrow> ('s \<Rightarrow> 'pk \<Rightarrow> 's \<times> unit outcome) \<Rightarrow>
     ('pk \<Rightarrow> 'pk \<Rightarrow> bool) \<Rightarrow> ('s, 'pk) cleaning \<Rightarrow> 'pk cleaning_op list \<Rightarrow>
     ('s, 'pk) cleaning option" where
  "cleaning_run add rem equals c [] = Some c"
| "cleaning_run add rem equals c (x # xs) =
     (case cleaning_step add rem equals c x of
        None \<Rightarrow> None | Some c' \<Rightarrow> cleaning_run add rem equals c' xs)"

section \<open>Lemmas in the interface\<close>

context identity_generator begin

definition keyset :: "'pk list \<Rightarrow> 'k set" where
  "keyset pks = {k. \<exists>pk \<in> set pks. keyOf pk = Some k}"

lemma keyset_simps [simp]:
  "keyset [] = {}"
  "keyset (xs @ ys) = keyset xs \<union> keyset ys"
  "keyset (pk # pks) = (case keyOf pk of None \<Rightarrow> {} | Some k \<Rightarrow> {k}) \<union> keyset pks"
  by (auto simp: keyset_def split: option.splits)

text \<open>
  While the wrapper is used, the generator holds the keys \<open>H0\<close> it had at the start and possibly
  keys the wrapper has recorded, and every recorded private key has a DHT key outside \<open>H0\<close>.
\<close>

definition session_inv :: "'k set \<Rightarrow> ('s, 'pk) cleaning \<Rightarrow> bool" where
  "session_inv H0 c \<longleftrightarrow> invar (cg_idgen c) \<and> (\<forall>pk \<in> set (cg_keys c). keyOf pk \<noteq> None) \<and>
     H0 \<subseteq> held (cg_idgen c) \<and> held (cg_idgen c) \<subseteq> H0 \<union> keyset (cg_keys c) \<and>
     H0 \<inter> keyset (cg_keys c) = {}"

lemma session_add:
  assumes "session_inv H0 c" "CleaningIDGenerator_AddBalanced add c = Some (c', r)" "\<forall>p. r \<noteq> Panic p"
  shows "session_inv H0 c'"
proof -
  from assms(2) obtain s r' where a: "add (cg_idgen c) = Some (s, r')"
    by (auto simp: CleaningIDGenerator_AddBalanced_def split: option.splits)
  have i: "invar (cg_idgen c)" using assms(1) by (simp add: session_inv_def)
  show ?thesis
  proof (cases r')
    case (Ok pk)
    with add_Ok [OF i, of s pk] a assms(1,2) show ?thesis
      by (auto simp: CleaningIDGenerator_AddBalanced_def session_inv_def)
  next
    case (Error e)
    with add_Error [OF i, of s e] a assms(1,2) show ?thesis
      by (auto simp: CleaningIDGenerator_AddBalanced_def session_inv_def)
  qed (use a assms in \<open>auto simp: CleaningIDGenerator_AddBalanced_def\<close>)
qed

lemma session_remove:
  assumes "session_inv H0 c" "pk \<in> set (cg_keys c)"
    and eq: "\<And>a b. equals a b \<Longrightarrow> keyOf a = keyOf b"
    and r: "CleaningIDGenerator_Remove rem equals c pk = (c', r)"
  shows "session_inv H0 c' \<and> r = Ok ()"
proof -
  from assms(1,2) obtain k where k: "keyOf pk = Some k" "invar (cg_idgen c)" "k \<notin> H0"
    by (fastforce simp: session_inv_def keyset_def)
  obtain s where s: "rem (cg_idgen c) pk = (s, Ok ())" "invar s" "held s = held (cg_idgen c) - {k}"
    using rem_Ok [OF k(2,1)] by blast
  let ?ks = "filter (\<lambda>pk'. \<not> equals pk' pk) (cg_keys c)"
  have "keyset (cg_keys c) - {k} \<subseteq> keyset ?ks" "keyset ?ks \<subseteq> keyset (cg_keys c)"
    using eq k(1) by (fastforce simp: keyset_def)+
  then have "held s \<subseteq> H0 \<union> keyset ?ks" "H0 \<subseteq> held s" "H0 \<inter> keyset ?ks = {}"
    using assms(1) s(3) k(3) unfolding session_inv_def by blast+
  with assms(1) s r show ?thesis
    unfolding CleaningIDGenerator_Remove_def session_inv_def by auto
qed

lemma session_run:
  assumes eq: "\<And>a b. equals a b \<Longrightarrow> keyOf a = keyOf b"
  shows "session_inv H0 c \<Longrightarrow> cleaning_run add rem equals c ops = Some c' \<Longrightarrow> session_inv H0 c'"
proof (induction ops arbitrary: c)
  case (Cons x xs)
  then obtain c1 where c1: "cleaning_step add rem equals c x = Some c1"
    "cleaning_run add rem equals c1 xs = Some c'" by (auto split: option.splits)
  have "session_inv H0 c1"
  proof (cases x)
    case CAdd
    with c1(1) obtain r where "CleaningIDGenerator_AddBalanced add c = Some (c1, r)" "\<forall>p. r \<noteq> Panic p"
      by (auto split: option.splits outcome.splits)
    with session_add [OF Cons.prems(1)] show ?thesis by blast
  next
    case (CRemove pk)
    with c1(1) obtain r where "pk \<in> set (cg_keys c)"
        "CleaningIDGenerator_Remove rem equals c pk = (c1, r)"
      by (auto split: prod.splits outcome.splits if_splits)
    with session_remove [OF Cons.prems(1) _ eq] show ?thesis by blast
  qed
  with Cons.IH c1(2) show ?case by blast
qed simp

lemma clean_loop_ok:
  "invar s \<Longrightarrow> \<forall>pk \<in> set pks. keyOf pk \<noteq> None \<Longrightarrow>
   \<exists>s'. clean_loop rem merr_append s errs pks = (s', Ok errs) \<and> invar s' \<and> held s' = held s - keyset pks"
proof (induction pks arbitrary: s)
  case (Cons pk pks)
  then obtain k where k: "keyOf pk = Some k" by auto
  obtain s1 where "rem s pk = (s1, Ok ())" "invar s1" "held s1 = held s - {k}"
    using rem_Ok [OF Cons.prems(1) k] by blast
  with Cons.IH [of s1] Cons.prems(2) k show ?case by auto
qed simp

lemma Clean_session:
  assumes "session_inv H0 c"
  shows "\<exists>c'. CleaningIDGenerator_Clean rem merr_append c = (c', Ok ()) \<and> cg_keys c' = [] \<and>
    invar (cg_idgen c') \<and> held (cg_idgen c') = H0"
proof -
  obtain s where "clean_loop rem merr_append (cg_idgen c) None (cg_keys c) = (s, Ok None)" "invar s"
      "held s = held (cg_idgen c) - keyset (cg_keys c)"
    using clean_loop_ok [of "cg_idgen c" "cg_keys c" merr_append None] assms
    by (auto simp: session_inv_def)
  moreover from this assms have "held s = H0" unfolding session_inv_def by blast
  ultimately show ?thesis by (simp add: CleaningIDGenerator_Clean_def)
qed

text \<open>Wrap a generator, use it, clean up: it holds what it held before.\<close>

lemma session_leaves_no_keys:
  assumes "invar s" "\<And>a b. equals a b \<Longrightarrow> keyOf a = keyOf b"
    and "cleaning_run add rem equals (NewCleaningIDGenerator s) ops = Some c"
  shows "\<exists>c'. CleaningIDGenerator_Clean rem merr_append c = (c', Ok ()) \<and> cg_keys c' = [] \<and>
    invar (cg_idgen c') \<and> held (cg_idgen c') = held s"
proof -
  have "session_inv (held s) (NewCleaningIDGenerator s)"
    using assms(1) by (simp add: session_inv_def NewCleaningIDGenerator_def)
  from session_run [OF assms(2) this assms(3)] show ?thesis by (rule Clean_session)
qed

end


section \<open>Properties\<close>

text \<open>
  C19: over the balanced generator, a session of the cleaning wrapper leaves nothing behind. After
  any sequence of \<open>AddBalanced\<close> calls and removals of keys the wrapper handed out, \<open>Clean\<close> succeeds
  and the wrapped generator has exactly the trie and the count it had when the wrapper was made.
  The hypothesis on \<open>equals\<close> is what \<^verbatim>\<open>PrivKey.Equals\<close> documents: equal private keys are the same
  key, so they have the same DHT key.
\<close>

theorem cleaning_session_leaves_no_keys:
  assumes "env_ok L env" "wf_gen L bg"
    and "\<forall>a b. equals a b \<longrightarrow> trieKeyOf env a = trieKeyOf env b"
    and "cleaning_run (AddBalanced env) (BalancedIdentityGenerator_Remove env) equals
           (NewCleaningIDGenerator bg) ops = Some c"
  shows "\<exists>c'. CleaningIDGenerator_Clean (BalancedIdentityGenerator_Remove env) merr_append c = (c', Ok ()) \<and>
    cg_keys c' = [] \<and> xorTrie (cg_idgen c') = xorTrie bg \<and> bg_count (cg_idgen c') = bg_count bg"
proof -
  have "wf_gen_env env L bg" using assms(1,2) by (simp add: wf_gen_env_def)
  from big.session_leaves_no_keys [OF this _ assms(4), of merr_append] assms(3)
  obtain c' where c': "CleaningIDGenerator_Clean (BalancedIdentityGenerator_Remove env) merr_append c = (c', Ok ())"
      "cg_keys c' = []" "wf_gen_env env L (cg_idgen c')" "gkeys (cg_idgen c') = gkeys bg"
    by blast
  then have "xorTrie (cg_idgen c') = xorTrie bg"
    using assms(2) wf_trie_unique [of L "[]" "xorTrie (cg_idgen c')" "xorTrie bg"]
    by (simp add: wf_gen_env_def wf_gen_def)
  with c' assms(2) show ?thesis by (auto simp: wf_gen_env_def wf_gen_def)
qed

theorem cleaning_session_leaves_no_keys_witness:
  "\<exists>c c'. cleaning_run (AddBalanced example_env) (BalancedIdentityGenerator_Remove example_env) (=)
       (NewCleaningIDGenerator example_gen1) [CAdd, CAdd, CRemove [3, 0, 0, 0]] = Some c \<and>
     CleaningIDGenerator_Clean (BalancedIdentityGenerator_Remove example_env) (\<lambda>_ e. e) c = (c', Ok ()) \<and>
     xorTrie (cg_idgen c') = leaf [128, 0]"
proof -
  have "cleaning_run (AddBalanced example_env) (BalancedIdentityGenerator_Remove example_env) (=)
       (NewCleaningIDGenerator example_gen1) [CAdd, CAdd, CRemove [3, 0, 0, 0]] \<noteq> None"
    by code_simp
  then obtain c where c: "cleaning_run (AddBalanced example_env)
      (BalancedIdentityGenerator_Remove example_env) (=)
      (NewCleaningIDGenerator example_gen1) [CAdd, CAdd, CRemove [3, 0, 0, 0]] = Some c" by blast
  show ?thesis
    using cleaning_session_leaves_no_keys [OF example_env_ok(1) example_gen1_ok _ c, of "\<lambda>_ e. e"] c
    by (auto simp: example_gen1_def)
qed

lemma clean_loop_all:
  "\<forall>s pk p. snd (rem s pk) \<noteq> Panic p \<Longrightarrow>
   \<exists>errs'. clean_loop rem merr_append s errs pks = (foldl (\<lambda>s pk. fst (rem s pk)) s pks, Ok errs') \<and>
     (errs' = None \<longleftrightarrow> errs = None \<and>
        (\<forall>i < length pks. snd (rem (foldl (\<lambda>s pk. fst (rem s pk)) s (take i pks)) (pks ! i)) = Ok ()))"
proof (induction pks arbitrary: s errs)
  case (Cons pk pks)
  obtain s' r where r: "rem s pk = (s', r)" by (cases "rem s pk")
  show ?case
  proof (cases r)
    case (Ok u)
    with r Cons.IH [OF Cons.prems, of s' errs] show ?thesis by (simp add: All_less_Suc2)
  next
    case (Error e)
    with r Cons.IH [OF Cons.prems, of s' "Some (merr_append errs e)"] show ?thesis by (auto simp: All_less_Suc2)
  next
    case (Panic p)
    with r Cons.prems show ?thesis by (metis snd_conv)
  qed
qed simp

text \<open>
  \<open>Clean\<close> over any generator whose \<open>Remove\<close> does not panic calls \<open>Remove\<close> once for every
  recorded key, in order, whether or not earlier calls failed; it always forgets the recorded keys,
  and it returns nil exactly when every one of these calls succeeded.
\<close>

theorem Clean_attempts_all:
  assumes "\<forall>s pk p. snd (rem s pk) \<noteq> Panic p"
  shows "cg_idgen (fst (CleaningIDGenerator_Clean rem merr_append c)) =
      foldl (\<lambda>s pk. fst (rem s pk)) (cg_idgen c) (cg_keys c) \<and>
    cg_keys (fst (CleaningIDGenerator_Clean rem merr_append c)) = [] \<and>
    (snd (CleaningIDGenerator_Clean rem merr_append c) = Ok () \<longleftrightarrow>
       (\<forall>i < length (cg_keys c).
          snd (rem (foldl (\<lambda>s pk. fst (rem s pk)) (cg_idgen c) (take i (cg_keys c))) (cg_keys c ! i))
            = Ok ()))"
  using clean_loop_all [OF assms, of merr_append "cg_idgen c" None "cg_keys c"]
  by (auto simp: CleaningIDGenerator_Clean_def split: option.split)

theorem Clean_attempts_all_witness:
  "CleaningIDGenerator_Clean (\<lambda>s pk. (s @ [pk], if pk = 2 then Error TypedNil else Ok ())) (\<lambda>_ e. e)
     \<lparr>cg_idgen = [], cg_keys = [1, 2, 3 :: nat]\<rparr> =
   (\<lparr>cg_idgen = [1, 2, 3], cg_keys = []\<rparr>, Error TypedNil)"
proof -
  let ?rem = "\<lambda>s pk. (s @ [pk], if pk = (2 :: nat) then Error TypedNil else Ok ())"
  have "\<forall>s pk p. snd (?rem s pk) \<noteq> Panic p" by auto
  from Clean_attempts_all [OF this, of "\<lambda>_ e. e" "\<lparr>cg_idgen = [], cg_keys = [1, 2, 3]\<rparr>"]
  show ?thesis by (simp add: CleaningIDGenerator_Clean_def)
qed

end
