(* ===== verification/Go_Base64.thy ===== *)
theory Go_Base64
  imports Hydra_Prelude
begin

text \<open>
  Go's \<open>base64.StdEncoding\<close>: encoding with padding, and decoding that skips line breaks, needs the
  padding and accepts nothing after it. The property shown is that decoding inverts encoding.
\<close>

definition enc_char :: "nat \<Rightarrow> char" where
  "enc_char n =
     (if n < 26 then char_of (65 + n) else if n < 52 then char_of (97 + (n - 26))
      else if n < 62 then char_of (48 + (n - 52)) else if n = 62 then CHR ''+'' else CHR ''/'')"

definition dec_char :: "char \<Rightarrow> nat option" where
  "dec_char c =
     (let n = of_char c :: nat
      in if 65 \<le> n \<and> n \<le> 90 then Some (n - 65) else if 97 \<le> n \<and> n \<le> 122 then Some (n - 97 + 26)
         else if 48 \<le> n \<and> n \<le> 57 then Some (n - 48 + 52)
         else if c = CHR ''+'' then Some 62 else if c = CHR ''/'' then Some 63 else None)"

fun EncodeToString :: "bytes \<Rightarrow> string" where
  "EncodeToString [] = []"
| "EncodeToString [a] =
     [enc_char (unat a div 4), enc_char (unat a mod 4 * 16), CHR ''='', CHR ''='']"
| "EncodeToString [a, b] =
     [enc_char (unat a div 4), enc_char (unat a mod 4 * 16 + unat b div 16),
      enc_char (unat b mod 16 * 4), CHR ''='']"
| "EncodeToString (a # b # c # rest) =
     enc_char (unat a div 4) # enc_char (unat a mod 4 * 16 + unat b div 16) #
     enc_char (unat b mod 16 * 4 + unat c div 64) # enc_char (unat c mod 64) # EncodeToString rest"

definition byte1 :: "nat \<Rightarrow> nat \<Rightarrow> byte" where "byte1 p q = word_of_nat (p * 4 + q div 16)"
definition byte2 :: "nat \<Rightarrow> nat \<Rightarrow> byte" where "byte2 q r = word_of_nat (q mod 16 * 16 + r div 4)"
definition byte3 :: "nat \<Rightarrow> nat \<Rightarrow> byte" where "byte3 r s = word_of_nat (r mod 4 * 64 + s)"

definition CorruptInput :: go_error where
  "CorruptInput = Errorf ''illegal base64 data''"

fun decode_quanta :: "string \<Rightarrow> bytes outcome" where
  "decode_quanta [] = Ok []"
| "decode_quanta (c1 # c2 # c3 # c4 # rest) =
     (case (dec_char c1, dec_char c2) of
        (Some p, Some q) \<Rightarrow>
          (case dec_char c3 of
             None \<Rightarrow>
               if c3 = CHR ''='' \<and> c4 = CHR ''='' \<and> rest = [] then Ok [byte1 p q] else Error CorruptInput
           | Some r \<Rightarrow>
               (case dec_char c4 of
                  None \<Rightarrow>
                    if c4 = CHR ''='' \<and> rest = [] then Ok [byte1 p q, byte2 q r] else Error CorruptInput
                | Some s \<Rightarrow>
                    (case decode_quanta rest of
                       Ok bs \<Rightarrow> Ok (byte1 p q # byte2 q r # byte3 r s # bs)
                     | e \<Rightarrow> e)))
      | _ \<Rightarrow> Error CorruptInput)"
| "decode_quanta _ = Error CorruptInput"

definition DecodeString :: "string \<Rightarrow> bytes outcome" where
  "DecodeString s =
     decode_quanta (filter (\<lambda>c. c \<noteq> CHR 0x0A \<and> c \<noteq> CHR 0x0D) s)"

section \<open>Round trip\<close>

lemma dec_char_of:
  "n < 26 \<Longrightarrow> dec_char (char_of (65 + n)) = Some n" "n < 26 \<Longrightarrow> dec_char (char_of (97 + n)) = Some (26 + n)"
  "n < 10 \<Longrightarrow> dec_char (char_of (48 + n)) = Some (52 + n)"
  "dec_char CHR ''+'' = Some 62" "dec_char CHR ''/'' = Some 63"
  "dec_char CHR 0x0A = None" "dec_char CHR 0x0D = None" "dec_char CHR ''='' = None"
  by (simp_all add: dec_char_def)

lemma dec_enc_char [simp]:
  assumes "n < 64"
  shows "dec_char (enc_char n) = Some n" "enc_char n \<noteq> CHR 0x0A"
    "enc_char n \<noteq> CHR 0x0D" "enc_char n \<noteq> CHR ''=''"
proof -
  consider "n < 26" | "26 \<le> n" "n < 52" | "52 \<le> n" "n < 62" | "n = 62" | "n = 63"
    using assms by linarith
  then show d: "dec_char (enc_char n) = Some n"
    using dec_char_of(1) [of n] dec_char_of(2) [of "n - 26"] dec_char_of(3) [of "n - 52"] dec_char_of(4,5)
    by cases (simp_all add: enc_char_def)
  show "enc_char n \<noteq> CHR 0x0A" "enc_char n \<noteq> CHR 0x0D" "enc_char n \<noteq> CHR ''=''"
    using d dec_char_of(6-8) by force+
qed

lemma unat_byte: "unat (a :: byte) < 256"
  using unsigned_less [of a, where ?'a = nat] by simp

lemma byte_parts:
  "unat (a :: byte) div 4 < 64" "unat a div 16 < 16" "unat a div 64 < 4"
  using unat_byte [of a] by (simp_all add: less_mult_imp_div_less)

lemma sextet_bounds [simp]:
  "unat (a :: byte) div 4 < 64" "unat (a :: byte) mod 4 * 16 < 64"
  "unat (a :: byte) mod 4 * 16 + unat (b :: byte) div 16 < 64" "unat (b :: byte) mod 16 * 4 < 64"
  "unat (b :: byte) mod 16 * 4 + unat (c :: byte) div 64 < 64" "unat (c :: byte) mod 64 < 64"
proof -
  have m: "unat a mod 4 < 4" "unat b mod 16 < 16" by simp_all
  show "unat a div 4 < 64" by (rule byte_parts)
  show "unat a mod 4 * 16 < 64" "unat b mod 16 * 4 < 64" using m by linarith+
  show "unat a mod 4 * 16 + unat b div 16 < 64" using m byte_parts(2) [of b] by linarith
  show "unat b mod 16 * 4 + unat c div 64 < 64" using m byte_parts(3) [of c] by linarith
qed simp

lemma dec_char_pad [simp]: "dec_char CHR ''='' = None"
  by (simp add: dec_char_def)

lemma split_sum:
  fixes u v k :: nat
  assumes "v < k"
  shows "(u * k + v) div k = u" "(u * k + v) mod k = v"
  using assms by simp_all

lemma bytes_of_sextets [simp]:
  "byte1 (unat a div 4) (unat a mod 4 * 16) = a"
  "byte1 (unat a div 4) (unat a mod 4 * 16 + unat b div 16) = a"
  "byte2 (unat a mod 4 * 16 + unat b div 16) (unat b mod 16 * 4) = b"
  "byte2 (unat a mod 4 * 16 + unat b div 16) (unat b mod 16 * 4 + unat c div 64) = b"
  "byte3 (unat b mod 16 * 4 + unat c div 64) (unat c mod 64) = c"
proof -
  have w: "word_of_nat (unat x) = x" for x :: byte by simp
  have d: "n * 16 div 16 = n" "n * 4 div 4 = n" for n :: nat by simp_all
  note sums = split_sum [OF byte_parts(2) [of b]] split_sum [OF byte_parts(3) [of c]]
  show "byte1 (unat a div 4) (unat a mod 4 * 16) = a"
    unfolding byte1_def d div_mult_mod_eq w ..
  show "byte1 (unat a div 4) (unat a mod 4 * 16 + unat b div 16) = a"
    unfolding byte1_def sums div_mult_mod_eq w ..
  show "byte2 (unat a mod 4 * 16 + unat b div 16) (unat b mod 16 * 4) = b"
    unfolding byte2_def sums d div_mult_mod_eq w ..
  show "byte2 (unat a mod 4 * 16 + unat b div 16) (unat b mod 16 * 4 + unat c div 64) = b"
    unfolding byte2_def sums div_mult_mod_eq w ..
  show "byte3 (unat b mod 16 * 4 + unat c div 64) (unat c mod 64) = c"
    unfolding byte3_def sums div_mult_mod_eq w ..
qed

lemma decode_quanta_EncodeToString: "decode_quanta (EncodeToString bs) = Ok bs"
  by (induction bs rule: EncodeToString.induct) simp_all

lemma EncodeToString_chars:
  "c \<in> set (EncodeToString bs) \<Longrightarrow> c = CHR ''='' \<or> (\<exists>n < 64. c = enc_char n)"
  by (induction bs rule: EncodeToString.induct) (auto intro: sextet_bounds)

lemma EncodeToString_no_breaks:
  assumes "c \<in> set (EncodeToString bs)"
  shows "c \<noteq> CHR 0x0A \<and> c \<noteq> CHR 0x0D"
  using EncodeToString_chars [OF assms] by auto

lemma DecodeString_EncodeToString: "DecodeString (EncodeToString bs) = Ok bs"
proof -
  have "filter (\<lambda>c. c \<noteq> CHR 0x0A \<and> c \<noteq> CHR 0x0D) (EncodeToString bs) = EncodeToString bs"
    using EncodeToString_no_breaks by (intro filter_True) blast
  then show ?thesis by (simp only: DecodeString_def decode_quanta_EncodeToString)
qed

end
