(* ===== verification/Http_Api.thy ===== *)
theory Http_Api
  imports Go_Base64 Go_Strings
begin

text \<open>
  \<^verbatim>\<open>src/httpapi/httpapi.go\<close>: the HTTP API. A handler gets a request and writes to a response: the
  status is the first one written, 200 when the body starts first, and the body is a sequence of
  JSON values (one per \<open>Encode\<close>). JSON is modelled at the level of values; multiaddresses are their
  strings. The gorilla router is modelled by its documented matching of paths and methods: a path
  with another method answers 405, an unknown path 404.

  CIDs, the routing of the first head, the private key codec and the shared datastore are
  parameters. Lines printed by the handlers are not modelled.
\<close>

section \<open>Requests and responses\<close>

record api_peer_info =
  pi_AddrInfo :: "string addr_info"
  pi_HeadID :: peer_id
  pi_AgentVersion :: string
  pi_Protocols :: "string list"

record api_swarm_peer =
  sp_HostID :: peer_id
  sp_ID :: peer_id
  sp_Addr :: string
  sp_Direction :: int

datatype json =
    JString string
  | JNull
  | JInvalid                              \<comment> \<open>a body that is not JSON\<close>
  | JOther                                \<comment> \<open>a JSON value that is no string\<close>
  | JAddrInfo "string addr_info"
  | JEntry string
  | JPeerInfo api_peer_info
  | JSwarmPeer api_swarm_peer

record response =
  rs_status :: "nat option"
  rs_body :: "json list"

definition new_response :: response where
  "new_response = \<lparr>rs_status = None, rs_body = []\<rparr>"

definition WriteHeader :: "nat \<Rightarrow> response \<Rightarrow> response" where
  "WriteHeader code w = (if rs_status w = None then w\<lparr>rs_status := Some code\<rparr> else w)"

definition Encode :: "json \<Rightarrow> response \<Rightarrow> response" where
  "Encode v w = (WriteHeader 200 w)\<lparr>rs_body := rs_body w @ [v]\<rparr>"

text \<open>The status the client sees.\<close>

definition status :: "response \<Rightarrow> nat" where
  "status w = (case rs_status w of None \<Rightarrow> 200 | Some c \<Rightarrow> c)"

text \<open>\<open>json.Decoder.Decode\<close> into a string variable: null leaves it empty.\<close>

fun json_decode_string :: "json \<Rightarrow> string outcome" where
  "json_decode_string (JString s) = Ok s"
| "json_decode_string JNull = Ok []"
| "json_decode_string JInvalid = Error (Errorf ''invalid character'')"
| "json_decode_string _ = Error (Errorf ''json: cannot unmarshal'')"

section \<open>What the handlers read\<close>

record api_pstore =
  aps_Peers :: "peer_id list"
  aps_PeerInfo :: "peer_id \<Rightarrow> string addr_info"
  aps_GetProtocols :: "peer_id \<Rightarrow> string list outcome"
  aps_AgentVersion :: "peer_id \<Rightarrow> string outcome"

record api_head =
  ah_ID :: peer_id
  ah_Addrs :: "string list"
  ah_Peerstore :: api_pstore
  ah_Conns :: "(peer_id \<times> string \<times> int) list"      \<comment> \<open>remote peer, multiaddress, direction\<close>

record ('s, 'cid) api_env =
  ae_heads :: "api_head list"
  ae_IDString :: "peer_id \<Rightarrow> string"
  ae_cidDecode :: "string \<Rightarrow> 'cid outcome"
  ae_FindProviders :: "'cid \<Rightarrow> int \<Rightarrow> 's \<Rightarrow> string addr_info list"       \<comment> \<open>of head 0\<close>
  ae_AddProvider :: "'cid \<Rightarrow> peer_id \<Rightarrow> 's \<Rightarrow> 's"                     \<comment> \<open>of head 0\<close>
  ae_QueryRecords :: "'s \<Rightarrow> string list outcome"
  ae_EncodeError :: "json \<Rightarrow> (go_error \<times> bool) option"   \<comment> \<open>error of \<open>Encode\<close>; is it a \<open>net.Error\<close>\<close>

section \<open>Handlers\<close>

definition headsHandler :: "('s, 'cid) api_env \<Rightarrow> response \<Rightarrow> response" where
  "headsHandler env w =
     fold (\<lambda>hed w. Encode (JAddrInfo \<lparr>ai_ID = ah_ID hed, ai_Addrs = ah_Addrs hed\<rparr>) w) (ae_heads env) w"

text \<open>The loop of \<open>recordFetchHandler\<close>: the state, the response and \<open>first\<close>.\<close>

fun fetch_loop ::
    "('s, 'cid) api_env \<Rightarrow> 'cid \<Rightarrow> string addr_info list \<Rightarrow> 's \<times> response \<times> bool \<Rightarrow>
     's \<times> response \<times> bool" where
  "fetch_loop env cid [] (s, w, first) = (s, w, first)"
| "fetch_loop env cid (info # infos) (s, w, first) =
     fetch_loop env cid infos
       (ae_AddProvider env cid (ai_ID info) s, Encode (JAddrInfo info) w, False)"

definition recordFetchHandler ::
    "('s, 'cid) api_env \<Rightarrow> string \<Rightarrow> string \<Rightarrow> 's \<Rightarrow> response \<Rightarrow> 's \<times> response outcome" where
  "recordFetchHandler env cidStr nProvidersStr s w =
     (case ae_cidDecode env cidStr of
        Error e \<Rightarrow> (s, Ok (WriteHeader 400 w))
      | Panic p \<Rightarrow> (s, Panic p)
      | Ok cid \<Rightarrow>
          (case (if nProvidersStr \<noteq> [] then Atoi nProvidersStr else Ok 1) of
             Error e \<Rightarrow> (s, Ok (WriteHeader 400 w))
           | Panic p \<Rightarrow> (s, Panic p)
           | Ok nProviders \<Rightarrow>
               if ae_heads env = [] then (s, Panic IndexOutOfRange)
               else (case fetch_loop env cid (ae_FindProviders env cid nProviders s) (s, w, True) of
                       (s', w', first) \<Rightarrow> (s', Ok (if first then WriteHeader 404 w' else w')))))"

definition recordListHandler :: "('s, 'cid) api_env \<Rightarrow> 's \<Rightarrow> response \<Rightarrow> response outcome" where
  "recordListHandler env s w =
     (case ae_QueryRecords env s of
        Error e \<Rightarrow> Ok (WriteHeader 500 w)
      | Panic p \<Rightarrow> Panic p
      | Ok results \<Rightarrow> Ok (fold (\<lambda>entry w. Encode (JEntry entry) w) results w))"

definition pstore_peer :: "api_head \<Rightarrow> peer_id \<Rightarrow> json" where
  "pstore_peer hed p =
     (let ps = ah_Peerstore hed
      in JPeerInfo \<lparr>pi_AddrInfo = aps_PeerInfo ps p, pi_HeadID = ah_ID hed,
           pi_AgentVersion = (case aps_AgentVersion ps p of Ok v \<Rightarrow> v | _ \<Rightarrow> []),
           pi_Protocols = (case aps_GetProtocols ps p of Ok protocols \<Rightarrow> protocols | _ \<Rightarrow> [])\<rparr>)"

text \<open>The nested loops over heads and peers; a network error ends the handler.\<close>

fun pstore_loop :: "('s, 'cid) api_env \<Rightarrow> json list \<Rightarrow> response \<Rightarrow> response" where
  "pstore_loop env [] w = w"
| "pstore_loop env (v # vs) w =
     (case ae_EncodeError env v of
        None \<Rightarrow> pstore_loop env vs (Encode v w)
      | Some (err, isNetErr) \<Rightarrow> if isNetErr then w else pstore_loop env vs w)"

definition pstoreListHandler :: "('s, 'cid) api_env \<Rightarrow> response \<Rightarrow> response" where
  "pstoreListHandler env w =
     pstore_loop env (concat (map (\<lambda>hed. map (pstore_peer hed) (aps_Peers (ah_Peerstore hed))) (ae_heads env))) w"

definition swarm_peer :: "api_head \<Rightarrow> peer_id \<times> string \<times> int \<Rightarrow> json" where
  "swarm_peer hed = (\<lambda>(remote, addr, dir).
     JSwarmPeer \<lparr>sp_HostID = ah_ID hed, sp_ID = remote, sp_Addr = addr, sp_Direction = dir\<rparr>)"

definition swarmPeersHandler :: "('s, 'cid) api_env \<Rightarrow> string \<Rightarrow> response \<Rightarrow> response" where
  "swarmPeersHandler env headID w =
     fold (\<lambda>hed w.
         if headID \<noteq> [] \<and> headID \<noteq> ae_IDString env (ah_ID hed) then w
         else fold (\<lambda>c w. Encode (swarm_peer hed c) w) (ah_Conns hed) w)
       (ae_heads env) w"

subsection \<open>Identity generation\<close>

record 'pk key_codec =
  kc_Marshal :: "'pk \<Rightarrow> bytes outcome"
  kc_Unmarshal :: "bytes \<Rightarrow> 'pk outcome"

text \<open>\<open>add\<close> and \<open>rem\<close> are the operations of \<open>idgen.HydraIdentityGenerator\<close>. \<open>None\<close>: no return.\<close>

definition idgenAddHandler ::
    "'pk key_codec \<Rightarrow> ('g \<Rightarrow> ('g \<times> 'pk outcome) option) \<Rightarrow> 'g \<Rightarrow> response \<Rightarrow>
     ('g \<times> response outcome) option" where
  "idgenAddHandler kc add g w =
     (case add g of
        None \<Rightarrow> None
      | Some (g', Error e) \<Rightarrow> Some (g', Ok (WriteHeader 500 w))
      | Some (g', Panic p) \<Rightarrow> Some (g', Panic p)
      | Some (g', Ok pk) \<Rightarrow>
          (case kc_Marshal kc pk of
             Error e \<Rightarrow> Some (g', Ok (WriteHeader 500 w))
           | Panic p \<Rightarrow> Some (g', Panic p)
           | Ok b \<Rightarrow> Some (g', Ok (Encode (JString (EncodeToString b)) w))))"

definition idgenRemoveHandler ::
    "'pk key_codec \<Rightarrow> ('g \<Rightarrow> 'pk \<Rightarrow> 'g \<times> unit outcome) \<Rightarrow> 'g \<Rightarrow> json \<Rightarrow> response \<Rightarrow>
     'g \<times> response outcome" where
  "idgenRemoveHandler kc rem g body w =
     (case json_decode_string body of
        Error e \<Rightarrow> (g, Ok (WriteHeader 400 w))
      | Panic p \<Rightarrow> (g, Panic p)
      | Ok b64 \<Rightarrow>
          (case DecodeString b64 of
             Error e \<Rightarrow> (g, Ok (WriteHeader 400 w))
           | Panic p \<Rightarrow> (g, Panic p)
           | Ok bytes \<Rightarrow>
               (case kc_Unmarshal kc bytes of
                  Error e \<Rightarrow> (g, Ok (WriteHeader 400 w))
                | Panic p \<Rightarrow> (g, Panic p)
                | Ok pk \<Rightarrow>
                    (case rem g pk of
                       (g', Error e) \<Rightarrow> (g', Ok (WriteHeader 500 w))
                     | (g', Panic p) \<Rightarrow> (g', Panic p)
                     | (g', Ok _) \<Rightarrow> (g', Ok (WriteHeader 204 w))))))"

subsection \<open>The router\<close>

record ('g, 's) api_state =
  as_gen :: 'g
  as_store :: 's

definition fetch_path :: string where
  "fetch_path = ''/records/fetch/''"

text \<open>
  The answer to one request: method, path, form values and body. A panic of a handler is recovered
  by the server, which drops the connection.
\<close>

definition NewRouter ::
    "('s, 'cid) api_env \<Rightarrow> 'pk key_codec \<Rightarrow> ('g \<Rightarrow> ('g \<times> 'pk outcome) option) \<Rightarrow>
     ('g \<Rightarrow> 'pk \<Rightarrow> 'g \<times> unit outcome) \<Rightarrow> string \<Rightarrow> string \<Rightarrow> (string \<Rightarrow> string) \<Rightarrow> json \<Rightarrow>
     ('g, 's) api_state \<Rightarrow> (('g, 's) api_state \<times> response outcome) option" where
  "NewRouter env kc add rem meth path form body st =
     (let w = new_response
      in if path = ''/heads'' then Some (st, Ok (headsHandler env w))
         else if HasPrefix path fetch_path \<and> TrimPrefix path fetch_path \<noteq> [] \<and>
                 CHR ''/'' \<notin> set (TrimPrefix path fetch_path)
         then (case recordFetchHandler env (TrimPrefix path fetch_path) (form ''nProviders'')
                     (as_store st) w of (s', r) \<Rightarrow> Some (st\<lparr>as_store := s'\<rparr>, r))
         else if path = ''/records/list'' then Some (st, recordListHandler env (as_store st) w)
         else if path = ''/idgen/add''
         then (if meth = ''POST''
               then map_option (\<lambda>(g', r). (st\<lparr>as_gen := g'\<rparr>, r)) (idgenAddHandler kc add (as_gen st) w)
               else Some (st, Ok (WriteHeader 405 w)))
         else if path = ''/idgen/remove''
         then (if meth = ''POST''
               then (case idgenRemoveHandler kc rem (as_gen st) body w of
                       (g', r) \<Rightarrow> Some (st\<lparr>as_gen := g'\<rparr>, r))
               else Some (st, Ok (WriteHeader 405 w)))
         else if path = ''/swarm/peers'' then Some (st, Ok (swarmPeersHandler env (form ''head'') w))
         else if path = ''/pstore/list'' then Some (st, Ok (pstoreListHandler env w))
         else Some (st, Ok (WriteHeader 404 w)))"

section \<open>Facts\<close>

lemma Encode_fields [simp]:
  "rs_body (Encode v w) = rs_body w @ [v]"
  "status (Encode v w) = (case rs_status w of None \<Rightarrow> 200 | Some c \<Rightarrow> c)"
  "rs_status (Encode v w) \<noteq> None"
  by (auto simp: Encode_def WriteHeader_def status_def split: option.split)

lemma fold_Encode_body: "rs_body (fold (\<lambda>x. Encode (f x)) xs w) = rs_body w @ map f xs"
  by (induction xs arbitrary: w) auto

lemma status_WriteHeader [simp]:
  "status (WriteHeader c w) = (if rs_status w = None then c else status w)"
  "rs_body (WriteHeader c w) = rs_body w"
  by (auto simp: WriteHeader_def status_def)

lemma fetch_loop_eq:
  "fetch_loop env cid infos (s, w, first) =
     (fold (\<lambda>info. ae_AddProvider env cid (ai_ID info)) infos s,
      fold (\<lambda>info. Encode (JAddrInfo info)) infos w, first \<and> infos = [])"
  by (induction infos arbitrary: s w first) auto

lemma fold_Encode_status:
  "rs_status w = None \<Longrightarrow> status (fold (\<lambda>x. Encode (f x)) xs w) = 200"
proof (induction xs rule: rev_induct)
  case (snoc x xs)
  have "rs_status (fold (\<lambda>x. Encode (f x)) xs w) \<in> {None, Some 200}"
    using snoc.prems by (induction xs arbitrary: w rule: rev_induct) (auto simp: Encode_def WriteHeader_def)
  then show ?case by (auto split: option.split)
qed (simp add: status_def)

section \<open>Properties\<close>

text \<open>
  \<open>/records/fetch\<close> answers 400 to a bad CID or a bad number of providers and changes nothing; it
  answers 404 when the network finds no provider; otherwise it answers 200 with the providers found,
  in order, and every one of them (its ID without its addresses) has been added to the first head.
  The default is one provider. A hydra without heads makes the handler panic.
\<close>

theorem recordFetchHandler_correct:
  "((\<exists>e. ae_cidDecode env cidStr = Error e) \<or>
     (\<exists>cid e. ae_cidDecode env cidStr = Ok cid \<and> nStr \<noteq> [] \<and> Atoi nStr = Error e) \<longrightarrow>
     (\<exists>w. recordFetchHandler env cidStr nStr s new_response = (s, Ok w) \<and> status w = 400 \<and> rs_body w = [])) \<and>
   (\<forall>cid n infos. ae_cidDecode env cidStr = Ok cid \<longrightarrow>
      (if nStr = [] then n = 1 else Atoi nStr = Ok n) \<longrightarrow> infos = ae_FindProviders env cid n s \<longrightarrow>
      (if ae_heads env = [] then recordFetchHandler env cidStr nStr s new_response = (s, Panic IndexOutOfRange)
       else \<exists>w. recordFetchHandler env cidStr nStr s new_response =
              (fold (\<lambda>info. ae_AddProvider env cid (ai_ID info)) infos s, Ok w) \<and>
            status w = (if infos = [] then 404 else 200) \<and> rs_body w = map JAddrInfo infos))"
proof (intro conjI impI allI)
  assume "(\<exists>e. ae_cidDecode env cidStr = Error e) \<or>
     (\<exists>cid e. ae_cidDecode env cidStr = Ok cid \<and> nStr \<noteq> [] \<and> Atoi nStr = Error e)"
  then show "\<exists>w. recordFetchHandler env cidStr nStr s new_response = (s, Ok w) \<and> status w = 400 \<and> rs_body w = []"
    by (auto simp: recordFetchHandler_def new_response_def)
next
  fix cid n infos
  assume a: "ae_cidDecode env cidStr = Ok cid" "if nStr = [] then n = 1 else Atoi nStr = Ok n"
    "infos = ae_FindProviders env cid n s"
  have "rs_status (new_response) = None" "rs_body new_response = []" by (simp_all add: new_response_def)
  then show "if ae_heads env = [] then recordFetchHandler env cidStr nStr s new_response = (s, Panic IndexOutOfRange)
       else \<exists>w. recordFetchHandler env cidStr nStr s new_response =
              (fold (\<lambda>info. ae_AddProvider env cid (ai_ID info)) infos s, Ok w) \<and>
            status w = (if infos = [] then 404 else 200) \<and> rs_body w = map JAddrInfo infos"
    using a by (auto simp: recordFetchHandler_def fetch_loop_eq fold_Encode_body fold_Encode_status
        split: if_splits)
qed

definition example_api :: "((string \<times> peer_id) list, string) api_env" where
  "example_api = \<lparr>ae_heads = [\<lparr>ah_ID = [1], ah_Addrs = [], ah_Peerstore = \<lparr>aps_Peers = [],
       aps_PeerInfo = (\<lambda>p. \<lparr>ai_ID = p, ai_Addrs = []\<rparr>), aps_GetProtocols = (\<lambda>_. Ok []),
       aps_AgentVersion = (\<lambda>_. Ok [])\<rparr>, ah_Conns = []\<rparr>],
     ae_IDString = (\<lambda>_. ''Qm''),
     ae_cidDecode = (\<lambda>s. if s = [] then Error (Errorf ''cid too short'') else Ok s),
     ae_FindProviders = (\<lambda>_ n _. take (nat n) [\<lparr>ai_ID = [7], ai_Addrs = [''/ip4/1.2.3.4'']\<rparr>]),
     ae_AddProvider = (\<lambda>cid p s. (cid, p) # s), ae_QueryRecords = (\<lambda>_. Ok []),
     ae_EncodeError = (\<lambda>_. None)\<rparr>"

theorem recordFetchHandler_correct_witness:
  "\<exists>w. recordFetchHandler example_api ''bafy'' [] [] new_response = ([(''bafy'', [7])], Ok w) \<and>
     status w = 200 \<and> rs_body w = [JAddrInfo \<lparr>ai_ID = [7], ai_Addrs = [''/ip4/1.2.3.4'']\<rparr>]"
proof -
  have d: "ae_cidDecode example_api ''bafy'' = Ok ''bafy''" by (simp add: example_api_def)
  have f: "ae_FindProviders example_api ''bafy'' 1 [] = [\<lparr>ai_ID = [7], ai_Addrs = [''/ip4/1.2.3.4'']\<rparr>]"
    by (simp add: example_api_def)
  have n: "if ([] :: string) = [] then (1 :: int) = 1 else Atoi [] = Ok 1" by simp
  from recordFetchHandler_correct [THEN conjunct2, rule_format, OF d n refl] f show ?thesis
    by (simp add: example_api_def)
qed

end
