(* ===== verification/Delegated_Id_Gen.thy ===== *)
theory Delegated_Id_Gen
  imports Cleaning_Id_Gen Http_Api
begin

text \<open>
  \<^verbatim>\<open>src/idgen/delegated.go\<close>: an identity generator that asks the HTTP API of another hydra. The
  transport is the parameter \<open>post\<close> (URL path and body, on a world \<open>'w\<close>), which answers with a
  response or fails; \<open>None\<close> is a request that is never answered. \<open>serve\<close> is the transport that
  connects to the handlers of theory \<open>Http_Api\<close> over a generator, so that both ends of the protocol
  are checked against each other. The server address is part of the transport.
\<close>

section \<open>The code\<close>

type_synonym 'w http_post = "string \<Rightarrow> json \<Rightarrow> 'w \<Rightarrow> ('w \<times> response outcome) option"

definition unexpected_status :: "nat \<Rightarrow> go_error" where
  "unexpected_status code = Errorf (''unexpected HTTP status '' @ Itoa (int code))"

text \<open>The first JSON value of a body; an empty body is no JSON (\<open>io.EOF\<close>).\<close>

definition body_json :: "response \<Rightarrow> json" where
  "body_json res = (case rs_body res of [] \<Rightarrow> JInvalid | v # _ \<Rightarrow> v)"

definition delegated_key :: "'pk key_codec \<Rightarrow> response \<Rightarrow> 'pk outcome" where
  "delegated_key kc res =
     (if status res \<noteq> 200 then Error (unexpected_status (status res))
      else (case json_decode_string (body_json res) of
              Error e \<Rightarrow> Error e
            | Panic p \<Rightarrow> Panic p
            | Ok b64 \<Rightarrow>
                (case DecodeString b64 of
                   Error e \<Rightarrow> Error e
                 | Panic p \<Rightarrow> Panic p
                 | Ok bytes \<Rightarrow> kc_Unmarshal kc bytes)))"

definition DelegatedIDGenerator_AddBalanced ::
    "'w http_post \<Rightarrow> 'pk key_codec \<Rightarrow> 'w \<Rightarrow> ('w \<times> 'pk outcome) option" where
  "DelegatedIDGenerator_AddBalanced post kc w =
     (case post ''/idgen/add'' JInvalid w of
        None \<Rightarrow> None
      | Some (w', Error e) \<Rightarrow> Some (w', Error e)
      | Some (w', Panic p) \<Rightarrow> Some (w', Panic p)
      | Some (w', Ok res) \<Rightarrow> Some (w', delegated_key kc res))"

text \<open>\<open>post\<close> is answered here: \<open>Remove\<close> of the generator interface has no blocking result, so the
  request must have an answer.\<close>

definition DelegatedIDGenerator_Remove ::
    "(string \<Rightarrow> json \<Rightarrow> 'w \<Rightarrow> 'w \<times> response outcome) \<Rightarrow> 'pk key_codec \<Rightarrow> 'w \<Rightarrow> 'pk \<Rightarrow>
     'w \<times> unit outcome" where
  "DelegatedIDGenerator_Remove post kc w privKey =
     (case kc_Marshal kc privKey of
        Error e \<Rightarrow> (w, Error e)
      | Panic p \<Rightarrow> (w, Panic p)
      | Ok b \<Rightarrow>
          (case post ''/idgen/remove'' (JString (EncodeToString b)) w of
             (w', Error e) \<Rightarrow> (w', Error e)
           | (w', Panic p) \<Rightarrow> (w', Panic p)
           | (w', Ok res) \<Rightarrow>
               if status res \<noteq> 204 then (w', Error (unexpected_status (status res))) else (w', Ok ())))"

section \<open>The server\<close>

definition connection_lost :: go_error where
  "connection_lost = Errorf ''EOF''"

text \<open>The server's answer as the client sees it: a panic of the handler closes the connection.\<close>

fun over_wire :: "'a outcome \<Rightarrow> 'a outcome" where
  "over_wire (Panic p) = Error connection_lost"
| "over_wire r = r"

definition serve_add ::
    "'pk key_codec \<Rightarrow> ('g \<Rightarrow> ('g \<times> 'pk outcome) option) \<Rightarrow> 'g http_post" where
  "serve_add kc add path body g =
     map_option (\<lambda>(g', r). (g', over_wire r)) (idgenAddHandler kc add g new_response)"

definition serve_remove ::
    "'pk key_codec \<Rightarrow> ('g \<Rightarrow> 'pk \<Rightarrow> 'g \<times> unit outcome) \<Rightarrow> string \<Rightarrow> json \<Rightarrow> 'g \<Rightarrow> 'g \<times> response outcome" where
  "serve_remove kc rem path body g =
     (case idgenRemoveHandler kc rem g body new_response of (g', r) \<Rightarrow> (g', over_wire r))"

abbreviation delegated_add where
  "delegated_add kc add \<equiv> DelegatedIDGenerator_AddBalanced (serve_add kc add) kc"

abbreviation delegated_remove where
  "delegated_remove kc rem \<equiv> DelegatedIDGenerator_Remove (serve_remove kc rem) kc"

text \<open>These are the answers of the router.\<close>

lemma serve_add_router:
  "serve_add kc add ''/idgen/add'' body g =
     map_option (\<lambda>(st, r). (as_gen st, over_wire r))
       (NewRouter env kc add rem ''POST'' ''/idgen/add'' form body \<lparr>as_gen = g, as_store = s\<rparr>)"
  by (cases "idgenAddHandler kc add g new_response")
    (auto simp: serve_add_def NewRouter_def HasPrefix_def fetch_path_def)

lemma serve_remove_router:
  "Some (serve_remove kc rem ''/idgen/remove'' body g) =
     map_option (\<lambda>(st, r). (as_gen st, over_wire r))
       (NewRouter env kc add rem ''POST'' ''/idgen/remove'' form body \<lparr>as_gen = g, as_store = s\<rparr>)"
  by (cases "idgenRemoveHandler kc rem g body new_response")
    (auto simp: serve_remove_def NewRouter_def HasPrefix_def fetch_path_def)

section \<open>Delegation is transparent\<close>

text \<open>What the code relies on of \<open>MarshalPrivateKey\<close> and \<open>UnmarshalPrivateKey\<close>.\<close>

definition codec_ok :: "'pk key_codec \<Rightarrow> bool" where
  "codec_ok kc \<longleftrightarrow> (\<forall>pk. \<exists>b. kc_Marshal kc pk = Ok b \<and> kc_Unmarshal kc b = Ok pk)"

lemma codec_okD: "codec_ok kc \<Longrightarrow> \<exists>b. kc_Marshal kc pk = Ok b \<and> kc_Unmarshal kc b = Ok pk"
  by (simp add: codec_ok_def)

definition client_add :: "'pk outcome \<Rightarrow> 'pk outcome" where
  "client_add r = (case r of Ok pk \<Rightarrow> Ok pk | Error e \<Rightarrow> Error (unexpected_status 500)
     | Panic p \<Rightarrow> Error connection_lost)"

definition client_remove :: "unit outcome \<Rightarrow> unit outcome" where
  "client_remove r = (case r of Ok u \<Rightarrow> Ok () | Error e \<Rightarrow> Error (unexpected_status 500)
     | Panic p \<Rightarrow> Error connection_lost)"

lemma delegated_add_eq:
  assumes "codec_ok kc"
  shows "delegated_add kc add g = map_option (\<lambda>(g', r). (g', client_add r)) (add g)"
proof -
  have k: "delegated_key kc (Encode (JString (EncodeToString b)) new_response) = kc_Unmarshal kc b" for b
    by (simp add: delegated_key_def body_json_def new_response_def DecodeString_EncodeToString)
  have e: "delegated_key kc (WriteHeader 500 new_response) = Error (unexpected_status 500)"
    by (simp add: delegated_key_def new_response_def)
  show ?thesis
  proof (cases "add g")
    case (Some a)
    obtain g' r where a: "a = (g', r)" by (cases a)
    show ?thesis
    proof (cases r)
      case (Ok pk)
      obtain b where "kc_Marshal kc pk = Ok b" "kc_Unmarshal kc b = Ok pk"
        using codec_okD [OF assms] by blast
      with Some a Ok k show ?thesis
        by (simp add: DelegatedIDGenerator_AddBalanced_def serve_add_def idgenAddHandler_def client_add_def)
    qed (use Some a e in \<open>simp_all add: DelegatedIDGenerator_AddBalanced_def serve_add_def
        idgenAddHandler_def client_add_def\<close>)
  qed (simp add: DelegatedIDGenerator_AddBalanced_def serve_add_def idgenAddHandler_def)
qed

lemma delegated_remove_eq:
  assumes "codec_ok kc"
  shows "delegated_remove kc rem g pk = (case rem g pk of (g', r) \<Rightarrow> (g', client_remove r))"
proof -
  obtain b where b: "kc_Marshal kc pk = Ok b" "kc_Unmarshal kc b = Ok pk"
    using codec_okD [OF assms] by blast
  obtain g' r where r: "rem g pk = (g', r)" by (cases "rem g pk")
  show ?thesis
    by (cases r) (simp_all add: DelegatedIDGenerator_Remove_def b serve_remove_def idgenRemoveHandler_def
        DecodeString_EncodeToString r client_remove_def new_response_def)
qed

section \<open>Properties\<close>

text \<open>
  C13: delegation is transparent. A delegated generator whose requests reach the \<open>/idgen\<close> handlers of
  another hydra behaves as that hydra's own generator, whatever that generator is: the same keys
  come back through marshalling, base64 and JSON, the server's generator changes in the same way,
  and a call fails exactly when the server's call fails (with the status 500 as the error, or a lost
  connection when the server panics).
\<close>

theorem delegation_transparent:
  assumes "codec_ok kc"
  shows "DelegatedIDGenerator_AddBalanced (serve_add kc add) kc g =
      map_option (\<lambda>(g', r). (g', case r of Ok pk \<Rightarrow> Ok pk
         | Error e \<Rightarrow> Error (unexpected_status 500) | Panic p \<Rightarrow> Error connection_lost)) (add g) \<and>
    DelegatedIDGenerator_Remove (serve_remove kc rem) kc g pk =
      (case rem g pk of (g', r) \<Rightarrow> (g', case r of Ok u \<Rightarrow> Ok ()
         | Error e \<Rightarrow> Error (unexpected_status 500) | Panic p \<Rightarrow> Error connection_lost))"
  using delegated_add_eq [OF assms, of add g] delegated_remove_eq [OF assms, of rem g pk]
  unfolding client_add_def client_remove_def by simp

definition bytes_codec :: "bytes key_codec" where
  "bytes_codec = \<lparr>kc_Marshal = Ok, kc_Unmarshal = Ok\<rparr>"

lemma bytes_codec_ok: "codec_ok bytes_codec"
  by (simp add: codec_ok_def bytes_codec_def)

theorem delegation_transparent_witness:
  "\<exists>g. DelegatedIDGenerator_AddBalanced (serve_add bytes_codec (AddBalanced example_env)) bytes_codec
       example_gen1 = Some (g, Ok [3, 0, 0, 0]) \<and> gkeys g = {[192, 0], [128, 0]}"
proof -
  obtain g where "AddBalanced example_env example_gen1 = Some (g, Ok [3, 0, 0, 0])"
    using example_add(1) by auto
  moreover have "gkeys g = {[192, 0], [128, 0]}"
    using big.add_Ok [of example_env 2 example_gen1 g "[3, 0, 0, 0]"] calculation example_add
      example_env_ok(1) example_gen1_ok
    by (auto simp: wf_gen_env_def trieKeyOf_def)
  ultimately show ?thesis
    using delegation_transparent [OF bytes_codec_ok, of "AddBalanced example_env" example_gen1] by auto
qed

end
