(* ===== verification/Swarm_Id_Gen.thy ===== *)
theory Swarm_Id_Gen
  imports Delegated_Id_Gen
begin

text \<open>
  A swarm of hydras that share one identity server: the composition of \<^verbatim>\<open>src/idgen/cleaning.go\<close>,
  \<^verbatim>\<open>src/idgen/delegated.go\<close>, the \<^verbatim>\<open>/idgen\<close> handlers of \<^verbatim>\<open>src/httpapi/httpapi.go\<close> and
  \<^verbatim>\<open>src/idgen/idgen.go\<close>, as \<^verbatim>\<open>main\<close> sets it up with \<^verbatim>\<open>-idgen-addr\<close>. Every client hydra wraps the delegated
  generator in a cleaning one.

  A call of the cleaning generator is not atomic: \<open>AddBalanced\<close> and \<open>Remove\<close> first make their request and
  take the lock of the wrapper afterwards, and \<open>Clean\<close> makes a request for every key. So a client is
  given by its atomic steps, each at most one request and what follows it up to the next one, and the
  steps of different clients interleave in any order. One client makes one call at a time, as \<^verbatim>\<open>main\<close>
  does: \<open>NewHydra\<close> makes its heads one after the other, and \<open>Clean\<close> is called when it has returned. The
  server makes its own identities before it answers requests.

  The swarm is first studied over any generator in the locale \<open>identity_generator\<close>, and the delegated
  generator is shown to be one. A request is answered: runs in which the server panics are left out
  (\<open>no_panic\<close>), since a panic in the middle of an insertion may leave Go's trie half changed, and so are
  runs in which an answer is lost, after which the client does not know the key it was given.
\<close>

section \<open>One client\<close>

text \<open>
  Where a client is in its call: \<open>Added\<close> and \<open>Removed\<close> are the moments between the answer of the server and
  the bookkeeping under the lock, and \<open>Cleaning\<close> is the loop of \<open>Clean\<close> with the keys it has still to
  remove and the errors so far.
\<close>

datatype 'pk client_phase =
    Ready | Added 'pk | Removed 'pk | Cleaning "'pk list" "go_error option"

record 'pk client =
  cl_phase :: "'pk client_phase"
  cl_keys :: "'pk list"                \<comment> \<open>\<open>c.keys\<close>\<close>

datatype 'pk client_op = Call_Add | Call_Remove 'pk | Call_Clean | Go_On

text \<open>What the server has done for client \<open>i\<close>: handed out a private key, or taken one back.\<close>

datatype 'pk server_event = Issued nat 'pk | Given_Back nat 'pk

text \<open>
  One step of client \<open>i\<close> at the server \<open>s\<close>; \<open>None\<close> when the step is not possible: another call is under
  way, the key is not one of its own, or the request has no answer.
\<close>

definition client_step ::
    "('s \<Rightarrow> ('s \<times> 'pk outcome) option) \<Rightarrow> ('s \<Rightarrow> 'pk \<Rightarrow> 's \<times> unit outcome) \<Rightarrow>
     ('pk \<Rightarrow> 'pk \<Rightarrow> bool) \<Rightarrow> (go_error option \<Rightarrow> go_error \<Rightarrow> go_error) \<Rightarrow> nat \<Rightarrow> 'pk client_op \<Rightarrow>
     's \<times> 'pk client \<Rightarrow> ('s \<times> 'pk client \<times> 'pk server_event list) option" where
  "client_step add rem equals merr_append i cop = (\<lambda>(s, cl).
     case (cl_phase cl, cop) of
       (Ready, Call_Add) \<Rightarrow>
         (case add s of
            Some (s', Ok pk) \<Rightarrow> Some (s', cl\<lparr>cl_phase := Added pk\<rparr>, [Issued i pk])
          | Some (s', Error err) \<Rightarrow> Some (s', cl, [])
          | _ \<Rightarrow> None)
     | (Added pk, Go_On) \<Rightarrow> Some (s, cl\<lparr>cl_phase := Ready, cl_keys := cl_keys cl @ [pk]\<rparr>, [])
     | (Ready, Call_Remove privKey) \<Rightarrow>
         if privKey \<in> set (cl_keys cl)
         then (case rem s privKey of
                 (s', Ok _) \<Rightarrow> Some (s', cl\<lparr>cl_phase := Removed privKey\<rparr>, [Given_Back i privKey])
               | (s', Error err) \<Rightarrow> Some (s', cl, [])
               | _ \<Rightarrow> None)
         else None
     | (Removed privKey, Go_On) \<Rightarrow>
         Some (s, cl\<lparr>cl_phase := Ready, cl_keys := filter (\<lambda>pk. \<not> equals pk privKey) (cl_keys cl)\<rparr>, [])
     | (Ready, Call_Clean) \<Rightarrow> Some (s, cl\<lparr>cl_phase := Cleaning (cl_keys cl) None\<rparr>, [])
     | (Cleaning (pk # pks) errs, Go_On) \<Rightarrow>
         (case rem s pk of
            (s', Ok _) \<Rightarrow> Some (s', cl\<lparr>cl_phase := Cleaning pks errs\<rparr>, [Given_Back i pk])
          | (s', Error err) \<Rightarrow> Some (s', cl\<lparr>cl_phase := Cleaning pks (Some (merr_append errs err))\<rparr>, [])
          | _ \<Rightarrow> None)
     | (Cleaning [] errs, Go_On) \<Rightarrow> Some (s, cl\<lparr>cl_phase := Ready, cl_keys := []\<rparr>, [])
     | _ \<Rightarrow> None)"

text \<open>The keys that are a client's: in its list or on the way to it, and not given back.\<close>

definition in_use :: "('pk \<Rightarrow> 'pk \<Rightarrow> bool) \<Rightarrow> 'pk client \<Rightarrow> 'pk list" where
  "in_use equals cl =
     (case cl_phase cl of
        Ready \<Rightarrow> cl_keys cl
      | Added pk \<Rightarrow> cl_keys cl @ [pk]
      | Removed pk \<Rightarrow> filter (\<lambda>pk'. \<not> equals pk' pk) (cl_keys cl)
      | Cleaning pks errs \<Rightarrow> pks)"

section \<open>The steps of a client alone\<close>

text \<open>Without other clients the steps of a call are the call of theory \<open>Cleaning_Id_Gen\<close>.\<close>

fun client_run ::
    "('s \<Rightarrow> ('s \<times> 'pk outcome) option) \<Rightarrow> ('s \<Rightarrow> 'pk \<Rightarrow> 's \<times> unit outcome) \<Rightarrow>
     ('pk \<Rightarrow> 'pk \<Rightarrow> bool) \<Rightarrow> (go_error option \<Rightarrow> go_error \<Rightarrow> go_error) \<Rightarrow> nat \<Rightarrow> 'pk client_op list \<Rightarrow>
     's \<times> 'pk client \<Rightarrow> ('s \<times> 'pk client) option" where
  "client_run add rem equals merr i [] st = Some st"
| "client_run add rem equals merr i (cop # cops) st =
     (case client_step add rem equals merr i cop st of
        None \<Rightarrow> None
      | Some (s, cl, es) \<Rightarrow> client_run add rem equals merr i cops (s, cl))"

abbreviation ready :: "('s, 'pk) cleaning \<Rightarrow> 's \<times> 'pk client" where
  "ready c \<equiv> (cg_idgen c, \<lparr>cl_phase = Ready, cl_keys = cg_keys c\<rparr>)"

lemma client_AddBalanced:
  assumes "CleaningIDGenerator_AddBalanced add c = Some (c', Ok pk)"
  shows "client_run add rem equals merr i [Call_Add, Go_On] (ready c) = Some (ready c')"
  using assms
  by (auto simp: CleaningIDGenerator_AddBalanced_def client_step_def split: option.splits outcome.splits)

lemma client_AddBalanced_Error:
  assumes "CleaningIDGenerator_AddBalanced add c = Some (c', Error e)"
  shows "client_run add rem equals merr i [Call_Add] (ready c) = Some (ready c')"
  using assms
  by (auto simp: CleaningIDGenerator_AddBalanced_def client_step_def split: option.splits outcome.splits)

lemma client_Remove:
  assumes "CleaningIDGenerator_Remove rem equals c pk = (c', Ok u)" "pk \<in> set (cg_keys c)"
  shows "client_run add rem equals merr i [Call_Remove pk, Go_On] (ready c) = Some (ready c')"
  using assms
  by (auto simp: CleaningIDGenerator_Remove_def client_step_def split: prod.splits outcome.splits)

lemma client_clean_loop:
  "clean_loop rem merr s errs pks = (s', Ok errs') \<Longrightarrow>
   client_run add rem equals merr i (replicate (Suc (length pks)) Go_On)
     (s, \<lparr>cl_phase = Cleaning pks errs, cl_keys = ks\<rparr>) = Some (s', \<lparr>cl_phase = Ready, cl_keys = []\<rparr>)"
proof (induction pks arbitrary: s errs)
  case (Cons pk pks)
  obtain s1 r where r: "rem s pk = (s1, r)" by fastforce
  with Cons show ?case by (cases r) (simp_all add: client_step_def)
qed (simp add: client_step_def)

lemma client_Clean:
  assumes "CleaningIDGenerator_Clean rem merr c = (c', r)" "\<forall>p. r \<noteq> Panic p"
  shows "client_run add rem equals merr i (Call_Clean # replicate (Suc (length (cg_keys c))) Go_On) (ready c) =
    Some (ready c')"
proof -
  have no_error: "clean_loop rem merr s errs pks \<noteq> (s', Error e)" for s errs pks s' e
    by (induction pks arbitrary: s errs) (auto split: prod.splits outcome.splits)
  obtain s q where q: "clean_loop rem merr (cg_idgen c) None (cg_keys c) = (s, q)" by fastforce
  then obtain errs where errs: "q = Ok errs"
    using assms no_error by (cases q) (auto simp: CleaningIDGenerator_Clean_def)
  with q assms(1) have "c' = \<lparr>cg_idgen = s, cg_keys = []\<rparr>"
    by (auto simp: CleaningIDGenerator_Clean_def split: option.splits)
  moreover have "client_run add rem equals merr i (replicate (Suc (length (cg_keys c))) Go_On)
      (cg_idgen c, \<lparr>cl_phase = Cleaning (cg_keys c) None, cl_keys = cg_keys c\<rparr>) =
      Some (s, \<lparr>cl_phase = Ready, cl_keys = []\<rparr>)"
    by (rule client_clean_loop) (simp add: q errs)
  ultimately show ?thesis by (simp add: client_step_def)
qed

section \<open>Swarms\<close>

record ('s, 'pk) swarm =
  sw_server :: 's
  sw_clients :: "'pk client list"
  sw_log :: "'pk server_event list"

definition swarm_step ::
    "('s \<Rightarrow> ('s \<times> 'pk outcome) option) \<Rightarrow> ('s \<Rightarrow> 'pk \<Rightarrow> 's \<times> unit outcome) \<Rightarrow>
     ('pk \<Rightarrow> 'pk \<Rightarrow> bool) \<Rightarrow> (go_error option \<Rightarrow> go_error \<Rightarrow> go_error) \<Rightarrow>
     nat \<times> 'pk client_op \<Rightarrow> ('s, 'pk) swarm \<Rightarrow> ('s, 'pk) swarm option" where
  "swarm_step add rem equals merr call sw =
     (case call of (i, cop) \<Rightarrow>
        if i < length (sw_clients sw)
        then (case client_step add rem equals merr i cop (sw_server sw, sw_clients sw ! i) of
                None \<Rightarrow> None
              | Some (s, cl, es) \<Rightarrow>
                  Some \<lparr>sw_server = s, sw_clients = (sw_clients sw)[i := cl], sw_log = sw_log sw @ es\<rparr>)
        else None)"

fun swarm_run ::
    "('s \<Rightarrow> ('s \<times> 'pk outcome) option) \<Rightarrow> ('s \<Rightarrow> 'pk \<Rightarrow> 's \<times> unit outcome) \<Rightarrow>
     ('pk \<Rightarrow> 'pk \<Rightarrow> bool) \<Rightarrow> (go_error option \<Rightarrow> go_error \<Rightarrow> go_error) \<Rightarrow>
     (nat \<times> 'pk client_op) list \<Rightarrow> ('s, 'pk) swarm \<Rightarrow> ('s, 'pk) swarm option" where
  "swarm_run add rem equals merr [] sw = Some sw"
| "swarm_run add rem equals merr (call # calls) sw =
     Option.bind (swarm_step add rem equals merr call sw) (swarm_run add rem equals merr calls)"

text \<open>\<open>n\<close> clients that have just been started.\<close>

definition new_swarm :: "'s \<Rightarrow> nat \<Rightarrow> ('s, 'pk) swarm" where
  "new_swarm s n = \<lparr>sw_server = s,
     sw_clients = replicate n \<lparr>cl_phase = Ready, cl_keys = cg_keys (NewCleaningIDGenerator s)\<rparr>, sw_log = []\<rparr>"

abbreviation swarm_in_use :: "('pk \<Rightarrow> 'pk \<Rightarrow> bool) \<Rightarrow> ('s, 'pk) swarm \<Rightarrow> 'pk list" where
  "swarm_in_use equals sw \<equiv> concat (map (in_use equals) (sw_clients sw))"

section \<open>Logs\<close>

text \<open>To which client a DHT key is issued after a log, and logs in which no key is issued twice.\<close>

fun note_event :: "('pk \<Rightarrow> 'k) \<Rightarrow> ('k \<rightharpoonup> nat) \<Rightarrow> 'pk server_event \<Rightarrow> ('k \<rightharpoonup> nat)" where
  "note_event keyOf m (Issued i pk) = m(keyOf pk \<mapsto> i)"
| "note_event keyOf m (Given_Back i pk) = m(keyOf pk := None)"

definition issued_to :: "('pk \<Rightarrow> 'k) \<Rightarrow> 'pk server_event list \<Rightarrow> ('k \<rightharpoonup> nat)" where
  "issued_to keyOf log = foldl (note_event keyOf) Map.empty log"

fun event_ok :: "('pk \<Rightarrow> 'k) \<Rightarrow> ('k \<rightharpoonup> nat) \<Rightarrow> 'pk server_event \<Rightarrow> bool" where
  "event_ok keyOf m (Issued i pk) \<longleftrightarrow> m (keyOf pk) = None"
| "event_ok keyOf m (Given_Back i pk) \<longleftrightarrow> m (keyOf pk) = Some i"

definition log_ok :: "('pk \<Rightarrow> 'k) \<Rightarrow> 'pk server_event list \<Rightarrow> bool" where
  "log_ok keyOf log \<longleftrightarrow> (\<forall>n < length log. event_ok keyOf (issued_to keyOf (take n log)) (log ! n))"

lemma issued_to_simps [simp]:
  "issued_to keyOf [] = Map.empty"
  "issued_to keyOf (log @ [e]) = note_event keyOf (issued_to keyOf log) e"
  by (simp_all add: issued_to_def)

lemma log_ok_simps [simp]:
  "log_ok keyOf []"
  "log_ok keyOf (log @ [e]) \<longleftrightarrow> log_ok keyOf log \<and> event_ok keyOf (issued_to keyOf log) e"
  by (auto simp: log_ok_def less_Suc_eq nth_append)

text \<open>A key stays with the client it was issued to until that client gives it back.\<close>

lemma log_stays:
  assumes "log_ok keyOf log" "log ! i = Issued c a" "i < n" "n \<le> length log"
    and "\<forall>m. i < m \<and> m < n \<longrightarrow> \<not> (\<exists>pk. log ! m = Given_Back c pk \<and> keyOf pk = keyOf a)"
  shows "issued_to keyOf (take n log) (keyOf a) = Some c"
  using assms(3-5)
proof (induction n)
  case (Suc n)
  have next_event: "take (Suc n) log = take n log @ [log ! n]" using Suc.prems(2) by (simp add: take_Suc_conv_app_nth)
  show ?case
  proof (cases "n = i")
    case True
    show ?thesis unfolding next_event by (simp add: True assms(2))
  next
    case False
    then have "i < n" using Suc.prems(1) by simp
    then have m: "issued_to keyOf (take n log) (keyOf a) = Some c" using Suc by simp
    have "event_ok keyOf (issued_to keyOf (take n log)) (log ! n)"
      using assms(1) Suc.prems(2) by (simp add: log_ok_def)
    with m Suc.prems \<open>i < n\<close> show ?thesis by (cases "log ! n") (auto simp: next_event)
  qed
qed simp

lemma log_never_twice:
  assumes "log_ok keyOf log" "log ! i = Issued c a" "log ! j = Issued c' b" "i < j" "j < length log"
    and "keyOf a = keyOf b"
  shows "\<exists>m pk. i < m \<and> m < j \<and> log ! m = Given_Back c pk \<and> keyOf pk = keyOf a"
proof (rule ccontr)
  assume "\<not> ?thesis"
  then have "issued_to keyOf (take j log) (keyOf a) = Some c"
    using assms(5) by (intro log_stays [OF assms(1,2,4)]) auto
  moreover have "event_ok keyOf (issued_to keyOf (take j log)) (log ! j)"
    using assms(1,5) by (simp add: log_ok_def)
  ultimately show False by (simp add: assms(3,6))
qed

lemma distinct_concat_nth:
  "\<forall>i < length xss. distinct (xss ! i) \<Longrightarrow>
   \<forall>i < length xss. \<forall>j < length xss. i \<noteq> j \<longrightarrow> set (xss ! i) \<inter> set (xss ! j) = {} \<Longrightarrow> distinct (concat xss)"
proof (induction xss)
  case (Cons xs xss)
  have "set xs \<inter> set ys = {}" if "ys \<in> set xss" for ys
  proof -
    from that obtain j where "j < length xss" "xss ! j = ys" by (auto simp: in_set_conv_nth)
    with Cons.prems(2) [rule_format, of 0 "Suc j"] show ?thesis by simp
  qed
  moreover have "distinct (concat xss)" using Cons by (intro Cons.IH) (metis Suc_less_eq Suc_inject length_Cons nth_Cons_Suc)+
  moreover have "distinct xs" using Cons.prems(1) by force
  ultimately show ?case by auto
qed simp

section \<open>Over any identity generator\<close>

context identity_generator begin

definition own_ok :: "'pk list \<Rightarrow> bool" where
  "own_ok pks \<longleftrightarrow> (\<forall>pk \<in> set pks. keyOf pk \<noteq> None) \<and> distinct (map keyOf pks)"

text \<open>
  The server holds the keys \<open>H0\<close> it had at the start and those that are issued; issued to a client are
  exactly the keys that the client uses.
\<close>

definition swarm_inv :: "('pk \<Rightarrow> 'pk \<Rightarrow> bool) \<Rightarrow> 'k set \<Rightarrow> ('s, 'pk) swarm \<Rightarrow> bool" where
  "swarm_inv equals H0 sw \<longleftrightarrow>
     invar (sw_server sw) \<and> log_ok keyOf (sw_log sw) \<and>
     (\<forall>cl \<in> set (sw_clients sw). own_ok (in_use equals cl)) \<and>
     (\<forall>i k. issued_to keyOf (sw_log sw) k = Some i \<longleftrightarrow>
        i < length (sw_clients sw) \<and> k \<in> keyOf ` set (in_use equals (sw_clients sw ! i))) \<and>
     held (sw_server sw) = H0 \<union> {k. issued_to keyOf (sw_log sw) (Some k) \<noteq> None} \<and>
     H0 \<inter> {k. issued_to keyOf (sw_log sw) (Some k) \<noteq> None} = {}"

lemma own_remove:
  assumes "own_ok (xs @ pk # ys)" "\<And>a. equals a a" "\<And>a b. equals a b \<Longrightarrow> keyOf a = keyOf b"
  shows "filter (\<lambda>pk'. \<not> equals pk' pk) (xs @ pk # ys) = xs @ ys"
proof -
  have "keyOf pk \<notin> keyOf ` (set xs \<union> set ys)" using assms(1) by (auto simp: own_ok_def)
  then have "\<not> equals a pk" if "a \<in> set xs \<union> set ys" for a using assms(3) that by (metis image_eqI)
  then show ?thesis using assms(2) by (simp add: filter_id_conv)
qed

text \<open>What a step does to the keys in use: nothing, one new key more, or one key less.\<close>

lemma client_step_cases [case_names Same Issue Give_Back]:
  assumes "invar s" "own_ok (in_use equals cl)"
    and eq: "\<And>a. equals a a" "\<And>a b. equals a b \<Longrightarrow> keyOf a = keyOf b"
    and step: "client_step add rem equals merr i cop (s, cl) = Some (s', cl', es)"
  obtains (Same) "es = []" "in_use equals cl' = in_use equals cl" "invar s'" "held s' = held s"
    | (Issue) pk k where "es = [Issued i pk]" "in_use equals cl' = in_use equals cl @ [pk]" "invar s'"
        "keyOf pk = Some k" "k \<notin> held s" "held s' = insert k (held s)"
    | (Give_Back) pk k xs ys where "es = [Given_Back i pk]" "in_use equals cl = xs @ pk # ys"
        "in_use equals cl' = xs @ ys" "invar s'" "keyOf pk = Some k" "held s' = held s - {k}"
proof (cases "cl_phase cl")
  case Ready
  then have use: "in_use equals cl = cl_keys cl" by (simp add: in_use_def)
  show thesis
  proof (cases cop)
    case Call_Add
    note st = step [unfolded client_step_def prod.case Ready Call_Add client_phase.case client_op.case]
    consider pk where "add s = Some (s', Ok pk)" "es = [Issued i pk]" "cl' = cl\<lparr>cl_phase := Added pk\<rparr>"
      | e where "add s = Some (s', Error e)" "es = []" "cl' = cl"
      using st by (auto split: option.split_asm outcome.split_asm)
    then show thesis
    proof cases
      case 1
      with add_Ok [OF assms(1) 1(1)] use show thesis by (auto simp: in_use_def intro: Issue)
    next
      case 2
      with add_Error [OF assms(1) 2(1)] show thesis by (auto intro: Same)
    qed
  next
    case (Call_Remove pk)
    then have pk: "pk \<in> set (cl_keys cl)" using step Ready by (auto simp: client_step_def split: if_splits)
    then obtain k where k: "keyOf pk = Some k" using assms(2) use by (auto simp: own_ok_def)
    obtain s1 where s1: "rem s pk = (s1, Ok ())" "invar s1" "held s1 = held s - {k}"
      using rem_Ok [OF assms(1) k] by blast
    then have *: "es = [Given_Back i pk]" "cl' = cl\<lparr>cl_phase := Removed pk\<rparr>" "invar s'" "held s' = held s - {k}"
      using step by (simp_all add: client_step_def Ready Call_Remove pk)
    obtain xs ys where xs: "cl_keys cl = xs @ pk # ys" using pk by (auto simp: in_set_conv_decomp)
    have "in_use equals cl' = xs @ ys"
      using own_remove [of xs pk ys equals, OF _ eq] assms(2) use *(2) xs by (simp add: in_use_def)
    with * k use xs show thesis by (auto intro: Give_Back)
  next
    case Call_Clean
    with step Ready assms(1) show thesis by (auto simp: client_step_def in_use_def intro!: Same)
  qed (use step Ready in \<open>simp add: client_step_def\<close>)
next
  case (Added pk)
  with step assms(1) show thesis by (cases cop) (auto simp: client_step_def in_use_def intro!: Same)
next
  case (Removed pk)
  with step assms(1) show thesis by (cases cop) (auto simp: client_step_def in_use_def intro!: Same)
next
  case (Cleaning pks errs)
  then have use: "in_use equals cl = pks" by (simp add: in_use_def)
  have go: "cop = Go_On" using step Cleaning by (cases cop; cases pks) (auto simp: client_step_def)
  show thesis
  proof (cases pks)
    case Nil
    with step Cleaning go assms(1) show thesis by (auto simp: client_step_def in_use_def intro!: Same)
  next
    case (Cons pk pks')
    then obtain k where k: "keyOf pk = Some k" using assms(2) use by (auto simp: own_ok_def)
    obtain s1 where s1: "rem s pk = (s1, Ok ())" "invar s1" "held s1 = held s - {k}"
      using rem_Ok [OF assms(1) k] by blast
    then have "es = [Given_Back i pk]" "cl' = cl\<lparr>cl_phase := Cleaning pks' errs\<rparr>" "invar s'" "held s' = held s - {k}"
      using step by (simp_all add: client_step_def Cleaning go Cons)
    with k use Cons show thesis by (intro Give_Back [of pk "[]" pks' k]) (simp_all add: in_use_def)
  qed
qed

lemma own_step:
  assumes "own_ok pks" "keyOf pk = Some k" "Some k \<notin> keyOf ` set pks"
  shows "own_ok (pks @ [pk])"
  using assms by (auto simp: own_ok_def)

lemma swarm_step_inv:
  assumes inv: "swarm_inv equals H0 sw"
    and eq: "\<And>a. equals a a" "\<And>a b. equals a b \<Longrightarrow> keyOf a = keyOf b"
    and step: "swarm_step add rem equals merr call sw = Some sw'"
  shows "swarm_inv equals H0 sw'"
proof -
  obtain i cop where call: "call = (i, cop)" by (cases call)
  let ?cls = "sw_clients sw" and ?m = "issued_to keyOf (sw_log sw)" and ?cl = "sw_clients sw ! i"
  obtain s cl es where i: "i < length ?cls" and st: "client_step add rem equals merr i cop (sw_server sw, ?cl) = Some (s, cl, es)"
      and sw': "sw' = \<lparr>sw_server = s, sw_clients = ?cls[i := cl], sw_log = sw_log sw @ es\<rparr>"
    using step by (auto simp: swarm_step_def call split: if_splits option.splits)
  note parts = inv [unfolded swarm_inv_def]
  have issued: "?m k = Some j \<longleftrightarrow> j < length ?cls \<and> k \<in> keyOf ` set (in_use equals (?cls ! j))" for j k
    using parts by blast
  have own: "own_ok (in_use equals (?cls ! j))" if "j < length ?cls" for j using parts that by simp
  have owns: "\<forall>c \<in> set (?cls[i := cl]). own_ok (in_use equals c)" if "own_ok (in_use equals cl)"
    using parts that by (auto dest!: set_update_subset_insert [THEN subsetD])
  have invs: "invar (sw_server sw)" "log_ok keyOf (sw_log sw)" using parts by blast+
  have held: "held (sw_server sw) = H0 \<union> {k. ?m (Some k) \<noteq> None}" "H0 \<inter> {k. ?m (Some k) \<noteq> None} = {}"
    using parts by blast+
  show ?thesis
  proof (rule client_step_cases [OF invs(1) own [OF i] _ _ st], goal_cases Refl Key Same Issue Give_Back)
    case Refl
    show ?case by (rule eq(1))
  next
    case Key
    then show ?case by (rule eq(2))
  next
    case Same
    have "in_use equals (?cls[i := cl] ! j) = in_use equals (?cls ! j)" if "j < length ?cls" for j
      using i Same(2) by (simp add: nth_list_update)
    with Same parts issued owns own [OF i] show ?thesis
      unfolding swarm_inv_def sw' by auto
  next
    case (Issue pk k)
    have new: "k \<notin> H0" "?m (Some k) = None" using Issue(5) held(1) by auto
    then have fresh: "Some k \<notin> keyOf ` set (in_use equals ?cl)" using issued [of "Some k" i] i by auto
    have m': "issued_to keyOf (sw_log sw @ es) = ?m(Some k \<mapsto> i)" by (simp add: Issue(1,4))
    have "(?m(Some k \<mapsto> i)) k' = Some j \<longleftrightarrow>
        j < length ?cls \<and> k' \<in> keyOf ` set (in_use equals (?cls[i := cl] ! j))" for j k'
      using issued [of k' j] i new(2) Issue(2,4) by (auto simp: nth_list_update)
    moreover have "own_ok (in_use equals cl)" unfolding Issue(2) by (rule own_step [OF own [OF i] Issue(4) fresh])
    moreover have "held s = H0 \<union> {k'. (?m(Some k \<mapsto> i)) (Some k') \<noteq> None}"
      "H0 \<inter> {k'. (?m(Some k \<mapsto> i)) (Some k') \<noteq> None} = {}"
      using Issue(6) held new(1) by auto
    moreover have "log_ok keyOf (sw_log sw @ es)" by (simp add: Issue(1,4) invs new(2))
    ultimately show ?thesis using Issue(3) owns unfolding swarm_inv_def sw' m' swarm.simps by simp
  next
    case (Give_Back pk k xs ys)
    have mine: "?m (Some k) = Some i" using issued [of "Some k" i] i Give_Back(2,5) by force
    have m': "issued_to keyOf (sw_log sw @ es) = ?m(Some k := None)" by (simp add: Give_Back(1,5))
    have whole: "own_ok (xs @ pk # ys)" using own [OF i] Give_Back(2) by simp
    then have "Some k \<notin> keyOf ` set (xs @ ys)" using Give_Back(5) by (simp add: own_ok_def image_Un)
    then have rest: "keyOf ` set (xs @ ys) = keyOf ` set (in_use equals ?cl) - {Some k}"
      using Give_Back(2,5) by (simp add: image_Un)
    from whole have left: "own_ok (xs @ ys)" by (simp add: own_ok_def)
    have "(?m(Some k := None)) k' = Some j \<longleftrightarrow>
        j < length ?cls \<and> k' \<in> keyOf ` set (in_use equals (?cls[i := cl] ! j))" for j k'
    proof (cases "j = i")
      case True
      then show ?thesis using issued [of k' i] i rest Give_Back(3) by auto
    next
      case False
      then show ?thesis using issued [of k' j] mine by auto
    qed
    moreover have "own_ok (in_use equals cl)" using left Give_Back(3) by simp
    moreover have "held s = H0 \<union> {k'. (?m(Some k := None)) (Some k') \<noteq> None}"
      "H0 \<inter> {k'. (?m(Some k := None)) (Some k') \<noteq> None} = {}"
      using Give_Back(6) held mine by auto
    moreover have "log_ok keyOf (sw_log sw @ es)" by (simp add: Give_Back(1,5) invs mine)
    ultimately show ?thesis using Give_Back(4) owns unfolding swarm_inv_def sw' m' swarm.simps by simp
  qed
qed

lemma swarm_run_inv:
  assumes eq: "\<And>a. equals a a" "\<And>a b. equals a b \<Longrightarrow> keyOf a = keyOf b"
  shows "swarm_inv equals H0 sw \<Longrightarrow> swarm_run add rem equals merr calls sw = Some sw' \<Longrightarrow>
    swarm_inv equals H0 sw'"
proof (induction calls arbitrary: sw)
  case (Cons call calls)
  then obtain sw1 where "swarm_step add rem equals merr call sw = Some sw1"
      "swarm_run add rem equals merr calls sw1 = Some sw'"
    by (auto simp: bind_eq_Some_conv)
  with Cons swarm_step_inv [OF Cons.prems(1) eq] show ?case by blast
qed simp

lemma new_swarm_inv: "invar s \<Longrightarrow> swarm_inv equals (held s) (new_swarm s n)"
  by (simp add: swarm_inv_def new_swarm_def NewCleaningIDGenerator_def in_use_def own_ok_def)

text \<open>What the invariant says of all keys in use together.\<close>

lemma swarm_inv_unique:
  assumes "swarm_inv equals H0 sw"
  shows "distinct (map keyOf (swarm_in_use equals sw))"
proof -
  let ?ks = "map (\<lambda>cl. map keyOf (in_use equals cl)) (sw_clients sw)"
  note parts = assms [unfolded swarm_inv_def]
  have "distinct (concat ?ks)"
  proof (rule distinct_concat_nth)
    show "\<forall>i < length ?ks. distinct (?ks ! i)" using parts by (simp add: own_ok_def)
    have "i = j" if "i < length (sw_clients sw)" "j < length (sw_clients sw)"
      "k \<in> keyOf ` set (in_use equals (sw_clients sw ! i))" "k \<in> keyOf ` set (in_use equals (sw_clients sw ! j))" for i j k
      using parts that by (metis option.inject)
    then show "\<forall>i < length ?ks. \<forall>j < length ?ks. i \<noteq> j \<longrightarrow> set (?ks ! i) \<inter> set (?ks ! j) = {}"
      by (simp, blast)
  qed
  then show ?thesis by (simp add: map_concat comp_def)
qed

lemma swarm_inv_keys:
  assumes "swarm_inv equals H0 sw"
  shows "\<forall>a \<in> set (swarm_in_use equals sw). \<exists>k. keyOf a = Some k \<and> k \<notin> H0"
    "held (sw_server sw) = H0 \<union> {k. \<exists>a \<in> set (swarm_in_use equals sw). keyOf a = Some k}"
proof -
  note parts = assms [unfolded swarm_inv_def]
  have issued: "issued_to keyOf (sw_log sw) k \<noteq> None \<longleftrightarrow> k \<in> keyOf ` set (swarm_in_use equals sw)" for k
  proof
    assume "issued_to keyOf (sw_log sw) k \<noteq> None"
    then obtain i where "i < length (sw_clients sw)" "k \<in> keyOf ` set (in_use equals (sw_clients sw ! i))"
      using parts by blast
    then show "k \<in> keyOf ` set (swarm_in_use equals sw)" by (auto intro: nth_mem)
  next
    assume "k \<in> keyOf ` set (swarm_in_use equals sw)"
    then obtain cl where cl: "cl \<in> set (sw_clients sw)" "k \<in> keyOf ` set (in_use equals cl)" by auto
    then obtain i where "i < length (sw_clients sw)" "sw_clients sw ! i = cl" by (auto simp: in_set_conv_nth)
    with cl(2) have "i < length (sw_clients sw)" "k \<in> keyOf ` set (in_use equals (sw_clients sw ! i))" by simp_all
    then have "issued_to keyOf (sw_log sw) k = Some i" using parts by blast
    then show "issued_to keyOf (sw_log sw) k \<noteq> None" by simp
  qed
  show "\<forall>a \<in> set (swarm_in_use equals sw). \<exists>k. keyOf a = Some k \<and> k \<notin> H0"
  proof
    fix a assume a: "a \<in> set (swarm_in_use equals sw)"
    then obtain cl where "cl \<in> set (sw_clients sw)" "a \<in> set (in_use equals cl)" by auto
    then obtain k where k: "keyOf a = Some k" using parts unfolding own_ok_def by blast
    with a have "issued_to keyOf (sw_log sw) (Some k) \<noteq> None" unfolding issued by (metis image_eqI)
    with parts k show "\<exists>k. keyOf a = Some k \<and> k \<notin> H0" by blast
  qed
  have "held (sw_server sw) = H0 \<union> {k. Some k \<in> keyOf ` set (swarm_in_use equals sw)}"
    using parts by (simp only: issued)
  then show "held (sw_server sw) = H0 \<union> {k. \<exists>a \<in> set (swarm_in_use equals sw). keyOf a = Some k}"
    by force
qed

text \<open>An identity stays with the client it was issued to until that client gives it back.\<close>

lemma swarm_inv_log:
  assumes "swarm_inv equals H0 sw" "i < length (sw_log sw)" "sw_log sw ! i = Issued c a"
  shows "c < length (sw_clients sw) \<and> keyOf a \<in> keyOf ` set (in_use equals (sw_clients sw ! c)) \<or>
    (\<exists>m pk. i < m \<and> m < length (sw_log sw) \<and> sw_log sw ! m = Given_Back c pk \<and> keyOf pk = keyOf a)"
proof -
  have ok: "log_ok keyOf (sw_log sw)"
      and issued: "issued_to keyOf (sw_log sw) k = Some j \<Longrightarrow>
        j < length (sw_clients sw) \<and> k \<in> keyOf ` set (in_use equals (sw_clients sw ! j))" for j k
    using assms(1) unfolding swarm_inv_def by blast+
  show ?thesis
  proof (cases "\<exists>m pk. i < m \<and> m < length (sw_log sw) \<and> sw_log sw ! m = Given_Back c pk \<and> keyOf pk = keyOf a")
    case False
    then have "issued_to keyOf (take (length (sw_log sw)) (sw_log sw)) (keyOf a) = Some c"
      by (intro log_stays [OF ok assms(3,2) order.refl]) blast
    then show ?thesis using issued by simp
  qed blast
qed

end

section \<open>The delegated generator is an identity generator\<close>

definition no_panic :: "('s \<Rightarrow> ('s \<times> 'pk outcome) option) \<Rightarrow> 's \<Rightarrow> ('s \<times> 'pk outcome) option" where
  "no_panic add s = (case add s of Some (s', Panic p) \<Rightarrow> None | r \<Rightarrow> r)"

lemma no_panic_Some:
  "no_panic add s = Some (s', r) \<longleftrightarrow> add s = Some (s', r) \<and> (\<forall>p. r \<noteq> Panic p)"
  by (auto simp: no_panic_def split: option.splits outcome.splits)

lemma client_add_Ok [simp]: "client_add r = Ok pk \<longleftrightarrow> r = Ok pk"
  by (cases r) (simp_all add: client_add_def)

lemma client_add_Error: "client_add r = Error e \<Longrightarrow> \<forall>p. r \<noteq> Panic p \<Longrightarrow> \<exists>e'. r = Error e'"
  by (cases r) (simp_all add: client_add_def)

definition served_invar :: "'pk key_codec \<Rightarrow> 'pk crypto_env \<Rightarrow> nat \<Rightarrow> generator \<Rightarrow> bool" where
  "served_invar kc env L bg \<longleftrightarrow> codec_ok kc \<and> wf_gen_env env L bg"

abbreviation remote_add where
  "remote_add kc env \<equiv>
     DelegatedIDGenerator_AddBalanced (serve_add kc (no_panic (AddBalanced env))) kc"

abbreviation remote_remove where
  "remote_remove kc env \<equiv>
     DelegatedIDGenerator_Remove (serve_remove kc (BalancedIdentityGenerator_Remove env)) kc"

interpretation remote: identity_generator "remote_add kc env" "remote_remove kc env"
  gkeys "served_invar kc env L" "trieKeyOf env" for kc env L
proof
  fix s s' pk assume s: "served_invar kc env L s" "remote_add kc env s = Some (s', Ok pk)"
  then have k: "codec_ok kc" "wf_gen_env env L s" by (auto simp: served_invar_def)
  have "AddBalanced env s = Some (s', Ok pk)"
    using s(2) by (auto simp: delegated_add_eq [OF k(1)] no_panic_Some)
  from big.add_Ok [OF k(2) this] k(1) show "served_invar kc env L s' \<and>
      (\<exists>k. trieKeyOf env pk = Some k \<and> k \<notin> gkeys s \<and> gkeys s' = insert k (gkeys s))"
    by (simp add: served_invar_def)
next
  fix s s' e assume s: "served_invar kc env L s" "remote_add kc env s = Some (s', Error e)"
  then have k: "codec_ok kc" "wf_gen_env env L s" by (auto simp: served_invar_def)
  obtain e' where "AddBalanced env s = Some (s', Error e')"
    using s(2) client_add_Error by (fastforce simp: delegated_add_eq [OF k(1)] no_panic_Some)
  from big.add_Error [OF k(2) this] k(1) show "served_invar kc env L s' \<and> gkeys s' = gkeys s"
    by (simp add: served_invar_def)
next
  fix s pk k assume s: "served_invar kc env L s" "trieKeyOf env pk = Some k"
  then have c: "codec_ok kc" "wf_gen_env env L s" by (auto simp: served_invar_def)
  from big.rem_Ok [OF c(2) s(2)] c(1)
  show "\<exists>s'. remote_remove kc env s pk = (s', Ok ()) \<and> served_invar kc env L s' \<and> gkeys s' = gkeys s - {k}"
    by (auto simp: delegated_remove_eq [OF c(1)] client_remove_def served_invar_def)
next
  fix s pk assume s: "served_invar kc env L s" "trieKeyOf env pk = None"
  then have c: "codec_ok kc" "wf_gen_env env L s" by (auto simp: served_invar_def)
  from big.rem_Error [OF c(2) s(2)] show "\<exists>e. remote_remove kc env s pk = (s, Error e)"
    by (auto simp: delegated_remove_eq [OF c(1)] client_remove_def)
qed

section \<open>Properties\<close>

text \<open>
  C1: identities are unique across a swarm and nothing is left behind. Let any number of clients use one
  identity server over HTTP, each through its cleaning generator, with the requests and the bookkeeping
  of their calls (new identities, removals of own ones, clean-ups key by key) interleaved in any order.
  Then at every moment all keys in use, of one client or of several, have different DHT keys, which are
  also different from the server's earlier ones, and the server's trie holds exactly these keys. No DHT
  key is handed out twice: between two times it is issued the client that got it first has given it
  back, and until then it is in use by that client. When no key is in use any more, the trie and the
  count are the ones the server started with. Of \<open>equals\<close> it is used that a key equals itself and that
  equal private keys have the same Kademlia ID.
\<close>

theorem swarm_identities_unique:
  assumes "codec_ok kc" "env_ok L env" "wf_gen L bg"
    and "\<forall>a. equals a a" "\<forall>a b. equals a b \<longrightarrow> trieKeyOf env a = trieKeyOf env b"
    and "swarm_run (remote_add kc env) (remote_remove kc env) equals merr calls (new_swarm bg n) = Some sw"
  shows "let used = swarm_in_use equals sw; log = sw_log sw in
    distinct (map (trieKeyOf env) used) \<and>
    (\<forall>a \<in> set used. \<exists>k. trieKeyOf env a = Some k \<and> k \<notin> gkeys bg) \<and>
    gkeys (sw_server sw) = gkeys bg \<union> {k. \<exists>a \<in> set used. trieKeyOf env a = Some k} \<and>
    (\<forall>i j c c' a b. i < j \<and> j < length log \<and> log ! i = Issued c a \<and> log ! j = Issued c' b \<and>
       trieKeyOf env a = trieKeyOf env b \<longrightarrow>
       (\<exists>m pk. i < m \<and> m < j \<and> log ! m = Given_Back c pk \<and> trieKeyOf env pk = trieKeyOf env a)) \<and>
    (\<forall>i c a. i < length log \<and> log ! i = Issued c a \<longrightarrow>
       c < length (sw_clients sw) \<and>
         trieKeyOf env a \<in> trieKeyOf env ` set (in_use equals (sw_clients sw ! c)) \<or>
       (\<exists>m pk. i < m \<and> m < length log \<and> log ! m = Given_Back c pk \<and> trieKeyOf env pk = trieKeyOf env a)) \<and>
    (used = [] \<longrightarrow> xorTrie (sw_server sw) = xorTrie bg \<and> bg_count (sw_server sw) = bg_count bg)"
proof -
  have "served_invar kc env L bg" using assms(1-3) by (simp add: served_invar_def wf_gen_env_def)
  from remote.swarm_run_inv [OF _ _ remote.new_swarm_inv [OF this] assms(6)] assms(4,5)
  have inv: "remote.swarm_inv kc env L equals (gkeys bg) sw" by blast
  note held = remote.swarm_inv_keys(2) [OF inv]
  have log: "log_ok (trieKeyOf env) (sw_log sw)" and server: "served_invar kc env L (sw_server sw)"
    using inv unfolding remote.swarm_inv_def by blast+
  have restored: "xorTrie (sw_server sw) = xorTrie bg \<and> bg_count (sw_server sw) = bg_count bg"
    if unused: "swarm_in_use equals sw = []"
  proof -
    have "gkeys (sw_server sw) = gkeys bg" unfolding held unused by simp
    moreover have "wf_gen L (sw_server sw)" using server by (simp add: served_invar_def wf_gen_env_def)
    ultimately show ?thesis
      using assms(3) wf_trie_unique [of L "[]" "xorTrie (sw_server sw)" "xorTrie bg"] by (simp add: wf_gen_def)
  qed
  show ?thesis
    unfolding Let_def
    by (intro conjI allI impI remote.swarm_inv_unique [OF inv] remote.swarm_inv_keys(1) [OF inv] held)
      (use log_never_twice [OF log] remote.swarm_inv_log [OF inv] restored in \<open>blast+\<close>)
qed

definition example_calls :: "(nat \<times> bytes client_op) list" where
  "example_calls =
     [(0, Call_Add), (1, Call_Add), (1, Go_On), (0, Go_On), (0, Call_Clean), (1, Call_Remove [5, 0, 0, 0]),
      (0, Go_On), (1, Go_On), (0, Go_On)]"

abbreviation example_swarm where
  "example_swarm calls \<equiv> swarm_run (remote_add bytes_codec example_env) (remote_remove bytes_codec example_env)
     (=) (\<lambda>_ e. e) calls (new_swarm example_gen1 2)"

lemma example_swarm_half:
  "map_option (\<lambda>sw. (swarm_in_use (=) sw, sw_log sw)) (example_swarm (take 4 example_calls)) =
     Some ([[3, 0, 0, 0], [5, 0, 0, 0]], [Issued 0 [3, 0, 0, 0], Issued 1 [5, 0, 0, 0]])"
  by code_simp

lemma example_swarm_end:
  "map_option (\<lambda>sw. (swarm_in_use (=) sw, sw_log sw)) (example_swarm example_calls) =
     Some ([], [Issued 0 [3, 0, 0, 0], Issued 1 [5, 0, 0, 0], Given_Back 1 [5, 0, 0, 0], Given_Back 0 [3, 0, 0, 0]])"
  by code_simp

theorem swarm_identities_unique_witness:
  "\<exists>sw sw'. example_swarm (take 4 example_calls) = Some sw \<and> length (swarm_in_use (=) sw) = 2 \<and>
     distinct (map (trieKeyOf example_env) (swarm_in_use (=) sw)) \<and>
     example_swarm example_calls = Some sw' \<and> xorTrie (sw_server sw') = leaf [128, 0]"
proof -
  obtain sw where sw: "example_swarm (take 4 example_calls) = Some sw"
      "swarm_in_use (=) sw = [[3, 0, 0, 0], [5, 0, 0, 0]]"
    using example_swarm_half by auto
  obtain sw' where sw': "example_swarm example_calls = Some sw'" "swarm_in_use (=) sw' = []"
    using example_swarm_end by auto
  note unique = swarm_identities_unique [OF bytes_codec_ok example_env_ok(1) example_gen1_ok, of "(=)"]
  have "distinct (map (trieKeyOf example_env) (swarm_in_use (=) sw))"
    using unique [OF _ _ sw(1)] by (simp add: Let_def)
  moreover have "xorTrie (sw_server sw') = leaf [128, 0]"
    using unique [OF _ _ sw'(1)] sw'(2) by (simp add: Let_def example_gen1_def)
  ultimately show ?thesis using sw sw'(1) by auto
qed

end
