(* ===== verification/Utils.thy ===== *)
theory Utils
  imports Go_Strings
begin

text \<open>
  \<^verbatim>\<open>src/utils\<close>: option strings of the form \<open>key=value,key=value\<close>, and the port selector whose
  closure holds a 64-bit counter (explicit state here).
\<close>

section \<open>Option strings\<close>

definition opts_error :: go_error where
  "opts_error = Errorf ''option config must be key=value pairs''"

fun parse_opts_loop :: "string list \<Rightarrow> (string \<rightharpoonup> string) \<Rightarrow> (string \<rightharpoonup> string) outcome" where
  "parse_opts_loop [] m = Ok m"
| "parse_opts_loop (opt # opts) m =
     (let entry = Split CHR ''='' opt
      in if length entry \<noteq> 2 then Error opts_error
         else parse_opts_loop opts (m(entry ! 0 \<mapsto> entry ! 1)))"

definition ParseOptsString :: "string \<Rightarrow> (string \<rightharpoonup> string) outcome" where
  "ParseOptsString s = parse_opts_loop (Split CHR '','' s) Map.empty"

section \<open>Ports\<close>

text \<open>One call of the closure with the captured \<open>port\<close>: the result and the new value.\<close>

definition PortSelector_next :: "64 word \<Rightarrow> 64 word \<times> 64 word" where
  "PortSelector_next port = (if port = 0 then (0, port) else (port, port + 1))"

definition PortSelector :: "64 word \<Rightarrow> 64 word" where
  "PortSelector beg = beg"

fun get_ports :: "64 word \<Rightarrow> nat \<Rightarrow> 64 word list" where
  "get_ports port 0 = []"
| "get_ports port (Suc n) =
     (let (out, port') = PortSelector_next port in out # get_ports port' n)"

section \<open>Facts\<close>

lemma Split_eq_length2:
  "length (Split sep s) = 2 \<longleftrightarrow> count_list s sep = 1"
  by (simp add: length_Split)

lemma parse_opts_loop_Ok_iff:
  "(\<exists>m'. parse_opts_loop opts m = Ok m') \<longleftrightarrow> (\<forall>opt \<in> set opts. count_list opt CHR ''='' = 1)"
  by (induction opts arbitrary: m) (auto simp: Let_def length_Split)

lemma parse_opts_loop_Error: "parse_opts_loop opts m = Error e \<Longrightarrow> e = opts_error"
  by (induction opts arbitrary: m) (auto simp: Let_def split: if_splits)

lemma parse_opts_loop_no_panic: "parse_opts_loop opts m \<noteq> Panic p"
  by (induction opts arbitrary: m) (auto simp: Let_def)

lemma Split_pair:
  assumes "sep \<notin> set k" "sep \<notin> set v"
  shows "Split sep (k @ sep # v) = [k, v]"
  using assms by (simp add: Split_append Split_word)

lemma parse_opts_loop_pairs:
  assumes "\<forall>(k, v) \<in> set kvs. CHR ''='' \<notin> set k \<and> CHR ''='' \<notin> set v"
  shows "parse_opts_loop (map (\<lambda>(k, v). k @ CHR ''='' # v) kvs) m = Ok (m ++ map_of (rev kvs))"
  using assms
proof (induction kvs arbitrary: m)
  case (Cons kv kvs)
  obtain k v where kv: "kv = (k, v)" by (cases kv)
  have "parse_opts_loop (map (\<lambda>(k, v). k @ CHR ''='' # v) (kv # kvs)) m =
      parse_opts_loop (map (\<lambda>(k, v). k @ CHR ''='' # v) kvs) (m(k \<mapsto> v))"
    using Cons.prems by (simp add: kv Split_pair)
  also have "\<dots> = Ok (m(k \<mapsto> v) ++ map_of (rev kvs))" using Cons by simp
  finally show ?case by (simp add: kv map_add_assoc)
qed simp

lemma get_ports_nth:
  "k < n \<Longrightarrow> get_ports port n ! k =
     (if port \<noteq> 0 \<and> unat port + k < 2 ^ 64 then port + word_of_nat k else 0)"
proof (induction n arbitrary: port k)
  case (Suc n)
  show ?case
  proof (cases "port = 0")
    case True
    with Suc show ?thesis by (cases k) (simp_all add: PortSelector_next_def)
  next
    case False
    show ?thesis
    proof (cases k)
      case 0
      then show ?thesis using False unsigned_less [of port, where ?'a = nat] by (simp add: PortSelector_next_def)
    next
      case (Suc j)
      have j: "get_ports (port + 1) n ! j =
          (if port + 1 \<noteq> 0 \<and> unat (port + 1) + j < 2 ^ 64 then port + 1 + word_of_nat j else 0)"
        using Suc.IH [of j "port + 1"] Suc Suc.prems by simp
      have u: "unat (port + 1) = Suc (unat port)" if "port + 1 \<noteq> 0"
        using that by (metis add.commute unatSuc)
      have z: "unat port + 1 = 2 ^ 64" if "port + 1 = 0"
      proof -
        have "port = - 1" using that by (simp add: eq_neg_iff_add_eq_0)
        then show ?thesis by (simp add: unsigned_minus_1_eq_mask mask_eq_exp_minus_1)
      qed
      show ?thesis using j u z Suc False
        by (cases "port + 1 = 0") (auto simp: PortSelector_next_def algebra_simps)
    qed
  qed
qed simp

lemma length_get_ports [simp]: "length (get_ports port n) = n"
  by (induction n arbitrary: port) (simp_all add: PortSelector_next_def Let_def)

section \<open>Properties\<close>

text \<open>
  \<open>ParseOptsString\<close> accepts exactly the strings whose comma-separated parts contain one equals
  sign each, and reads back any printed list of options: each key is mapped to the value it was
  given last.
\<close>

theorem ParseOptsString_correct:
  assumes "kvs \<noteq> []" "\<forall>(k, v) \<in> set kvs. CHR ''='' \<notin> set (k @ v) \<and> CHR '','' \<notin> set (k @ v)"
  shows "ParseOptsString (Join (map (\<lambda>(k, v). k @ CHR ''='' # v) kvs) '','') = Ok (map_of (rev kvs)) \<and>
    ((\<exists>m. ParseOptsString s = Ok m) \<longleftrightarrow>
       (\<forall>part \<in> set (Split CHR '','' s). count_list part CHR ''='' = 1))"
proof -
  have "Split CHR '','' (Join (map (\<lambda>(k, v). k @ CHR ''='' # v) kvs) '','') =
      map (\<lambda>(k, v). k @ CHR ''='' # v) kvs"
    using assms by (intro Split_Join) auto
  with parse_opts_loop_pairs [of kvs Map.empty] assms(2) parse_opts_loop_Ok_iff show ?thesis
    by (auto simp: ParseOptsString_def)
qed

theorem ParseOptsString_correct_witness:
  "ParseOptsString ''table=t,ttl=1h,table=u'' = Ok [''table'' \<mapsto> ''u'', ''ttl'' \<mapsto> ''1h''] \<and>
   \<not> (\<exists>m. ParseOptsString ''table'' = Ok m)"
proof -
  have "ParseOptsString (Join (map (\<lambda>(k, v). k @ CHR ''='' # v)
      [(''table'', ''t''), (''ttl'', ''1h''), (''table'', ''u'')]) '','') =
      Ok (map_of (rev [(''table'', ''t''), (''ttl'', ''1h''), (''table'', ''u'')])) \<and>
    ((\<exists>m. ParseOptsString ''table'' = Ok m) \<longleftrightarrow>
       (\<forall>part \<in> set (Split CHR '','' ''table''). count_list part CHR ''='' = 1))"
    by (rule ParseOptsString_correct) auto
  then show ?thesis by (auto simp: fun_upd_def)
qed

text \<open>
  The \<open>k\<close>-th call of a port selector that starts at a port other than 0 returns the \<open>k\<close>-th port
  after it, so the ports are pairwise distinct, until the 64-bit counter wraps to 0; from then on,
  and always when it starts at 0 (any free port), it returns 0.
\<close>

theorem PortSelector_correct:
  assumes "k < n"
  shows "get_ports (PortSelector beg) n ! k =
    (if beg \<noteq> 0 \<and> unat beg + k < 2 ^ 64 then beg + word_of_nat k else 0)"
  using get_ports_nth [OF assms] by (simp add: PortSelector_def)

theorem PortSelector_correct_witness:
  "get_ports (PortSelector 3000) 3 ! 2 = 3002 \<and> get_ports (PortSelector (- 1)) 3 ! 2 = 0"
  using PortSelector_correct [of 2 3 3000] PortSelector_correct [of 2 3 "- 1"]
  by (simp add: unsigned_minus_1_eq_mask mask_eq_exp_minus_1)

end
