(* ===== verification/Go_Time.thy ===== *)
theory Go_Time
  imports Go_Strings
begin

text \<open>
  Go's \<open>time.ParseDuration\<close>, which the program uses for the DynamoDB time to live and the grace
  period of the connection manager. A duration is a number of nanoseconds. The contribution of a
  fraction (\<open>1.5h\<close>) is computed by Go in 64-bit floating point; that computation alone is the
  parameter \<open>frac\<close> (digits read, number of digits, unit), and a fraction without digits adds nothing.
\<close>

definition is_digit :: "char \<Rightarrow> bool" where
  "is_digit c = (char_digit c \<noteq> None)"

text \<open>\<open>leadingInt\<close>: the value and the rest, or an overflow.\<close>

fun leadingInt :: "nat \<Rightarrow> string \<Rightarrow> (nat \<times> string) option" where
  "leadingInt x [] = Some (x, [])"
| "leadingInt x (c # cs) =
     (case char_digit c of
        None \<Rightarrow> Some (x, c # cs)
      | Some d \<Rightarrow>
          if 2 ^ 63 div 10 < x then None
          else let y = x * 10 + d in if 2 ^ 63 < y then None else leadingInt y cs)"

text \<open>\<open>leadingFraction\<close>: the value, the number of digits used and the rest; digits after an overflow
  are skipped.\<close>

fun leadingFraction :: "nat \<Rightarrow> nat \<Rightarrow> bool \<Rightarrow> string \<Rightarrow> nat \<times> nat \<times> string" where
  "leadingFraction x k overflow [] = (x, k, [])"
| "leadingFraction x k overflow (c # cs) =
     (case char_digit c of
        None \<Rightarrow> (x, k, c # cs)
      | Some d \<Rightarrow>
          if overflow then leadingFraction x k True cs
          else if (2 ^ 63 - 1) div 10 < x then leadingFraction x k True cs
          else let y = x * 10 + d
               in if 2 ^ 63 < y then leadingFraction x k True cs
                  else leadingFraction y (Suc k) False cs)"

definition unitMap :: "string \<rightharpoonup> nat" where
  "unitMap = map_of
     [(''ns'', 1), (''us'', 1000), ([CHR 0xC2, CHR 0xB5, CHR ''s''], 1000),
      ([CHR 0xCE, CHR 0xBC, CHR ''s''], 1000), (''ms'', 1000000), (''s'', 1000000000),
      (''m'', 60000000000), (''h'', 3600000000000)]"

definition dur_err :: "string \<Rightarrow> go_error" where
  "dur_err what = Errorf (''time: '' @ what @ '' duration'')"

text \<open>The optional fraction after the integer: value, digits, rest, and whether digits were read.\<close>

definition duration_fraction :: "string \<Rightarrow> nat \<times> nat \<times> string \<times> bool" where
  "duration_fraction s =
     (case s of
        [] \<Rightarrow> (0, 0, s, False)
      | c # cs \<Rightarrow>
          if c = CHR ''.''
          then (case leadingFraction 0 0 False cs of (f, k, s') \<Rightarrow> (f, k, s', length s' \<noteq> length cs))
          else (0, 0, s, False))"

definition unit_char :: "char \<Rightarrow> bool" where
  "unit_char c \<longleftrightarrow> c \<noteq> CHR ''.'' \<and> \<not> is_digit c"

text \<open>The unit and the value of the term.\<close>

definition duration_value ::
    "(nat \<Rightarrow> nat \<Rightarrow> nat \<Rightarrow> nat) \<Rightarrow> nat \<Rightarrow> nat \<Rightarrow> nat \<Rightarrow> string \<Rightarrow> (nat \<times> string) outcome" where
  "duration_value frac v f k s =
     (let u = takeWhile unit_char s; s' = dropWhile unit_char s
      in if u = [] then Error (dur_err ''missing unit in'')
         else (case unitMap u of
                 None \<Rightarrow> Error (dur_err ''unknown unit in'')
               | Some unit \<Rightarrow>
                   if 2 ^ 63 div unit < v then Error (dur_err ''invalid'')
                   else if 0 < f \<and> 2 ^ 63 < v * unit + frac f k unit then Error (dur_err ''invalid'')
                   else Ok (v * unit + (if 0 < f then frac f k unit else 0), s')))"

text \<open>One term of the string: its value in nanoseconds and the rest.\<close>

definition duration_term ::
    "(nat \<Rightarrow> nat \<Rightarrow> nat \<Rightarrow> nat) \<Rightarrow> string \<Rightarrow> (nat \<times> string) outcome" where
  "duration_term frac s =
     (if s = [] \<or> \<not> (hd s = CHR ''.'' \<or> is_digit (hd s)) then Error (dur_err ''invalid'')
      else (case leadingInt 0 s of
              None \<Rightarrow> Error (dur_err ''invalid'')
            | Some (v, s1) \<Rightarrow>
                (case duration_fraction s1 of
                   (f, k, s2, post) \<Rightarrow>
                     if length s1 = length s \<and> \<not> post then Error (dur_err ''invalid'')
                     else duration_value frac v f k s2)))"

lemma leadingInt_length: "leadingInt x s = Some (v, t) \<Longrightarrow> length t \<le> length s"
proof (induction x s rule: leadingInt.induct)
  case (2 x c cs)
  then show ?case by (fastforce simp: Let_def split: option.splits if_splits)
qed simp

lemma leadingFraction_length: "leadingFraction x k b s = (v, j, t) \<Longrightarrow> length t \<le> length s"
proof (induction x k b s rule: leadingFraction.induct)
  case (2 x k b c cs)
  then show ?case by (fastforce simp: Let_def split: option.splits if_splits)
qed simp

lemma duration_fraction_length: "duration_fraction s = (f, k, t, post) \<Longrightarrow> length t \<le> length s"
  by (cases s) (auto simp: duration_fraction_def split: if_splits prod.splits
      dest!: leadingFraction_length)

lemma duration_value_length:
  assumes "duration_value frac v f k s = Ok (r, t)"
  shows "length t < length s"
proof -
  have t: "takeWhile unit_char s \<noteq> []" "t = dropWhile unit_char s"
    using assms by (auto simp: duration_value_def Let_def split: option.splits if_splits)
  have "length (takeWhile unit_char s) + length (dropWhile unit_char s) = length s"
    by (metis length_append takeWhile_dropWhile_id)
  with t show ?thesis by (cases "takeWhile unit_char s") auto
qed

lemma duration_term_length:
  "duration_term frac s = Ok (v, t) \<Longrightarrow> length t < length s"
  by (fastforce simp: duration_term_def split: option.splits prod.splits if_splits
      dest!: leadingInt_length duration_fraction_length duration_value_length)

text \<open>The loop over the terms.\<close>

function duration_terms ::
    "(nat \<Rightarrow> nat \<Rightarrow> nat \<Rightarrow> nat) \<Rightarrow> nat \<Rightarrow> string \<Rightarrow> nat outcome" where
  "duration_terms frac d s =
     (if s = [] then Ok d
      else (case duration_term frac s of
              Error e \<Rightarrow> Error e
            | Panic p \<Rightarrow> Panic p
            | Ok (v, s') \<Rightarrow>
                if 2 ^ 63 < d + v then Error (dur_err ''invalid'') else duration_terms frac (d + v) s'))"
  by pat_completeness auto

termination
  by (relation "measure (\<lambda>(_, _, s). length s)") (auto dest: duration_term_length)

declare duration_terms.simps [simp del]

definition ParseDuration :: "(nat \<Rightarrow> nat \<Rightarrow> nat \<Rightarrow> nat) \<Rightarrow> string \<Rightarrow> int outcome" where
  "ParseDuration frac s =
     (let (neg, ds) = (case s of [] \<Rightarrow> (False, [])
                       | c # cs \<Rightarrow> if c = CHR ''-'' then (True, cs)
                                  else if c = CHR ''+'' then (False, cs) else (False, s))
      in if ds = ''0'' then Ok 0
         else if ds = [] then Error (dur_err ''invalid'')
         else (case duration_terms frac 0 ds of
                 Error e \<Rightarrow> Error e
               | Panic p \<Rightarrow> Panic p
               | Ok d \<Rightarrow> if neg then Ok (- int d)
                         else if 2 ^ 63 \<le> d then Error (dur_err ''invalid'') else Ok (int d)))"

lemma ParseDuration_examples:
  "ParseDuration frac ''60s'' = Ok 60000000000" "ParseDuration frac ''1h30m'' = Ok 5400000000000"
  "ParseDuration frac ''300'' = Error (dur_err ''missing unit in'')"
  "ParseDuration frac [] = Error (dur_err ''invalid'')" "ParseDuration frac ''0'' = Ok 0"
  by (simp_all add: ParseDuration_def duration_terms.simps duration_term_def duration_fraction_def
      duration_value_def unit_char_def Let_def is_digit_def char_digit_def unitMap_def)

text \<open>A number without a unit, other than 0, is refused.\<close>

lemma leadingInt_digits:
  "\<forall>c \<in> set s. is_digit c \<Longrightarrow> leadingInt x s = None \<or> (\<exists>v. leadingInt x s = Some (v, []))"
proof (induction x s rule: leadingInt.induct)
  case (2 x c cs)
  then obtain dg where "char_digit c = Some dg" by (auto simp: is_digit_def)
  with 2 show ?case by (simp add: Let_def)
qed simp

lemma ParseDuration_needs_unit:
  assumes "\<forall>c \<in> set s. is_digit c" "s \<noteq> ''0''"
  shows "\<exists>e. ParseDuration frac s = Error e"
proof (cases s)
  case (Cons c cs)
  then have c: "c \<noteq> CHR ''-''" "c \<noteq> CHR ''+''" "is_digit c"
    using assms(1) by (auto simp: is_digit_def char_digit_def)
  have "\<exists>e. duration_term frac s = Error e"
    using leadingInt_digits [OF assms(1), of 0] c(3) Cons
    by (auto simp: duration_term_def duration_fraction_def duration_value_def)
  with Cons c assms(2) show ?thesis
    by (auto simp: ParseDuration_def duration_terms.simps)
qed (simp add: ParseDuration_def)

end
