(* ===== verification/Hydra.thy ===== *)
theory Hydra
  imports Head Utils Go_Time
begin

text \<open>
  \<^verbatim>\<open>src/hydra/hydra.go\<close>: making a hydra, the choice of its datastore and provider store, and the
  loop that spawns its heads with the options of theory \<open>Head_Options\<close>.

  Datastores, peer stores, the AWS configuration, identity generation and the bookkeeping of a new
  head (metrics, notifications, the bootstrap status goroutine) are operations on a world \<open>'w\<close> in
  the parameter \<open>hydra_env\<close>. The context is its name tag. Messages and the sleep between heads are
  not modelled.
\<close>

section \<open>Options and environment\<close>

text \<open>The provider stores a builder makes.\<close>

datatype store_builder =
    Build_Noop
  | Build_HTTP string
  | Build_DynamoDB string int int          \<comment> \<open>table, TTL in nanoseconds, query limit\<close>

record ('w, 'h) hydra_options =
  hy_Name :: string
  hy_DatastorePath :: string
  hy_PeerstorePath :: string
  hy_ProviderStore :: string
  hy_DelegateTimeout :: int
  hy_GetPort :: "'w \<Rightarrow> 'w \<times> int"
  hy_NHeads :: int
  hy_ProtocolPrefix :: string
  hy_BucketSize :: int
  hy_BsCon :: int
  hy_EnableRelay :: bool
  hy_Stagger :: int
  hy_IDGenerator :: "('w \<Rightarrow> 'w \<times> 'h outcome) option"     \<comment> \<open>its \<open>AddBalanced\<close>\<close>
  hy_DisableProvGC :: bool
  hy_DisableProviders :: bool
  hy_DisableValues :: bool
  hy_BootstrapPeers :: "string list"
  hy_DisablePrefetch :: bool
  hy_DisableProvCounts :: bool
  hy_DisableDBCreate :: bool
  hy_DisableResourceManager :: bool
  hy_ResourceManagerLimitsFile :: string
  hy_ConnMgrHighWater :: int
  hy_ConnMgrLowWater :: int
  hy_ConnMgrGracePeriod :: int

record ('w, 'h) hydra_env =
  ye_head :: "('w, 'h, store_builder) head_env"
  ye_TagError :: "string \<Rightarrow> go_error option"           \<comment> \<open>\<open>tag.New\<close> refuses the value\<close>
  ye_NewPostgreSQLDatastore :: "string \<Rightarrow> bool \<Rightarrow> 'w \<Rightarrow> 'w \<times> 'h outcome"
  ye_NewDDBDatastore :: "string \<Rightarrow> 'w \<Rightarrow> 'w \<times> 'h outcome"
  ye_NewLevelDB :: "string \<Rightarrow> 'w \<Rightarrow> 'w \<times> 'h outcome"
  ye_NewPeerstore :: "'h \<Rightarrow> 'w \<Rightarrow> 'w \<times> 'h outcome"
  ye_LoadAWSConfig :: "go_error option"
  ye_ParseFraction :: "nat \<Rightarrow> nat \<Rightarrow> nat \<Rightarrow> nat"       \<comment> \<open>see theory \<open>Go_Time\<close>\<close>
  ye_HydraIdentityGenerator :: "'w \<Rightarrow> 'w \<times> 'h outcome"
  ye_NewMultiaddr :: "string \<Rightarrow> string"
  ye_limiter :: 'h
  ye_httpClient :: 'h
  ye_finder :: 'h
  ye_HostID :: "'h \<Rightarrow> string"
  ye_HeadUp :: "'h \<Rightarrow> 'w \<Rightarrow> 'w"
  ye_RunIPNSTask :: "'h \<Rightarrow> 'w \<Rightarrow> 'w"
  ye_RunHydraTasks :: "'w \<Rightarrow> 'w"

section \<open>Choosing the stores\<close>

definition parseDDBTable :: "string \<Rightarrow> string outcome" where
  "parseDDBTable optsStr =
     (case ParseOptsString optsStr of
        Error e \<Rightarrow> Error (Wrapf ''parsing DynamoDB config string: '' e)
      | Panic p \<Rightarrow> Panic p
      | Ok opts \<Rightarrow>
          (case opts ''table'' of
             None \<Rightarrow> Error (Errorf ''must specify table in DynamoDB opts string'')
           | Some table \<Rightarrow> Ok table))"

text \<open>Indexing a Go map with a missing key gives the empty string.\<close>

definition map_index :: "(string \<rightharpoonup> string) \<Rightarrow> string \<Rightarrow> string" where
  "map_index m k = (case m k of None \<Rightarrow> '''' | Some v \<Rightarrow> v)"

definition ddb_builder ::
    "(nat \<Rightarrow> nat \<Rightarrow> nat \<Rightarrow> nat) \<Rightarrow> go_error option \<Rightarrow> (string \<rightharpoonup> string) \<Rightarrow> store_builder option outcome" where
  "ddb_builder frac loadAWS ddbOpts =
     (let table = map_index ddbOpts ''table''; ttlStr = map_index ddbOpts ''ttl'';
          queryLimitStr = map_index ddbOpts ''queryLimit''
      in if table = '''' then Error (Errorf ''DynamoDB table must be specified'')
         else if ttlStr = '''' then Error (Errorf ''DynamoDB TTL must be specified'')
         else (case ParseDuration frac ttlStr of
                 Error e \<Rightarrow> Error (Wrapf ''parsing DynamoDB TTL: '' e)
               | Panic p \<Rightarrow> Panic p
               | Ok ttl \<Rightarrow>
                   if queryLimitStr = '''' then Error (Errorf ''DynamoDB query limit must be specified'')
                   else (case ParseInt 32 queryLimitStr of
                           Error e \<Rightarrow> Error (Wrapf ''parsing DynamoDB query limit: '' e)
                         | Panic p \<Rightarrow> Panic p
                         | Ok queryLimit \<Rightarrow>
                             (case loadAWS of
                                Some e \<Rightarrow> Error (Wrapf ''loading AWS config: '' e)
                              | None \<Rightarrow> Ok (Some (Build_DynamoDB table ttl queryLimit))))))"

definition newProviderStoreBuilder ::
    "(nat \<Rightarrow> nat \<Rightarrow> nat \<Rightarrow> nat) \<Rightarrow> go_error option \<Rightarrow> string \<Rightarrow> store_builder option outcome" where
  "newProviderStoreBuilder frac loadAWS providerStore =
     (if providerStore = ''none'' then Ok (Some Build_Noop)
      else if HasPrefix providerStore ''https://'' then Ok (Some (Build_HTTP providerStore))
      else if HasPrefix providerStore ''dynamodb://''
      then (case ParseOptsString (TrimPrefix providerStore ''dynamodb://'') of
              Error e \<Rightarrow> Error (Wrapf ''parsing DynamoDB config string: '' e)
            | Panic p \<Rightarrow> Panic p
            | Ok ddbOpts \<Rightarrow> ddb_builder frac loadAWS ddbOpts)
      else Ok None)"

definition open_datastore ::
    "('w, 'h) hydra_env \<Rightarrow> ('w, 'h) hydra_options \<Rightarrow> 'w \<Rightarrow> 'w \<times> 'h outcome" where
  "open_datastore env o1 w =
     (let path = hy_DatastorePath o1;
          wrap = (\<lambda>(w', r). (w', case r of
                     Error e \<Rightarrow> Error (Wrapf ''failed to create datastore: '' e) | r' \<Rightarrow> r'))
      in if HasPrefix path ''postgresql://''
         then wrap (ye_NewPostgreSQLDatastore env path (\<not> hy_DisableDBCreate o1) w)
         else if HasPrefix path ''dynamodb://''
         then (case parseDDBTable (TrimPrefix path ''dynamodb://'') of
                 Error e \<Rightarrow> (w, Error e)
               | Panic p \<Rightarrow> (w, Panic p)
               | Ok table \<Rightarrow>
                   (case ye_NewDDBDatastore env table w of
                      (w1, Ok ddbDS) \<Rightarrow> (ye_RunIPNSTask env ddbDS w1, Ok ddbDS)
                    | r \<Rightarrow> r))
         else wrap (ye_NewLevelDB env path w))"

section \<open>Spawning heads\<close>

definition hydra_head_options ::
    "('w, 'h) hydra_env \<Rightarrow> ('w, 'h) hydra_options \<Rightarrow> 'h \<Rightarrow> store_builder option \<Rightarrow> nat \<Rightarrow> int \<Rightarrow> 'h \<Rightarrow>
     'h option \<Rightarrow> ('h, store_builder) head_option list" where
  "hydra_head_options env o1 ds builder i port priv pstore =
     [Datastore (Some ds), ProviderStoreBuilder builder,
      Addrs [ye_NewMultiaddr env (''/ip4/0.0.0.0/tcp/'' @ Itoa port),
             ye_NewMultiaddr env (''/ip4/0.0.0.0/udp/'' @ Itoa port @ ''/quic'')],
      ProtocolPrefix (hy_ProtocolPrefix o1), BucketSize (hy_BucketSize o1),
      Limiter (Some (ye_limiter env)), ID (Some priv), BootstrapPeers (hy_BootstrapPeers o1),
      DelegateHTTPClient (Some (ye_httpClient env)),
      DisableResourceManager (hy_DisableResourceManager o1),
      ResourceManagerLimitsFile (hy_ResourceManagerLimitsFile o1),
      ConnMgrHighWater (hy_ConnMgrHighWater o1), ConnMgrLowWater (hy_ConnMgrLowWater o1),
      ConnMgrGracePeriod (hy_ConnMgrGracePeriod o1)] @
     (if hy_EnableRelay o1 then [EnableRelay] else []) @
     (if hy_DisableProviders o1 then [DisableProviders] else []) @
     (if hy_DisableValues o1 then [DisableValues] else []) @
     (if hy_DisableProvGC o1 \<or> 0 < i then [DisableProvGC] else []) @
     (if hy_DisableProvCounts o1 \<or> 0 < i then [DisableProvCounts] else []) @
     (if \<not> hy_DisablePrefetch o1 then [ProvidersFinder_opt (Some (ye_finder env))] else []) @
     (case pstore of None \<Rightarrow> [] | Some ps \<Rightarrow> [Peerstore (Some ps)])"

text \<open>The peer store of head \<open>i\<close>, when a path is given.\<close>

definition head_peerstore ::
    "('w, 'h) hydra_env \<Rightarrow> string \<Rightarrow> nat \<Rightarrow> 'w \<Rightarrow> 'w \<times> 'h option outcome" where
  "head_peerstore env path i w =
     (if path = '''' then (w, Ok None)
      else (case ye_NewLevelDB env (path @ ''/head-'' @ Itoa (int i)) w of
              (w1, Error e) \<Rightarrow> (w1, Error (Wrapf ''failed to create peerstore datastore: '' e))
            | (w1, Panic p) \<Rightarrow> (w1, Panic p)
            | (w1, Ok pstoreDs) \<Rightarrow>
                (case ye_NewPeerstore env pstoreDs w1 of
                   (w2, Error e) \<Rightarrow> (w2, Error (Wrapf ''failed to create peerstore: '' e))
                 | (w2, Panic p) \<Rightarrow> (w2, Panic p)
                 | (w2, Ok pstore) \<Rightarrow> (w2, Ok (Some pstore)))))"

text \<open>One iteration of the loop over the heads.\<close>

definition spawn_head ::
    "('w, 'h) hydra_env \<Rightarrow> ('w, 'h) hydra_options \<Rightarrow> string option \<Rightarrow> 'h \<Rightarrow> store_builder option \<Rightarrow>
     nat \<Rightarrow> 'w \<Rightarrow> 'w \<times> ('h, store_builder) head outcome" where
  "spawn_head env o1 ctx ds builder i w =
     (let (w1, port) = hy_GetPort o1 w;
          AddBalanced = (case hy_IDGenerator o1 of
                           None \<Rightarrow> ye_HydraIdentityGenerator env | Some gen \<Rightarrow> gen)
      in case AddBalanced w1 of
           (w2, Error e) \<Rightarrow> (w2, Error (Wrapf ''failed to generate balanced private key '' e))
         | (w2, Panic p) \<Rightarrow> (w2, Panic p)
         | (w2, Ok priv) \<Rightarrow>
             (case head_peerstore env (hy_PeerstorePath o1) i w2 of
                (w3, Error e) \<Rightarrow> (w3, Error e)
              | (w3, Panic p) \<Rightarrow> (w3, Panic p)
              | (w3, Ok pstore) \<Rightarrow>
                  (case NewHead (ye_head env) ctx
                          (hydra_head_options env o1 ds builder i port priv pstore) w3 of
                     (w4, Error e) \<Rightarrow> (w4, Error (Wrapf ''failed to spawn node with swarm addresses: '' e))
                   | (w4, Panic p) \<Rightarrow> (w4, Panic p)
                   | (w4, Ok hed) \<Rightarrow>
                       (case ye_TagError env (ye_HostID env (hd_Host hed)) of
                          Some e \<Rightarrow> (w4, Error e)
                        | None \<Rightarrow> (ye_HeadUp env (hd_Host hed) w4, Ok hed)))))"

fun spawn_heads ::
    "('w, 'h) hydra_env \<Rightarrow> ('w, 'h) hydra_options \<Rightarrow> string option \<Rightarrow> 'h \<Rightarrow> store_builder option \<Rightarrow>
     nat \<Rightarrow> nat \<Rightarrow> 'w \<Rightarrow> 'w \<times> ('h, store_builder) head list outcome" where
  "spawn_heads env o1 ctx ds builder i 0 w = (w, Ok [])"
| "spawn_heads env o1 ctx ds builder i (Suc n) w =
     (case spawn_head env o1 ctx ds builder i w of
        (w1, Error e) \<Rightarrow> (w1, Error e)
      | (w1, Panic p) \<Rightarrow> (w1, Panic p)
      | (w1, Ok hed) \<Rightarrow>
          (case spawn_heads env o1 ctx ds builder (Suc i) n w1 of
             (w2, Ok hds) \<Rightarrow> (w2, Ok (hed # hds))
           | r \<Rightarrow> r))"

record 'h hydra =
  hydra_Heads :: "('h, store_builder) head list"
  hydra_SharedDatastore :: 'h

text \<open>
  Of the caller's context \<open>ctx\<close> the model keeps the tag \<open>name\<close>. \<open>tag.New\<close> with \<open>tag.Insert\<close> checks the value
  and does not replace a tag that is there.
\<close>

definition hydra_context :: "('w, 'h) hydra_env \<Rightarrow> string option \<Rightarrow> string \<Rightarrow> string option outcome" where
  "hydra_context env ctx name =
     (if name \<noteq> ''''
      then (case ye_TagError env name of
              Some e \<Rightarrow> Error e
            | None \<Rightarrow> Ok (case ctx of None \<Rightarrow> Some name | Some n \<Rightarrow> Some n))
      else Ok ctx)"

definition NewHydra ::
    "('w, 'h) hydra_env \<Rightarrow> string option \<Rightarrow> ('w, 'h) hydra_options \<Rightarrow> 'w \<Rightarrow> 'w \<times> 'h hydra outcome" where
  "NewHydra env ctx0 o1 w =
     (case hydra_context env ctx0 (hy_Name o1) of
        Error e \<Rightarrow> (w, Error e)
      | Panic p \<Rightarrow> (w, Panic p)
      | Ok ctx \<Rightarrow>
          (case open_datastore env o1 w of
             (w1, Error e) \<Rightarrow> (w1, Error e)
           | (w1, Panic p) \<Rightarrow> (w1, Panic p)
           | (w1, Ok ds) \<Rightarrow>
               if hy_BsCon o1 < 0 then (w1, Panic MakeChanSize)
               else (case newProviderStoreBuilder (ye_ParseFraction env) (ye_LoadAWSConfig env)
                            (hy_ProviderStore o1) of
                       Error e \<Rightarrow> (w1, Error e)
                     | Panic p \<Rightarrow> (w1, Panic p)
                     | Ok builder \<Rightarrow>
                         (case spawn_heads env o1 ctx ds builder 0 (nat (hy_NHeads o1)) w1 of
                            (w2, Error e) \<Rightarrow> (w2, Error e)
                          | (w2, Panic p) \<Rightarrow> (w2, Panic p)
                          | (w2, Ok hds) \<Rightarrow>
                              (ye_RunHydraTasks env w2,
                               Ok \<lparr>hydra_Heads = hds, hydra_SharedDatastore = ds\<rparr>)))))"

definition GetRoutingTableSize :: "('h \<Rightarrow> int) \<Rightarrow> 'h hydra \<Rightarrow> int" where
  "GetRoutingTableSize tableSize hy =
     foldl (\<lambda>rts hed. rts + tableSize (hd_Routing hed)) 0 (hydra_Heads hy)"

section \<open>Facts\<close>

text \<open>The configuration that the options of a hydra give its heads.\<close>

abbreviation run_options :: "('o \<Rightarrow> 'o \<times> go_error option) list \<Rightarrow> 'o \<Rightarrow> 'o" where
  "run_options opts \<equiv> fold (\<lambda>opt o1. fst (opt o1)) opts"

lemma run_cond:
  "run_options (if b then [EnableRelay] else []) c = c\<lparr>ho_EnableRelay := (b \<or> ho_EnableRelay c)\<rparr>"
  "run_options (if b then [DisableProviders] else []) c =
     c\<lparr>ho_DisableProviders := (b \<or> ho_DisableProviders c)\<rparr>"
  "run_options (if b then [DisableValues] else []) c =
     c\<lparr>ho_DisableValues := (b \<or> ho_DisableValues c)\<rparr>"
  "run_options (if b then [DisableProvGC] else []) c =
     c\<lparr>ho_DisableProvGC := (b \<or> ho_DisableProvGC c)\<rparr>"
  "run_options (if b then [DisableProvCounts] else []) c =
     c\<lparr>ho_DisableProvCounts := (b \<or> ho_DisableProvCounts c)\<rparr>"
  "run_options (if b then [ProvidersFinder_opt f] else []) c =
     c\<lparr>ho_ProvidersFinder := (if b then f else ho_ProvidersFinder c)\<rparr>"
  "run_options (case pstore of None \<Rightarrow> [] | Some ps \<Rightarrow> [Peerstore (Some ps)]) c =
     c\<lparr>ho_Peerstore := (case pstore of None \<Rightarrow> ho_Peerstore c | Some ps \<Rightarrow> Some ps)\<rparr>"
  by (simp_all add: head_option_defs split: option.split)

lemma run_set:
  "fst (ProtocolPrefix pfx c) =
     c\<lparr>ho_ProtocolPrefix := (if pfx = [] then ho_ProtocolPrefix c else pfx)\<rparr>"
  "fst (BucketSize n c) = c\<lparr>ho_BucketSize := (if n = 0 then ho_BucketSize c else n)\<rparr>"
  "fst (BootstrapPeers ps c) =
     c\<lparr>ho_BootstrapPeers := (if ps = [] then ho_BootstrapPeers c else ps)\<rparr>"
  "fst (ID (Some k) c) = c\<lparr>ho_ID := Some k\<rparr>"
  by (simp_all add: head_option_defs)

lemma hydra_options_never_fail:
  "\<forall>opt \<in> set (Defaults dd # hydra_head_options env o1 ds builder i port priv pstore).
     \<forall>c. snd (opt c) = None"
  by (auto simp: hydra_head_options_def head_option_defs split: option.splits)

lemma hydra_head_config_eq:
  "head_config (ye_head env) (hydra_head_options env o1 ds builder i port priv pstore) =
   run_options (hydra_head_options env o1 ds builder i port priv pstore)
     (fst (Defaults (hv_defaults (ye_head env)) zero_options))"
  using apply_from_ok [OF hydra_options_never_fail
      [of "hv_defaults (ye_head env)" env o1 ds builder i port priv pstore], of 0 zero_options]
  by (simp add: head_config_def Options_Apply_def)

lemma hydra_head_config:
  fixes env :: "('w, 'h) hydra_env"
  defines "cfg \<equiv> \<lambda>o1 ds builder i port priv pstore.
    head_config (ye_head env) (hydra_head_options env o1 ds builder i port priv pstore)"
  shows "ho_Datastore (cfg o1 ds builder i port priv pstore) = Some ds"
    "ho_ProviderStoreBuilder (cfg o1 ds builder i port priv pstore) = builder"
    "ho_ID (cfg o1 ds builder i port priv pstore) = Some priv"
    "ho_Limiter (cfg o1 ds builder i port priv pstore) = Some (ye_limiter env)"
    "ho_Addrs (cfg o1 ds builder i port priv pstore) =
      [ye_NewMultiaddr env (''/ip4/0.0.0.0/tcp/'' @ Itoa port),
       ye_NewMultiaddr env (''/ip4/0.0.0.0/udp/'' @ Itoa port @ ''/quic'')]"
    "ho_DisableProvGC (cfg o1 ds builder i port priv pstore) = (hy_DisableProvGC o1 \<or> 0 < i)"
    "ho_DisableProvCounts (cfg o1 ds builder i port priv pstore) = (hy_DisableProvCounts o1 \<or> 0 < i)"
    "ho_ProvidersFinder (cfg o1 ds builder i port priv pstore) =
      (if hy_DisablePrefetch o1 then None else Some (ye_finder env))"
    "ho_BucketSize (cfg o1 ds builder i port priv pstore) =
      (if hy_BucketSize o1 = 0 then 20 else hy_BucketSize o1)"
    "ho_BootstrapPeers (cfg o1 ds builder i port priv pstore) =
      (if hy_BootstrapPeers o1 = [] then dd_DefaultBootstrapPeers (hv_defaults (ye_head env))
       else hy_BootstrapPeers o1)"
    "ho_EnableRelay (cfg o1 ds builder i port priv pstore) = hy_EnableRelay o1"
    "ho_Peerstore (cfg o1 ds builder i port priv pstore) = pstore"
  unfolding cfg_def hydra_head_config_eq unfolding hydra_head_options_def
  by (simp_all only: fold_append o_apply list.simps fold_simps) (simp_all add: run_cond run_set plain_option_defs zero_options_def split: option.split)

text \<open>A head that \<open>spawn_head\<close> makes was made with its options.\<close>

definition head_made ::
    "('w, 'h) hydra_env \<Rightarrow> ('w, 'h) hydra_options \<Rightarrow> 'h \<Rightarrow> store_builder option \<Rightarrow> nat \<Rightarrow>
     ('h, store_builder) head \<Rightarrow> bool" where
  "head_made env o1 ds builder i h \<longleftrightarrow> (\<exists>port priv pstore. hd_cfg h =
     head_config (ye_head env) (hydra_head_options env o1 ds builder i port priv pstore))"

lemma spawn_head_made:
  "spawn_head env o1 ctx ds builder i w = (w', Ok h) \<Longrightarrow> head_made env o1 ds builder i h"
  unfolding head_made_def
  by (auto simp: spawn_head_def Let_def split: prod.splits outcome.splits option.splits
      dest!: NewHead_cfg)

lemma spawn_heads_made:
  "spawn_heads env o1 ctx ds builder i n w = (w', Ok hds) \<Longrightarrow>
   length hds = n \<and> (\<forall>j < n. head_made env o1 ds builder (i + j) (hds ! j))"
proof (induction n arbitrary: i w hds)
  case (Suc n)
  then obtain w1 h hds' where h: "spawn_head env o1 ctx ds builder i w = (w1, Ok h)"
      "spawn_heads env o1 ctx ds builder (Suc i) n w1 = (w', Ok hds')" "hds = h # hds'"
    by (auto split: prod.splits outcome.splits)
  from Suc.IH [OF h(2)] spawn_head_made [OF h(1)] show ?case
    unfolding h(3) by (auto simp: nth_Cons split: nat.split)
qed simp

lemma NewHydra_Ok:
  assumes "NewHydra env ctx0 o1 w = (w', Ok hy)"
  shows "\<exists>ctx builder w1 w2. hydra_context env ctx0 (hy_Name o1) = Ok ctx \<and>
    spawn_heads env o1 ctx (hydra_SharedDatastore hy) builder 0 (nat (hy_NHeads o1)) w1 =
      (w2, Ok (hydra_Heads hy)) \<and>
    newProviderStoreBuilder (ye_ParseFraction env) (ye_LoadAWSConfig env) (hy_ProviderStore o1) = Ok builder"
  using assms
  by (auto simp: NewHydra_def split: prod.splits outcome.splits if_splits; blast)

text \<open>The name in the options is used for the context only.\<close>

lemma other_options:
  "hy_GetPort (o1\<lparr>hy_Name := n\<rparr>) = hy_GetPort o1" "hy_IDGenerator (o1\<lparr>hy_Name := n\<rparr>) = hy_IDGenerator o1"
  "hy_PeerstorePath (o1\<lparr>hy_Name := n\<rparr>) = hy_PeerstorePath o1"
  "hy_DatastorePath (o1\<lparr>hy_Name := n\<rparr>) = hy_DatastorePath o1"
  "hy_DisableDBCreate (o1\<lparr>hy_Name := n\<rparr>) = hy_DisableDBCreate o1" "hy_BsCon (o1\<lparr>hy_Name := n\<rparr>) = hy_BsCon o1"
  "hy_ProviderStore (o1\<lparr>hy_Name := n\<rparr>) = hy_ProviderStore o1" "hy_NHeads (o1\<lparr>hy_Name := n\<rparr>) = hy_NHeads o1"
  by simp_all

lemma head_options_rename:
  "hydra_head_options env (o1\<lparr>hy_Name := n\<rparr>) ds builder i port priv pstore =
    hydra_head_options env o1 ds builder i port priv pstore"
  by (simp add: hydra_head_options_def)

lemma spawn_head_rename:
  "spawn_head env (o1\<lparr>hy_Name := n\<rparr>) ctx ds builder i w = spawn_head env o1 ctx ds builder i w"
  unfolding spawn_head_def head_options_rename other_options ..

lemma spawn_heads_rename:
  "spawn_heads env (o1\<lparr>hy_Name := n\<rparr>) ctx ds builder i k w = spawn_heads env o1 ctx ds builder i k w"
  by (induction k arbitrary: i w) (simp_all add: spawn_head_rename)

lemma open_datastore_rename: "open_datastore env (o1\<lparr>hy_Name := n\<rparr>) w = open_datastore env o1 w"
  unfolding open_datastore_def other_options ..

lemma NewHydra_rename:
  "NewHydra env ctx0 (o1\<lparr>hy_Name := n\<rparr>) w =
    (case hydra_context env ctx0 n of
       Error e \<Rightarrow> (w, Error e)
     | Panic p \<Rightarrow> (w, Panic p)
     | Ok ctx \<Rightarrow> NewHydra env ctx (o1\<lparr>hy_Name := []\<rparr>) w)"
proof -
  have name: "hy_Name (o1\<lparr>hy_Name := m\<rparr>) = m" for m by simp
  have keeps: "hydra_context env ctx [] = Ok ctx" for ctx by (simp add: hydra_context_def)
  show ?thesis
    unfolding NewHydra_def name keeps other_options open_datastore_rename spawn_heads_rename
    by (cases "hydra_context env ctx0 n") simp_all
qed

lemma spawn_heads_no_name:
  assumes "0 < n"
  shows "\<not> is_Ok (snd (spawn_heads env o1 None ds builder i n w))"
proof -
  obtain m where n: "n = Suc m" using assms by (cases n) auto
  have nh: "NewHead (ye_head env) None opts w0 \<noteq> (w1, Ok h)" for opts w0 w1 h
    using NewHead_no_name [of "ye_head env" opts w0] by auto
  have "\<not> is_Ok (snd (spawn_head env o1 None ds builder i w))"
    by (auto simp: spawn_head_def Let_def nh split: prod.split outcome.split option.split)
  then show ?thesis by (auto simp: n split: prod.split outcome.split)
qed

lemma Itoa_chars: "c \<in> set (Itoa n) \<Longrightarrow> c \<noteq> CHR '','' \<and> c \<noteq> CHR ''=''"
proof -
  have d: "digit_char d \<noteq> CHR '','' \<and> digit_char d \<noteq> CHR ''=''" if "d < 10" for d
    using char_digit_char [OF that] by (auto simp: char_digit_def)
  assume "c \<in> set (Itoa n)"
  then show ?thesis
    using format_nat_digit d by (fastforce simp: Itoa_def FormatInt_def split: if_splits)
qed

lemma ddb_string_opts:
  assumes "\<forall>c \<in> set (table @ ttl). c \<noteq> CHR '','' \<and> c \<noteq> CHR ''=''"
  shows "ParseOptsString (''table='' @ table @ '',ttl='' @ ttl @ '',queryLimit='' @ Itoa n) =
    Ok [''table'' \<mapsto> table, ''ttl'' \<mapsto> ttl, ''queryLimit'' \<mapsto> Itoa n]"
proof -
  let ?kvs = "[(''table'', table), (''ttl'', ttl), (''queryLimit'', Itoa n)]"
  have "''table='' @ table @ '',ttl='' @ ttl @ '',queryLimit='' @ Itoa n =
      Join (map (\<lambda>(k, v). k @ CHR ''='' # v) ?kvs) [CHR '','']"
    by simp
  moreover have "Split CHR '','' (Join (map (\<lambda>(k, v). k @ CHR ''='' # v) ?kvs) [CHR '','']) =
      map (\<lambda>(k, v). k @ CHR ''='' # v) ?kvs"
    using assms Itoa_chars by (intro Split_Join) auto
  moreover have "parse_opts_loop (map (\<lambda>(k, v). k @ CHR ''='' # v) ?kvs) Map.empty =
      Ok (Map.empty ++ map_of (rev ?kvs))"
    using assms Itoa_chars by (intro parse_opts_loop_pairs) auto
  ultimately show ?thesis by (simp add: ParseOptsString_def)
qed

section \<open>Properties\<close>

text \<open>
  C28: a provider store string \<open>dynamodb://table=T,ttl=D,queryLimit=N\<close> selects a DynamoDB store with
  exactly these values when \<open>T\<close> is not empty, \<open>D\<close> is a Go duration and \<open>N\<close> a signed 32-bit integer.
  A time to live that is a plain number, as the help text of the flag asks for (\<open>ttl-in-seconds\<close>),
  is refused.
\<close>

theorem newProviderStoreBuilder_dynamodb:
  assumes "\<forall>c \<in> set (table @ ttl). c \<noteq> CHR '','' \<and> c \<noteq> CHR ''=''" "table \<noteq> []"
    and "- (2 ^ 31) \<le> n" "n < 2 ^ 31"
  shows "(ttl \<noteq> [] \<and> ParseDuration frac ttl = Ok d \<longrightarrow>
      newProviderStoreBuilder frac None
        (''dynamodb://table='' @ table @ '',ttl='' @ ttl @ '',queryLimit='' @ Itoa n) =
      Ok (Some (Build_DynamoDB table d n))) \<and>
    ((\<forall>c \<in> set ttl. is_digit c) \<and> ttl \<noteq> ''0'' \<longrightarrow>
      (\<exists>e. newProviderStoreBuilder frac None
        (''dynamodb://table='' @ table @ '',ttl='' @ ttl @ '',queryLimit='' @ Itoa n) = Error e))"
proof -
  let ?s = "''table='' @ table @ '',ttl='' @ ttl @ '',queryLimit='' @ Itoa n"
  have sel: "newProviderStoreBuilder frac None (''dynamodb://'' @ ?s) =
      ddb_builder frac None [''table'' \<mapsto> table, ''ttl'' \<mapsto> ttl, ''queryLimit'' \<mapsto> Itoa n]"
    unfolding newProviderStoreBuilder_def TrimPrefix_append ddb_string_opts [OF assms(1)]
    by (simp add: HasPrefix_def)
  have lim: "ParseInt 32 (Itoa n) = Ok n" "Itoa n \<noteq> []"
    using ParseInt_FormatInt [of 32 n] assms(3,4) by (simp_all add: Itoa_def FormatInt_def)
  have "ddb_builder frac None [''table'' \<mapsto> table, ''ttl'' \<mapsto> ttl, ''queryLimit'' \<mapsto> Itoa n] =
      Ok (Some (Build_DynamoDB table d n))" if "ttl \<noteq> []" "ParseDuration frac ttl = Ok d"
    using that lim assms(2) by (simp add: ddb_builder_def map_index_def)
  moreover have "\<exists>e. ddb_builder frac None [''table'' \<mapsto> table, ''ttl'' \<mapsto> ttl, ''queryLimit'' \<mapsto> Itoa n] =
      Error e" if "\<forall>c \<in> set ttl. is_digit c" "ttl \<noteq> ''0''"
    using ParseDuration_needs_unit [OF that, of frac] assms(2)
    by (auto simp: ddb_builder_def map_index_def Let_def)
  ultimately show ?thesis using sel by simp
qed

theorem newProviderStoreBuilder_dynamodb_witness:
  "newProviderStoreBuilder (\<lambda>_ _ _. 0) None ''dynamodb://table=t,ttl=60s,queryLimit=100'' =
     Ok (Some (Build_DynamoDB ''t'' 60000000000 100)) \<and>
   (\<exists>e. newProviderStoreBuilder (\<lambda>_ _ _. 0) None ''dynamodb://table=t,ttl=300,queryLimit=100'' = Error e)"
proof -
  have i: "Itoa 100 = ''100''" by code_simp
  have c: "\<forall>c \<in> set (''t'' @ ''60s''). c \<noteq> CHR '','' \<and> c \<noteq> CHR ''=''"
    "\<forall>c \<in> set (''t'' @ ''300''). c \<noteq> CHR '','' \<and> c \<noteq> CHR ''=''" by simp_all
  have "ParseDuration (\<lambda>_ _ _. 0) ''60s'' = Ok 60000000000" by (rule ParseDuration_examples)
  moreover have "\<forall>c \<in> set ''300''. is_digit c" by (simp add: is_digit_def char_digit_def)
  ultimately show ?thesis
    using newProviderStoreBuilder_dynamodb [OF c(1), of 100 "\<lambda>_ _ _. 0" 60000000000]
      newProviderStoreBuilder_dynamodb [OF c(2), of 100 "\<lambda>_ _ _. 0" 0] i by simp
qed

definition example_head_env :: "(nat, nat, store_builder) head_env" where
  "example_head_env =
     \<lparr>hv_NewConnManager = (\<lambda>_ _ _. Ok 1), hv_InfiniteLimiter = 2, hv_OpenLimits = (\<lambda>_ _. Ok 3),
      hv_LimiterFromJSON = (\<lambda>_. Ok 4),
      hv_DefaultLimits = \<lparr>rl_ConnsOutbound = 0, rl_ConnsInbound = 0, rl_Conns = 0, rl_inc_Conns = 0,
        rl_inc_ConnsInbound = 0, rl_inc_ConnsOutbound = 0\<rparr>,
      hv_AutoScaleLimiter = (\<lambda>_. 5), hv_NewResourceManager = (\<lambda>_ _. Ok 6),
      hv_NewHost = (\<lambda>_ w. (Suc w, Ok (100 + w))), hv_BuildStore = (\<lambda>_ _ _ w. (w, Ok 7)),
      hv_NewLRU = (\<lambda>_ _. Ok 8), hv_NewProviderManager = (\<lambda>_ _ _ w. (w, Ok 9)),
      hv_RunProviderRecordsTask = (\<lambda>_ _ _ w. w), hv_NewDHT = (\<lambda>_ _ w. (w, Ok 10)),
      hv_SetRouter = (\<lambda>_ _ w. w), hv_Bootstrap = (\<lambda>_ w. w), hv_UserAgent = ''hydra-booster/'',
      hv_defaults = \<lparr>dd_MapDatastore = 11, dd_DefaultPrefix = ''/ipfs'', dd_DefaultBootstrapPeers = []\<rparr>\<rparr>"

definition example_hydra_env :: "(nat, nat) hydra_env" where
  "example_hydra_env =
     \<lparr>ye_head = example_head_env, ye_TagError = (\<lambda>_. None),
      ye_NewPostgreSQLDatastore = (\<lambda>_ _ w. (w, Ok 20)), ye_NewDDBDatastore = (\<lambda>_ w. (w, Ok 21)),
      ye_NewLevelDB = (\<lambda>_ w. (w, Ok 22)), ye_NewPeerstore = (\<lambda>_ w. (w, Ok 23)),
      ye_LoadAWSConfig = None, ye_ParseFraction = (\<lambda>_ _ _. 0),
      ye_HydraIdentityGenerator = (\<lambda>w. (Suc w, Ok (200 + w))), ye_NewMultiaddr = (\<lambda>s. s),
      ye_limiter = 24, ye_httpClient = 25, ye_finder = 26, ye_HostID = (\<lambda>_. ''Qm''),
      ye_HeadUp = (\<lambda>_ w. w), ye_RunIPNSTask = (\<lambda>_ w. w), ye_RunHydraTasks = (\<lambda>w. w)\<rparr>"

definition example_hydra_options :: "string \<Rightarrow> (nat, nat) hydra_options" where
  "example_hydra_options name =
     \<lparr>hy_Name = name, hy_DatastorePath = ''belly'', hy_PeerstorePath = [], hy_ProviderStore = ''none'',
      hy_DelegateTimeout = 0, hy_GetPort = (\<lambda>w. (Suc w, 3000 + int w)), hy_NHeads = 2,
      hy_ProtocolPrefix = ''/ipfs'', hy_BucketSize = 0, hy_BsCon = 32, hy_EnableRelay = False,
      hy_Stagger = 0, hy_IDGenerator = None, hy_DisableProvGC = False, hy_DisableProviders = False,
      hy_DisableValues = False, hy_BootstrapPeers = [], hy_DisablePrefetch = False,
      hy_DisableProvCounts = False, hy_DisableDBCreate = False, hy_DisableResourceManager = False,
      hy_ResourceManagerLimitsFile = [], hy_ConnMgrHighWater = 1800, hy_ConnMgrLowWater = 1200,
      hy_ConnMgrGracePeriod = 60000000000\<rparr>"

lemma example_NewHead_ok: "is_Ok (snd (NewHead example_head_env (Some name) opts w))"
proof -
  have r: "\<exists>rm. buildRcmgr example_head_env (Some name) b f w = Ok rm" for b f
    by (simp add: buildRcmgr_def rcmgr_limiter_def CreateRcmgrMetrics_def example_head_env_def)
  have s: "is_Ok (snd (head_start_host example_head_env cfg cmgr rm w))" for cfg cmgr rm
    by (simp add: head_start_host_def head_start_dht_def head_provider_store_def
        newDefaultProviderStore_def example_head_env_def Let_def split: option.split)
  have c: "hv_NewConnManager example_head_env l h g = Ok 1" for l h g
    by (simp add: example_head_env_def)
  let ?cfg = "head_config example_head_env opts"
  obtain rm where "buildRcmgr example_head_env (Some name) (ho_DisableResourceManager ?cfg)
      (ho_ResourceManagerLimitsFile ?cfg) w = Ok rm"
    using r by blast
  with s c show ?thesis by (simp add: NewHead_def Let_def)
qed

lemma example_spawn_head_ok:
  "is_Ok (snd (spawn_head example_hydra_env (example_hydra_options name) (Some name) ds builder i w))"
proof -
  obtain w1 port where p: "hy_GetPort (example_hydra_options name) w = (w1, port)" by fastforce
  obtain w2 h where "NewHead example_head_env (Some name) (hydra_head_options example_hydra_env
      (example_hydra_options name) ds builder i port (200 + w1) None) (Suc w1) = (w2, Ok h)"
    using example_NewHead_ok by (metis is_Ok_iff prod.collapse)
  with p show ?thesis
    by (simp add: spawn_head_def head_peerstore_def example_hydra_env_def example_hydra_options_def)
qed

lemma example_spawn_heads_ok:
  "is_Ok (snd (spawn_heads example_hydra_env (example_hydra_options name) (Some name) ds builder i n w))"
proof (induction n arbitrary: i w)
  case (Suc n)
  obtain w1 h where h: "spawn_head example_hydra_env (example_hydra_options name) (Some name) ds builder i w =
      (w1, Ok h)"
    using example_spawn_head_ok by (metis is_Ok_iff prod.collapse)
  obtain w2 hs where "spawn_heads example_hydra_env (example_hydra_options name) (Some name) ds builder
      (Suc i) n w1 = (w2, Ok hs)"
    using Suc.IH by (metis is_Ok_iff prod.collapse)
  with h show ?case by simp
qed simp

lemma example_hydra_ok:
  "is_Ok (snd (NewHydra example_hydra_env None (example_hydra_options ''h'') 0))"
proof -
  have "hydra_context example_hydra_env None ''h'' = Ok (Some ''h'')"
    by (simp add: hydra_context_def example_hydra_env_def)
  moreover have "open_datastore example_hydra_env (example_hydra_options ''h'') 0 = (0, Ok 22)"
    by (simp add: open_datastore_def HasPrefix_def example_hydra_env_def example_hydra_options_def)
  moreover have "newProviderStoreBuilder f e ''none'' = Ok (Some Build_Noop)" for f e
    by (simp add: newProviderStoreBuilder_def)
  moreover obtain w2 hs where "spawn_heads example_hydra_env (example_hydra_options ''h'') (Some ''h'') 22
      (Some Build_Noop) 0 2 0 = (w2, Ok hs)"
    using example_spawn_heads_ok by (metis is_Ok_iff prod.collapse)
  moreover have "hy_Name (example_hydra_options ''h'') = ''h''" "hy_BsCon (example_hydra_options ''h'') = 32"
      "hy_ProviderStore (example_hydra_options ''h'') = ''none''" "hy_NHeads (example_hydra_options ''h'') = 2"
    by (simp_all add: example_hydra_options_def)
  ultimately show ?thesis by (simp add: NewHydra_def)
qed

text \<open>
  C12: what \<open>NewHydra\<close> makes, in whatever context. On success there is one head per requested head, in order; all share the
  datastore and the limiter, and each listens on TCP and QUIC with one port. Prefetching, relaying
  and the bucket size are as asked, with 20 for no bucket size. Of all heads only the first collects
  garbage and counts provider records, and it does so exactly when this is not disabled.
\<close>

theorem NewHydra_heads:
  assumes "NewHydra env ctx0 o1 w = (w', Ok hy)"
  shows "length (hydra_Heads hy) = nat (hy_NHeads o1) \<and>
    (\<forall>i < length (hydra_Heads hy).
       let cfg = hd_cfg (hydra_Heads hy ! i)
       in ho_Datastore cfg = Some (hydra_SharedDatastore hy) \<and>
          ho_Limiter cfg = Some (ye_limiter env) \<and>
          (\<exists>port. ho_Addrs cfg = [ye_NewMultiaddr env (''/ip4/0.0.0.0/tcp/'' @ Itoa port),
             ye_NewMultiaddr env (''/ip4/0.0.0.0/udp/'' @ Itoa port @ ''/quic'')]) \<and>
          ho_ProvidersFinder cfg = (if hy_DisablePrefetch o1 then None else Some (ye_finder env)) \<and>
          ho_EnableRelay cfg = hy_EnableRelay o1 \<and>
          ho_BucketSize cfg = (if hy_BucketSize o1 = 0 then 20 else hy_BucketSize o1) \<and>
          ho_DisableProvGC cfg = (hy_DisableProvGC o1 \<or> i \<noteq> 0) \<and>
          ho_DisableProvCounts cfg = (hy_DisableProvCounts o1 \<or> i \<noteq> 0))"
proof -
  obtain ctx builder w1 w2 where sp: "spawn_heads env o1 ctx (hydra_SharedDatastore hy) builder 0
      (nat (hy_NHeads o1)) w1 = (w2, Ok (hydra_Heads hy))"
    using NewHydra_Ok [OF assms] by blast
  note made = spawn_heads_made [OF sp]
  show ?thesis
  proof (intro conjI allI impI)
    fix i assume "i < length (hydra_Heads hy)"
    then have "head_made env o1 (hydra_SharedDatastore hy) builder i (hydra_Heads hy ! i)"
      using made by simp
    then obtain port priv pstore where "hd_cfg (hydra_Heads hy ! i) = head_config (ye_head env)
        (hydra_head_options env o1 (hydra_SharedDatastore hy) builder i port priv pstore)"
      unfolding head_made_def by blast
    note cfg = hydra_head_config [of env o1 "hydra_SharedDatastore hy" builder i port priv pstore,
        folded this]
    show "let cfg = hd_cfg (hydra_Heads hy ! i)
       in ho_Datastore cfg = Some (hydra_SharedDatastore hy) \<and>
          ho_Limiter cfg = Some (ye_limiter env) \<and>
          (\<exists>port. ho_Addrs cfg = [ye_NewMultiaddr env (''/ip4/0.0.0.0/tcp/'' @ Itoa port),
             ye_NewMultiaddr env (''/ip4/0.0.0.0/udp/'' @ Itoa port @ ''/quic'')]) \<and>
          ho_ProvidersFinder cfg = (if hy_DisablePrefetch o1 then None else Some (ye_finder env)) \<and>
          ho_EnableRelay cfg = hy_EnableRelay o1 \<and>
          ho_BucketSize cfg = (if hy_BucketSize o1 = 0 then 20 else hy_BucketSize o1) \<and>
          ho_DisableProvGC cfg = (hy_DisableProvGC o1 \<or> i \<noteq> 0) \<and>
          ho_DisableProvCounts cfg = (hy_DisableProvCounts o1 \<or> i \<noteq> 0)"
      unfolding Let_def using cfg by (intro conjI exI [of _ port]) simp_all
  qed (use made in simp)
qed

theorem NewHydra_heads_witness:
  "\<exists>w' hy. NewHydra example_hydra_env None (example_hydra_options ''h'') 0 = (w', Ok hy) \<and>
     length (hydra_Heads hy) = 2 \<and> \<not> ho_DisableProvGC (hd_cfg (hydra_Heads hy ! 0)) \<and>
     ho_DisableProvGC (hd_cfg (hydra_Heads hy ! 1))"
proof -
  obtain w' hy where n: "NewHydra example_hydra_env None (example_hydra_options ''h'') 0 = (w', Ok hy)"
    using example_hydra_ok by (cases "NewHydra example_hydra_env None (example_hydra_options ''h'') 0")
      (auto simp: is_Ok_iff)
  have o: "nat (hy_NHeads (example_hydra_options ''h'')) = 2"
      "\<not> hy_DisableProvGC (example_hydra_options ''h'')"
    by (simp_all add: example_hydra_options_def)
  from NewHydra_heads [OF n] have l: "length (hydra_Heads hy) = 2"
      and gc: "\<forall>i < 2. ho_DisableProvGC (hd_cfg (hydra_Heads hy ! i)) = (i \<noteq> 0)"
    by (simp_all add: o Let_def)
  have "\<not> ho_DisableProvGC (hd_cfg (hydra_Heads hy ! 0))" "ho_DisableProvGC (hd_cfg (hydra_Heads hy ! 1))"
    using gc by simp_all
  with n l show ?thesis by blast
qed

text \<open>
  C29: a hydra needs a name, from its options or from the context of the caller. With neither there is
  no name tag, so \<open>CreateRcmgrMetrics\<close> fails for the first head and \<open>NewHydra\<close> never succeeds, although
  the \<open>name\<close> flag is optional and \<open>main\<close> passes a context without tags. A name tag in the caller's
  context does instead of the option, as in the tests of the package: \<open>NewHydra\<close> then does exactly
  what it does for a caller without a tag who gives that name, and a name given besides changes nothing.
\<close>

theorem NewHydra_needs_name:
  assumes "hy_Name o1 = []" "0 < hy_NHeads o1"
  shows "\<not> is_Ok (snd (NewHydra env None o1 w)) \<and>
    (\<forall>n. n \<noteq> [] \<and> ye_TagError env n = None \<longrightarrow>
       NewHydra env (Some n) o1 w = NewHydra env None (o1\<lparr>hy_Name := n\<rparr>) w \<and>
       (\<forall>m. ye_TagError env m = None \<longrightarrow>
          NewHydra env (Some n) (o1\<lparr>hy_Name := m\<rparr>) w = NewHydra env (Some n) o1 w))"
proof (intro conjI allI impI)
  show "\<not> is_Ok (snd (NewHydra env None o1 w))"
  proof
    assume "is_Ok (snd (NewHydra env None o1 w))"
    then obtain w' hy where n: "NewHydra env None o1 w = (w', Ok hy)"
      by (cases "NewHydra env None o1 w") (auto simp: is_Ok_iff)
    obtain ctx builder w1 w2 where "hydra_context env None (hy_Name o1) = Ok ctx"
        "spawn_heads env o1 ctx (hydra_SharedDatastore hy) builder 0 (nat (hy_NHeads o1)) w1 =
          (w2, Ok (hydra_Heads hy))"
      using NewHydra_Ok [OF n] by blast
    with assms spawn_heads_no_name [of "nat (hy_NHeads o1)" env o1 "hydra_SharedDatastore hy" builder 0 w1]
    show False by (simp add: hydra_context_def)
  qed
next
  have same: "o1\<lparr>hy_Name := []\<rparr> = o1" using assms(1) by simp
  fix n assume n: "n \<noteq> [] \<and> ye_TagError env n = None"
  then show "NewHydra env (Some n) o1 w = NewHydra env None (o1\<lparr>hy_Name := n\<rparr>) w"
    using same by (simp add: NewHydra_rename hydra_context_def)
  fix m assume "ye_TagError env m = None"
  then show "NewHydra env (Some n) (o1\<lparr>hy_Name := m\<rparr>) w = NewHydra env (Some n) o1 w"
    using same by (simp add: NewHydra_rename hydra_context_def)
qed

theorem NewHydra_needs_name_witness:
  "\<not> is_Ok (snd (NewHydra example_hydra_env None (example_hydra_options []) 0)) \<and>
   is_Ok (snd (NewHydra example_hydra_env None (example_hydra_options ''h'') 0)) \<and>
   is_Ok (snd (NewHydra example_hydra_env (Some ''h'') (example_hydra_options []) 0))"
proof -
  have "hy_Name (example_hydra_options []) = []" "0 < hy_NHeads (example_hydra_options [])"
      "(example_hydra_options [])\<lparr>hy_Name := ''h''\<rparr> = example_hydra_options ''h''"
      "ye_TagError example_hydra_env ''h'' = None"
    by (simp_all add: example_hydra_options_def example_hydra_env_def)
  with NewHydra_needs_name [of "example_hydra_options []" example_hydra_env 0] example_hydra_ok
  show ?thesis by simp
qed

end
