(* ===== verification/Main_Config.thy ===== *)
theory Main_Config
  imports Hydra Go_Base64
begin

text \<open>
  \<^verbatim>\<open>src/main.go\<close>: how the settings of a hydra are found from command line flags and environment
  variables, the seed, the bootstrap peers, and the options given to \<open>NewHydra\<close>.

  The \<open>flag\<close> package is the record \<open>flags\<close> of parsed values (defaults included); \<open>getenv\<close> is
  \<open>os.Getenv\<close>, the empty string for an unset variable. \<open>log.Fatal\<close> is \<open>Error\<close>. Parsing a multiaddress
  is a parameter. The user interface, the servers and signal handling of \<open>main\<close> are not modelled.
\<close>

section \<open>Environment variables\<close>

type_synonym environment = "string \<Rightarrow> string"

definition invalid_env :: "string \<Rightarrow> go_error \<Rightarrow> go_error" where
  "invalid_env key err = Wrapf (''invalid '' @ key @ '' env value: '') err"

definition mustGetEnvInt :: "environment \<Rightarrow> string \<Rightarrow> int \<Rightarrow> int outcome" where
  "mustGetEnvInt getenv key dflt =
     (if getenv key = [] then Ok dflt
      else (case Atoi (getenv key) of
              Error e \<Rightarrow> Error (invalid_env key e) | r \<Rightarrow> r))"

definition mustGetEnvBool :: "environment \<Rightarrow> string \<Rightarrow> bool \<Rightarrow> bool outcome" where
  "mustGetEnvBool getenv key dflt =
     (if getenv key = [] then Ok dflt
      else (case ParseBool (getenv key) of
              Error e \<Rightarrow> Error (invalid_env key e) | r \<Rightarrow> r))"

fun convert_multiaddrs :: "(string \<Rightarrow> string outcome) \<Rightarrow> string list \<Rightarrow> string list outcome" where
  "convert_multiaddrs parse [] = Ok []"
| "convert_multiaddrs parse (addr # addrs) =
     (case parse addr of
        Error e \<Rightarrow> Error (Wrapf (''invalid multiaddr '' @ addr @ '': '') e)
      | Panic p \<Rightarrow> Panic p
      | Ok ma \<Rightarrow>
          (case convert_multiaddrs parse addrs of Ok mas \<Rightarrow> Ok (ma # mas) | r \<Rightarrow> r))"

definition mustConvertToMultiaddr :: "(string \<Rightarrow> string outcome) \<Rightarrow> string \<Rightarrow> string list outcome" where
  "mustConvertToMultiaddr parse csv =
     (if csv \<noteq> [] then convert_multiaddrs parse (Split CHR '','' csv) else Ok [])"

section \<open>Settings\<close>

record flags =
  fl_nheads :: int
  fl_randomSeed :: string
  fl_idOffset :: int
  fl_dbpath :: string
  fl_pstorePath :: string
  fl_providerStore :: string
  fl_delegateTimeout :: int
  fl_inmem :: bool
  fl_enableRelay :: bool
  fl_portBegin :: int
  fl_protocolPrefix :: string
  fl_bucketSize :: int
  fl_bootstrapConcurrency :: int
  fl_bootstrapPeers :: string
  fl_stagger :: int
  fl_name :: string
  fl_idgenAddr :: string
  fl_disableProvGC :: bool
  fl_disableProviders :: bool
  fl_disableValues :: bool
  fl_disablePrefetch :: bool
  fl_disableProvCounts :: bool
  fl_disableDBCreate :: bool
  fl_disableResourceManager :: bool
  fl_resourceManagerLimits :: string
  fl_connMgrHighWater :: int
  fl_connMgrLowWater :: int
  fl_connMgrGracePeriod :: string

text \<open>The values of the flags when none is given.\<close>

definition default_flags :: "string \<Rightarrow> flags" where
  "default_flags defaultPrefix =
     \<lparr>fl_nheads = -1, fl_randomSeed = [], fl_idOffset = -1, fl_dbpath = [], fl_pstorePath = [],
      fl_providerStore = [], fl_delegateTimeout = 0, fl_inmem = False, fl_enableRelay = False,
      fl_portBegin = -1, fl_protocolPrefix = defaultPrefix, fl_bucketSize = 20,
      fl_bootstrapConcurrency = 32, fl_bootstrapPeers = [], fl_stagger = 0, fl_name = [],
      fl_idgenAddr = [], fl_disableProvGC = False, fl_disableProviders = False,
      fl_disableValues = False, fl_disablePrefetch = False, fl_disableProvCounts = False,
      fl_disableDBCreate = False, fl_disableResourceManager = False, fl_resourceManagerLimits = [],
      fl_connMgrHighWater = 1800, fl_connMgrLowWater = 1200, fl_connMgrGracePeriod = ''60s''\<rparr>"

text \<open>Sequencing of settings; the first fatal error ends the program.\<close>

definition bind_outcome :: "'a outcome \<Rightarrow> ('a \<Rightarrow> 'b outcome) \<Rightarrow> 'b outcome" where
  "bind_outcome r f = (case r of Ok x \<Rightarrow> f x | Error e \<Rightarrow> Error e | Panic p \<Rightarrow> Panic p)"

definition int_setting :: "environment \<Rightarrow> int \<Rightarrow> int \<Rightarrow> string \<Rightarrow> int \<Rightarrow> int outcome" where
  "int_setting getenv unset v key dflt = (if v = unset then mustGetEnvInt getenv key dflt else Ok v)"

definition string_setting :: "environment \<Rightarrow> string \<Rightarrow> string \<Rightarrow> string" where
  "string_setting getenv v key = (if v = [] then getenv key else v)"

definition bool_setting :: "environment \<Rightarrow> bool \<Rightarrow> string \<Rightarrow> bool outcome" where
  "bool_setting getenv v key = (if \<not> v then mustGetEnvBool getenv key False else Ok v)"

definition db_setting :: "environment \<Rightarrow> flags \<Rightarrow> string" where
  "db_setting getenv fl =
     (if fl_inmem fl then []
      else if fl_dbpath fl = []
      then (if getenv ''HYDRA_DB'' = [] then ''hydra-belly'' else getenv ''HYDRA_DB'')
      else fl_dbpath fl)"

definition grace_setting :: "environment \<Rightarrow> flags \<Rightarrow> string" where
  "grace_setting getenv fl =
     (if fl_connMgrGracePeriod fl = ''60s'' \<and> getenv ''HYDRA_CONNMGR_GRACE_PERIOD'' \<noteq> []
      then getenv ''HYDRA_CONNMGR_GRACE_PERIOD'' else fl_connMgrGracePeriod fl)"

text \<open>The block of \<open>main\<close> after \<open>flag.Parse\<close>, in its order: the settled flags.\<close>

definition resolve_flags :: "environment \<Rightarrow> flags \<Rightarrow> flags outcome" where
  "resolve_flags getenv fl =
     bind_outcome (int_setting getenv (-1) (fl_nheads fl) ''HYDRA_NHEADS'' 1) (\<lambda>nheads.
     bind_outcome (int_setting getenv (-1) (fl_idOffset fl) ''HYDRA_ID_OFFSET'' 0) (\<lambda>idOffset.
     bind_outcome (int_setting getenv (-1) (fl_portBegin fl) ''HYDRA_PORT_BEGIN'' 0) (\<lambda>portBegin.
     bind_outcome (bool_setting getenv (fl_disableProvGC fl) ''HYDRA_DISABLE_PROV_GC'') (\<lambda>disableProvGC.
     bind_outcome (bool_setting getenv (fl_disablePrefetch fl) ''HYDRA_DISABLE_PREFETCH'') (\<lambda>disablePrefetch.
     bind_outcome (bool_setting getenv (fl_disableDBCreate fl) ''HYDRA_DISABLE_DBCREATE'') (\<lambda>disableDBCreate.
     bind_outcome (bool_setting getenv (fl_disableProvCounts fl) ''HYDRA_DISABLE_PROV_COUNTS'') (\<lambda>disableProvCounts.
     bind_outcome (int_setting getenv 0 (fl_delegateTimeout fl) ''HYDRA_DELEGATED_ROUTING_TIMEOUT'' 1000) (\<lambda>delegateTimeout.
     bind_outcome (bool_setting getenv (fl_disableResourceManager fl) ''DISABLE_RCMGR'') (\<lambda>disableRM.
     bind_outcome (int_setting getenv 1800 (fl_connMgrHighWater fl) ''HYDRA_CONNMGR_HIGH_WATER'' 1800) (\<lambda>high.
     bind_outcome (int_setting getenv 1200 (fl_connMgrLowWater fl) ''HYDRA_CONNMGR_LOW_WATER'' 1200) (\<lambda>low.
     Ok (fl\<lparr>fl_dbpath := db_setting getenv fl, fl_nheads := nheads,
           fl_randomSeed := string_setting getenv (fl_randomSeed fl) ''HYDRA_RANDOM_SEED'',
           fl_idOffset := idOffset, fl_portBegin := portBegin,
           fl_name := string_setting getenv (fl_name fl) ''HYDRA_NAME'',
           fl_idgenAddr := string_setting getenv (fl_idgenAddr fl) ''HYDRA_IDGEN_ADDR'',
           fl_disableProvGC := disableProvGC,
           fl_bootstrapPeers := string_setting getenv (fl_bootstrapPeers fl) ''HYDRA_BOOTSTRAP_PEERS'',
           fl_disablePrefetch := disablePrefetch, fl_disableDBCreate := disableDBCreate,
           fl_disableProvCounts := disableProvCounts,
           fl_pstorePath := string_setting getenv (fl_pstorePath fl) ''HYDRA_PSTORE'',
           fl_providerStore := string_setting getenv (fl_providerStore fl) ''HYDRA_PROVIDER_STORE'',
           fl_delegateTimeout := delegateTimeout, fl_disableResourceManager := disableRM,
           fl_resourceManagerLimits := string_setting getenv (fl_resourceManagerLimits fl) ''RCMGR_LIMITS'',
           fl_connMgrHighWater := high, fl_connMgrLowWater := low,
           fl_connMgrGracePeriod := grace_setting getenv fl\<rparr>))))))))))))"

text \<open>Which identity generator the heads use.\<close>

datatype id_source =
    Default_Generator
  | Seeded_Generator bytes int
  | Delegated_Generator string

definition id_source :: "flags \<Rightarrow> id_source outcome" where
  "id_source fl =
     (if fl_randomSeed fl \<noteq> [] \<and> fl_idgenAddr fl \<noteq> []
      then Error (Errorf ''error: Should not set both idgen-addr and random-seed'')
      else if fl_randomSeed fl \<noteq> []
      then (case DecodeString (fl_randomSeed fl) of
              Error e \<Rightarrow> Error (Errorf ''error: Could not base64 decode seed'')
            | Panic p \<Rightarrow> Panic p
            | Ok seed \<Rightarrow>
                if length seed \<noteq> 32 then Error (Errorf ''error: Seed should be 256bit in base64'')
                else Ok (Seeded_Generator seed (fl_idOffset fl)))
      else if fl_idgenAddr fl \<noteq> [] then Ok (Delegated_Generator (fl_idgenAddr fl))
      else Ok Default_Generator)"

text \<open>
  The port closure keeps its counter in the second component of the world; the options come with
  its initial value. \<open>generator\<close> gives the \<open>AddBalanced\<close> of the chosen generator (theories \<open>Id_Gen\<close> and
  \<open>Delegated_Id_Gen\<close>).
\<close>

definition next_port :: "'v \<times> 64 word \<Rightarrow> ('v \<times> 64 word) \<times> int" where
  "next_port w = (let (out, port) = PortSelector_next (snd w) in ((fst w, port), sint out))"

definition int64 :: "int \<Rightarrow> int" where
  "int64 i = sint (word_of_int i :: 64 word)"

definition grace_period :: "(nat \<Rightarrow> nat \<Rightarrow> nat \<Rightarrow> nat) \<Rightarrow> flags \<Rightarrow> int outcome" where
  "grace_period frac fl =
     (case ParseDuration frac (fl_connMgrGracePeriod fl) of
        Error e \<Rightarrow> Error (Wrapf ''parsing grace period duration: '' e) | r \<Rightarrow> r)"

definition main_options ::
    "(nat \<Rightarrow> nat \<Rightarrow> nat \<Rightarrow> nat) \<Rightarrow> (string \<Rightarrow> string outcome) \<Rightarrow>
     (id_source \<Rightarrow> ('v \<times> 64 word \<Rightarrow> ('v \<times> 64 word) \<times> 'h outcome) option) \<Rightarrow>
     environment \<Rightarrow> flags \<Rightarrow> (('v \<times> 64 word, 'h) hydra_options \<times> 64 word) outcome" where
  "main_options frac parseMultiaddr generator getenv fl0 =
     bind_outcome (resolve_flags getenv fl0) (\<lambda>fl.
     bind_outcome (grace_period frac fl) (\<lambda>grace.
     bind_outcome (id_source fl) (\<lambda>idGenerator.
     bind_outcome (mustConvertToMultiaddr parseMultiaddr (fl_bootstrapPeers fl)) (\<lambda>bootstrapPeers.
     Ok (\<lparr>hy_Name = fl_name fl, hy_DatastorePath = fl_dbpath fl, hy_PeerstorePath = fl_pstorePath fl,
         hy_ProviderStore = fl_providerStore fl,
         hy_DelegateTimeout = int64 (1000000 * fl_delegateTimeout fl), hy_GetPort = next_port,
         hy_NHeads = fl_nheads fl, hy_ProtocolPrefix = fl_protocolPrefix fl,
         hy_BucketSize = fl_bucketSize fl, hy_BsCon = fl_bootstrapConcurrency fl,
         hy_EnableRelay = fl_enableRelay fl, hy_Stagger = fl_stagger fl,
         hy_IDGenerator = generator idGenerator, hy_DisableProvGC = fl_disableProvGC fl,
         hy_DisableProviders = fl_disableProviders fl, hy_DisableValues = fl_disableValues fl,
         hy_BootstrapPeers = bootstrapPeers, hy_DisablePrefetch = fl_disablePrefetch fl,
         hy_DisableProvCounts = fl_disableProvCounts fl, hy_DisableDBCreate = fl_disableDBCreate fl,
         hy_DisableResourceManager = fl_disableResourceManager fl,
         hy_ResourceManagerLimitsFile = fl_resourceManagerLimits fl,
         hy_ConnMgrHighWater = fl_connMgrHighWater fl, hy_ConnMgrLowWater = fl_connMgrLowWater fl,
         hy_ConnMgrGracePeriod = grace\<rparr>,
       PortSelector (word_of_int (fl_portBegin fl)))))))"

section \<open>The settings and their environment variables\<close>

definition int_settings :: "((flags \<Rightarrow> int) \<times> int \<times> string \<times> int) list" where
  "int_settings =
     [(fl_nheads, -1, ''HYDRA_NHEADS'', 1), (fl_idOffset, -1, ''HYDRA_ID_OFFSET'', 0),
      (fl_portBegin, -1, ''HYDRA_PORT_BEGIN'', 0),
      (fl_delegateTimeout, 0, ''HYDRA_DELEGATED_ROUTING_TIMEOUT'', 1000),
      (fl_connMgrHighWater, 1800, ''HYDRA_CONNMGR_HIGH_WATER'', 1800),
      (fl_connMgrLowWater, 1200, ''HYDRA_CONNMGR_LOW_WATER'', 1200)]"

definition bool_settings :: "((flags \<Rightarrow> bool) \<times> string) list" where
  "bool_settings =
     [(fl_disableProvGC, ''HYDRA_DISABLE_PROV_GC''), (fl_disablePrefetch, ''HYDRA_DISABLE_PREFETCH''),
      (fl_disableDBCreate, ''HYDRA_DISABLE_DBCREATE''),
      (fl_disableProvCounts, ''HYDRA_DISABLE_PROV_COUNTS''), (fl_disableResourceManager, ''DISABLE_RCMGR'')]"

definition string_settings :: "((flags \<Rightarrow> string) \<times> string) list" where
  "string_settings =
     [(fl_randomSeed, ''HYDRA_RANDOM_SEED''), (fl_name, ''HYDRA_NAME''),
      (fl_idgenAddr, ''HYDRA_IDGEN_ADDR''), (fl_bootstrapPeers, ''HYDRA_BOOTSTRAP_PEERS''),
      (fl_pstorePath, ''HYDRA_PSTORE''), (fl_providerStore, ''HYDRA_PROVIDER_STORE''),
      (fl_resourceManagerLimits, ''RCMGR_LIMITS'')]"

text \<open>What the sources promise for one integer and one Boolean setting.\<close>

definition int_settled :: "environment \<Rightarrow> int \<Rightarrow> int \<Rightarrow> string \<Rightarrow> int \<Rightarrow> int \<Rightarrow> bool" where
  "int_settled getenv unset v key dflt v' \<longleftrightarrow>
     (if v \<noteq> unset then v' = v
      else if getenv key = [] then v' = dflt
      else Atoi (getenv key) = Ok v')"

definition bool_settled :: "environment \<Rightarrow> bool \<Rightarrow> string \<Rightarrow> bool \<Rightarrow> bool" where
  "bool_settled getenv v key v' \<longleftrightarrow>
     (if v then v' else if getenv key = [] then \<not> v' else ParseBool (getenv key) = Ok v')"

definition int_malformed :: "environment \<Rightarrow> string \<Rightarrow> bool" where
  "int_malformed getenv key \<longleftrightarrow> getenv key \<noteq> [] \<and> \<not> is_Ok (Atoi (getenv key))"

definition bool_malformed :: "environment \<Rightarrow> string \<Rightarrow> bool" where
  "bool_malformed getenv key \<longleftrightarrow> getenv key \<noteq> [] \<and> \<not> is_Ok (ParseBool (getenv key))"

section \<open>Facts\<close>

lemma bind_outcome_Ok: "bind_outcome r f = Ok y \<longleftrightarrow> (\<exists>x. r = Ok x \<and> f x = Ok y)"
  by (cases r) (auto simp: bind_outcome_def)

lemma bind_outcome_Error:
  "bind_outcome r f = Error e \<longleftrightarrow> r = Error e \<or> (\<exists>x. r = Ok x \<and> f x = Error e)"
  by (cases r) (auto simp: bind_outcome_def)

lemma bind_outcome_Panic:
  "bind_outcome r f = Panic p \<longleftrightarrow> r = Panic p \<or> (\<exists>x. r = Ok x \<and> f x = Panic p)"
  by (cases r) (auto simp: bind_outcome_def)

lemma bind_outcome_OkI [simp]: "bind_outcome (Ok x) f = f x"
  by (simp add: bind_outcome_def)

lemma ParseBool_no_panic: "ParseBool s \<noteq> Panic p"
  by (simp add: ParseBool_def)

lemma int_setting_settled:
  "int_setting getenv unset v key dflt = Ok v' \<longleftrightarrow> int_settled getenv unset v key dflt v'"
  by (auto simp: int_setting_def int_settled_def mustGetEnvInt_def split: outcome.splits)

lemma bool_setting_settled: "bool_setting getenv v key = Ok v' \<longleftrightarrow> bool_settled getenv v key v'"
  by (auto simp: bool_setting_def bool_settled_def mustGetEnvBool_def split: outcome.splits)

lemma int_setting_error:
  "int_setting getenv unset v key dflt = Error e \<Longrightarrow> v = unset \<and> int_malformed getenv key"
  by (auto simp: int_setting_def int_malformed_def is_Ok_iff mustGetEnvInt_def split: outcome.splits if_splits)

lemma bool_setting_error: "bool_setting getenv v key = Error e \<Longrightarrow> \<not> v \<and> bool_malformed getenv key"
  by (auto simp: bool_setting_def bool_malformed_def is_Ok_iff mustGetEnvBool_def split: outcome.splits if_splits)

lemma setting_no_panic:
  "int_setting getenv unset v key dflt \<noteq> Panic p" "bool_setting getenv b key \<noteq> Panic p"
  using ParseInt_no_panic [of 64 "getenv key" p] ParseBool_no_panic [of "getenv key" p]
  by (auto simp: int_setting_def bool_setting_def mustGetEnvInt_def mustGetEnvBool_def Atoi_def
      split: outcome.splits if_splits)

lemma string_setting_env: "string_setting getenv v key = (if v \<noteq> [] then v else getenv key)"
  by (simp add: string_setting_def)

lemma db_setting_env:
  "db_setting getenv fl =
    (if fl_inmem fl then [] else if fl_dbpath fl \<noteq> [] then fl_dbpath fl
     else if getenv ''HYDRA_DB'' \<noteq> [] then getenv ''HYDRA_DB'' else ''hydra-belly'')"
  by (simp add: db_setting_def)

lemma grace_setting_env:
  "grace_setting getenv fl =
    (if fl_connMgrGracePeriod fl \<noteq> ''60s'' then fl_connMgrGracePeriod fl
     else if getenv ''HYDRA_CONNMGR_GRACE_PERIOD'' \<noteq> [] then getenv ''HYDRA_CONNMGR_GRACE_PERIOD''
     else ''60s'')"
  by (auto simp: grace_setting_def)

lemma resolve_flags_Error:
  assumes "resolve_flags getenv fl = Error e"
  shows "(\<exists>(get, unset, key, dflt) \<in> set int_settings. get fl = unset \<and> int_malformed getenv key) \<or>
    (\<exists>(get, key) \<in> set bool_settings. \<not> get fl \<and> bool_malformed getenv key)"
  using assms
  unfolding resolve_flags_def bind_outcome_Error int_settings_def bool_settings_def
  by (elim disjE exE conjE) ((drule int_setting_error bool_setting_error; simp) | simp)+

lemma resolve_flags_no_panic: "resolve_flags getenv fl \<noteq> Panic p"
  by (simp add: resolve_flags_def bind_outcome_Panic setting_no_panic)

lemma int_setting_env:
  assumes "getenv key = Itoa v'" "- (2 ^ 63) \<le> v'" "v' < 2 ^ 63"
  shows "int_setting getenv unset unset key dflt = Ok v'"
proof -
  have "Atoi (Itoa v') = Ok v'"
    using assms(2,3) ParseInt_FormatInt [of 64 v'] by (simp add: Atoi_def Itoa_def)
  then show ?thesis
    using assms(1) by (auto simp: int_setting_def mustGetEnvInt_def Atoi_def)
qed

lemma bool_setting_env:
  assumes "getenv key = FormatBool v'"
  shows "bool_setting getenv False key = Ok v'"
  using assms ParseBool_FormatBool [of v'] by (auto simp: bool_setting_def mustGetEnvBool_def FormatBool_def)

text \<open>The environment that carries a given configuration.\<close>

definition env_of :: "flags \<Rightarrow> environment" where
  "env_of fl key =
     (case map_of
        [(''HYDRA_DB'', fl_dbpath fl), (''HYDRA_NHEADS'', Itoa (fl_nheads fl)),
         (''HYDRA_RANDOM_SEED'', fl_randomSeed fl), (''HYDRA_ID_OFFSET'', Itoa (fl_idOffset fl)),
         (''HYDRA_PORT_BEGIN'', Itoa (fl_portBegin fl)), (''HYDRA_NAME'', fl_name fl),
         (''HYDRA_IDGEN_ADDR'', fl_idgenAddr fl),
         (''HYDRA_DISABLE_PROV_GC'', FormatBool (fl_disableProvGC fl)),
         (''HYDRA_BOOTSTRAP_PEERS'', fl_bootstrapPeers fl),
         (''HYDRA_DISABLE_PREFETCH'', FormatBool (fl_disablePrefetch fl)),
         (''HYDRA_DISABLE_DBCREATE'', FormatBool (fl_disableDBCreate fl)),
         (''HYDRA_DISABLE_PROV_COUNTS'', FormatBool (fl_disableProvCounts fl)),
         (''HYDRA_PSTORE'', fl_pstorePath fl), (''HYDRA_PROVIDER_STORE'', fl_providerStore fl),
         (''HYDRA_DELEGATED_ROUTING_TIMEOUT'', Itoa (fl_delegateTimeout fl)),
         (''DISABLE_RCMGR'', FormatBool (fl_disableResourceManager fl)),
         (''RCMGR_LIMITS'', fl_resourceManagerLimits fl),
         (''HYDRA_CONNMGR_HIGH_WATER'', Itoa (fl_connMgrHighWater fl)),
         (''HYDRA_CONNMGR_LOW_WATER'', Itoa (fl_connMgrLowWater fl)),
         (''HYDRA_CONNMGR_GRACE_PERIOD'', fl_connMgrGracePeriod fl)] key
      of None \<Rightarrow> [] | Some v \<Rightarrow> v)"

text \<open>The configurations the environment can carry.\<close>

definition env_configurable :: "string \<Rightarrow> flags \<Rightarrow> bool" where
  "env_configurable pfx fl \<longleftrightarrow>
     \<not> fl_inmem fl \<and> fl_dbpath fl \<noteq> [] \<and> fl_connMgrGracePeriod fl \<noteq> [] \<and>
     (\<forall>(get, unset, key, dflt) \<in> set int_settings. - (2 ^ 63) \<le> get fl \<and> get fl < 2 ^ 63) \<and>
     \<not> fl_enableRelay fl \<and> fl_protocolPrefix fl = pfx \<and> fl_bucketSize fl = 20 \<and>
     fl_bootstrapConcurrency fl = 32 \<and> fl_stagger fl = 0 \<and> \<not> fl_disableProviders fl \<and>
     \<not> fl_disableValues fl"

lemma env_of_values:
  "env_of fl ''HYDRA_DB'' = fl_dbpath fl" "env_of fl ''HYDRA_NHEADS'' = Itoa (fl_nheads fl)"
  "env_of fl ''HYDRA_RANDOM_SEED'' = fl_randomSeed fl"
  "env_of fl ''HYDRA_ID_OFFSET'' = Itoa (fl_idOffset fl)"
  "env_of fl ''HYDRA_PORT_BEGIN'' = Itoa (fl_portBegin fl)" "env_of fl ''HYDRA_NAME'' = fl_name fl"
  "env_of fl ''HYDRA_IDGEN_ADDR'' = fl_idgenAddr fl"
  "env_of fl ''HYDRA_DISABLE_PROV_GC'' = FormatBool (fl_disableProvGC fl)"
  "env_of fl ''HYDRA_BOOTSTRAP_PEERS'' = fl_bootstrapPeers fl"
  "env_of fl ''HYDRA_DISABLE_PREFETCH'' = FormatBool (fl_disablePrefetch fl)"
  "env_of fl ''HYDRA_DISABLE_DBCREATE'' = FormatBool (fl_disableDBCreate fl)"
  "env_of fl ''HYDRA_DISABLE_PROV_COUNTS'' = FormatBool (fl_disableProvCounts fl)"
  "env_of fl ''HYDRA_PSTORE'' = fl_pstorePath fl"
  "env_of fl ''HYDRA_PROVIDER_STORE'' = fl_providerStore fl"
  "env_of fl ''HYDRA_DELEGATED_ROUTING_TIMEOUT'' = Itoa (fl_delegateTimeout fl)"
  "env_of fl ''DISABLE_RCMGR'' = FormatBool (fl_disableResourceManager fl)"
  "env_of fl ''RCMGR_LIMITS'' = fl_resourceManagerLimits fl"
  "env_of fl ''HYDRA_CONNMGR_HIGH_WATER'' = Itoa (fl_connMgrHighWater fl)"
  "env_of fl ''HYDRA_CONNMGR_LOW_WATER'' = Itoa (fl_connMgrLowWater fl)"
  "env_of fl ''HYDRA_CONNMGR_GRACE_PERIOD'' = fl_connMgrGracePeriod fl"
  by (simp_all add: env_of_def)

section \<open>Properties\<close>

text \<open>
  \<^bold>\<open>C30: precedence of flags and environment.\<close> If the settings can be settled, every setting has the
  value of its flag when the flag differs from its unset value, otherwise the parsed environment
  variable when that is set, otherwise the default. So the datastore is in memory under \<^verbatim>\<open>-mem\<close>
  whatever else is given, else the flag, else \<^verbatim>\<open>HYDRA_DB\<close>, else the directory hydra-belly; the grace
  period is the flag unless it is 60s, else the text of its variable, else 60s; and the flags without
  a variable are kept. The program dies exactly when
  the variable of a setting that consults it cannot be parsed, and it never panics. A flag given
  explicitly with its unset value, such as \<^verbatim>\<open>-connmgr-high-water=1800\<close>, is overridden by its variable.
\<close>

theorem resolve_flags_precedence:
  "(case resolve_flags getenv fl of
      Ok fl' \<Rightarrow>
        (\<forall>(get, unset, key, dflt) \<in> set int_settings. int_settled getenv unset (get fl) key dflt (get fl')) \<and>
        (\<forall>(get, key) \<in> set bool_settings. bool_settled getenv (get fl) key (get fl')) \<and>
        (\<forall>(get, key) \<in> set string_settings.
           get fl' = (if get fl \<noteq> [] then get fl else getenv key)) \<and>
        fl_dbpath fl' =
          (if fl_inmem fl then [] else if fl_dbpath fl \<noteq> [] then fl_dbpath fl
           else if getenv ''HYDRA_DB'' \<noteq> [] then getenv ''HYDRA_DB'' else ''hydra-belly'') \<and>
        fl_connMgrGracePeriod fl' =
          (if fl_connMgrGracePeriod fl \<noteq> ''60s'' then fl_connMgrGracePeriod fl
           else if getenv ''HYDRA_CONNMGR_GRACE_PERIOD'' \<noteq> [] then getenv ''HYDRA_CONNMGR_GRACE_PERIOD''
           else ''60s'') \<and>
        fl_inmem fl' = fl_inmem fl \<and> fl_enableRelay fl' = fl_enableRelay fl \<and> fl_protocolPrefix fl' = fl_protocolPrefix fl \<and>
        fl_bucketSize fl' = fl_bucketSize fl \<and> fl_stagger fl' = fl_stagger fl \<and>
        fl_bootstrapConcurrency fl' = fl_bootstrapConcurrency fl \<and>
        fl_disableProviders fl' = fl_disableProviders fl \<and> fl_disableValues fl' = fl_disableValues fl
    | Error e \<Rightarrow>
        (\<exists>(get, unset, key, dflt) \<in> set int_settings. get fl = unset \<and> int_malformed getenv key) \<or>
        (\<exists>(get, key) \<in> set bool_settings. \<not> get fl \<and> bool_malformed getenv key)
    | Panic p \<Rightarrow> False)"
proof (cases "resolve_flags getenv fl")
  case (Ok fl')
  show ?thesis
    unfolding Ok outcome.case
    using Ok [unfolded resolve_flags_def bind_outcome_Ok int_setting_settled bool_setting_settled]
    by (elim exE conjE, simp only: outcome.inject, hypsubst)
      (simp add: int_settings_def bool_settings_def string_settings_def string_setting_env [symmetric]
        db_setting_env grace_setting_env del: if_split)
next
  case (Error e)
  with resolve_flags_Error show ?thesis by simp
next
  case (Panic p)
  with resolve_flags_no_panic show ?thesis by blast
qed

theorem resolve_flags_precedence_witness:
  "case resolve_flags
      (\<lambda>key. if key = ''HYDRA_NHEADS'' then ''7'' else if key = ''HYDRA_PORT_BEGIN'' then ''1''
             else if key = ''HYDRA_CONNMGR_LOW_WATER'' then ''5''
             else if key = ''HYDRA_DB'' then ''leveldb''
             else if key = ''HYDRA_CONNMGR_GRACE_PERIOD'' then ''2m'' else [])
      (default_flags ''/ipfs''\<lparr>fl_portBegin := 3000, fl_connMgrLowWater := 1200\<rparr>) of
     Ok fl \<Rightarrow> fl_nheads fl = 7 \<and> fl_portBegin fl = 3000 \<and> fl_connMgrLowWater fl = 5 \<and> fl_idOffset fl = 0 \<and>
       fl_dbpath fl = ''leveldb'' \<and> fl_connMgrGracePeriod fl = ''2m''
   | _ \<Rightarrow> False"
    (is "case resolve_flags ?env ?fl of Ok fl \<Rightarrow> _ fl | _ \<Rightarrow> False")
proof -
  have atoi: "Atoi ''7'' = Ok 7" "Atoi ''5'' = Ok 5"
    by (simp_all add: Atoi_def ParseInt_def parse_nat_def char_digit_def)
  show ?thesis
  proof (cases "resolve_flags ?env ?fl")
    case (Ok fl')
    from resolve_flags_precedence [of ?env ?fl] atoi show ?thesis
      unfolding Ok by (simp add: int_settings_def int_settled_def default_flags_def)
  next
    case (Error e)
    from resolve_flags_precedence [of ?env ?fl] atoi show ?thesis
      unfolding Error by (auto simp: int_settings_def bool_settings_def int_malformed_def
          bool_malformed_def default_flags_def)
  next
    case (Panic p)
    from resolve_flags_precedence [of ?env ?fl] show ?thesis unfolding Panic by simp
  qed
qed

text \<open>
  \<^bold>\<open>C31: a configuration survives its journey through the environment.\<close> Every configuration that the
  environment can carry (a datastore path and a grace period are given, the integers fit 64 bits, the
  flags without a variable are at their defaults) is found again by a hydra started without flags in
  the environment that spells it out, whatever the values are.
\<close>

theorem resolve_flags_env_roundtrip:
  assumes "env_configurable pfx fl"
  shows "resolve_flags (env_of fl) (default_flags pfx) = Ok fl"
proof -
  note cfg = assms [unfolded env_configurable_def int_settings_def]
  have ints: "int_setting (env_of fl) (-1) (-1) ''HYDRA_NHEADS'' 1 = Ok (fl_nheads fl)"
    "int_setting (env_of fl) (-1) (-1) ''HYDRA_ID_OFFSET'' 0 = Ok (fl_idOffset fl)"
    "int_setting (env_of fl) (-1) (-1) ''HYDRA_PORT_BEGIN'' 0 = Ok (fl_portBegin fl)"
    "int_setting (env_of fl) 0 0 ''HYDRA_DELEGATED_ROUTING_TIMEOUT'' 1000 = Ok (fl_delegateTimeout fl)"
    "int_setting (env_of fl) 1800 1800 ''HYDRA_CONNMGR_HIGH_WATER'' 1800 = Ok (fl_connMgrHighWater fl)"
    "int_setting (env_of fl) 1200 1200 ''HYDRA_CONNMGR_LOW_WATER'' 1200 = Ok (fl_connMgrLowWater fl)"
    using cfg by (simp_all add: int_setting_env env_of_values)
  show ?thesis
    using cfg
    by (simp add: resolve_flags_def default_flags_def ints bool_setting_env env_of_values
        string_setting_def db_setting_def grace_setting_def)
qed

theorem resolve_flags_env_roundtrip_witness:
  "resolve_flags (env_of (default_flags ''/ipfs''\<lparr>fl_dbpath := ''db'', fl_nheads := 5, fl_disableProvGC := True,
       fl_name := ''h'', fl_connMgrGracePeriod := ''2m''\<rparr>)) (default_flags ''/ipfs'') =
   Ok (default_flags ''/ipfs''\<lparr>fl_dbpath := ''db'', fl_nheads := 5, fl_disableProvGC := True,
       fl_name := ''h'', fl_connMgrGracePeriod := ''2m''\<rparr>)"
  by (rule resolve_flags_env_roundtrip)
    (simp add: env_configurable_def int_settings_def default_flags_def)

text \<open>
  \<^bold>\<open>the seed of the identity generator.\<close> A seed given in base64 starts the seeded generator with
  exactly those 32 bytes and the settled offset; a seed of another length, and a seed together with a
  remote generator, are fatal before any option is made.
\<close>

theorem id_source_seed:
  assumes "fl_randomSeed fl = EncodeToString seed" "seed \<noteq> []"
  shows "id_source fl =
    (if fl_idgenAddr fl \<noteq> [] then Error (Errorf ''error: Should not set both idgen-addr and random-seed'')
     else if length seed = 32 then Ok (Seeded_Generator seed (fl_idOffset fl))
     else Error (Errorf ''error: Seed should be 256bit in base64''))"
proof -
  have "EncodeToString seed \<noteq> []" using assms(2) by (cases seed rule: EncodeToString.cases) auto
  then show ?thesis by (simp add: id_source_def assms(1) DecodeString_EncodeToString)
qed

theorem id_source_seed_witness:
  "id_source (default_flags ''/ipfs''\<lparr>fl_randomSeed := EncodeToString (replicate 32 7), fl_idOffset := 3\<rparr>) =
     Ok (Seeded_Generator (replicate 32 7) 3) \<and>
   id_source (default_flags ''/ipfs''\<lparr>fl_randomSeed := EncodeToString (replicate 31 7)\<rparr>) =
     Error (Errorf ''error: Seed should be 256bit in base64'')"
  using id_source_seed [of "default_flags ''/ipfs''\<lparr>fl_randomSeed := EncodeToString (replicate 32 7), fl_idOffset := 3\<rparr>" "replicate 32 7"]
    id_source_seed [of "default_flags ''/ipfs''\<lparr>fl_randomSeed := EncodeToString (replicate 31 7)\<rparr>" "replicate 31 7"]
  by (simp add: default_flags_def)

end
