(* ===== verification/Ui_Gooey.thy ===== *)
theory Ui_Gooey
  imports Go_Strings
begin

text \<open>
  \<^verbatim>\<open>src/ui/gooey.go\<close>: the terminal widgets of the user interface. A writer is the text written to it.
  Data lines are shared pointers in Go; here they are the elements of the list \<open>DataFields\<close> of the
  application, and \<open>SetVal\<close> names its line by its index. The log is a ring buffer.

  A label longer than the column width makes \<^verbatim>\<open>strings.Repeat\<close> panic, and an empty ring makes the
  remainder panic: both are outcomes. The operands of the remainders of the code are not negative,
  where Go's remainder is \<open>mod\<close>. The connection notifier \<open>LogNotifee\<close> is the text of its messages.
\<close>

section \<open>Printing\<close>

definition ESC :: string where "ESC = [CHR 0x1B]"
definition NL :: string where "NL = [CHR 0x0A]"
definition QClrLine :: string where "QClrLine = ESC @ ''[K''"
definition QReset :: string where "QReset = ESC @ ''[2J''"

definition width :: int where "width = 25"

definition putMessage :: "int \<Rightarrow> string \<Rightarrow> string \<Rightarrow> string" where
  "putMessage line mes out = out @ ESC @ ''['' @ Itoa line @ '';0H'' @ QClrLine @ mes"

definition Repeat :: "string \<Rightarrow> int \<Rightarrow> string outcome" where
  "Repeat s n = (if n < 0 then Panic NegativeRepeat else Ok (concat (replicate (nat n) s)))"

definition padPrint :: "int \<Rightarrow> string \<Rightarrow> string \<Rightarrow> string \<Rightarrow> string outcome" where
  "padPrint line label val out =
     (case Repeat '' '' (width - int (length label)) of
        Ok pad \<Rightarrow> Ok (putMessage line (label @ pad @ val) out)
      | Error e \<Rightarrow> Error e
      | Panic p \<Rightarrow> Panic p)"

section \<open>Data lines\<close>

record data_line =
  dl_Label :: string
  dl_Line :: int
  dl_Default :: string
  dl_LastVal :: string

definition DataLine_Print :: "data_line \<Rightarrow> string \<Rightarrow> string outcome" where
  "DataLine_Print dl out =
     (let s = (if dl_LastVal dl \<noteq> [] then dl_LastVal dl else dl_Default dl)
      in padPrint (dl_Line dl) (dl_Label dl) s out)"

definition SetVal :: "string \<Rightarrow> data_line \<Rightarrow> string \<Rightarrow> data_line \<times> string outcome" where
  "SetVal s dl out = (let dl1 = dl\<lparr>dl_LastVal := s\<rparr> in (dl1, DataLine_Print dl1 out))"

section \<open>The log\<close>

record log =
  lg_Size :: int
  lg_StartLine :: int
  lg_Messages :: "string list"
  lg_beg :: int
  lg_end :: int

definition NewLog :: "int \<Rightarrow> int \<Rightarrow> log outcome" where
  "NewLog line sz =
     (if sz < 0 then Panic MakeChanSize
      else Ok \<lparr>lg_Size = sz, lg_StartLine = line, lg_Messages = replicate (nat sz) [],
               lg_beg = 0, lg_end = -1\<rparr>)"

definition Log_Add :: "string \<Rightarrow> log \<Rightarrow> log outcome" where
  "Log_Add m l =
     (if lg_Size l = 0 then Panic DivideByZero
      else
        let e = (lg_end l + 1) mod lg_Size l in
        if e < 0 \<or> int (length (lg_Messages l)) \<le> e then Panic IndexOutOfRange
        else Ok (l\<lparr>lg_end := e,
                   lg_beg := (if lg_Messages l ! nat e \<noteq> [] then lg_beg l + 1 else lg_beg l),
                   lg_Messages := (lg_Messages l)[nat e := m]\<rparr>))"

fun log_rows :: "log \<Rightarrow> nat \<Rightarrow> nat \<Rightarrow> string \<Rightarrow> string outcome" where
  "log_rows l i 0 out = Ok out"
| "log_rows l i (Suc n) out =
     (let j = (lg_beg l + int i) mod lg_Size l in
      if j < 0 \<or> int (length (lg_Messages l)) \<le> j then Panic IndexOutOfRange
      else log_rows l (Suc i) n (putMessage (lg_StartLine l + int i) (lg_Messages l ! nat j) out))"

definition Log_Print :: "log \<Rightarrow> string \<Rightarrow> string outcome" where
  "Log_Print l out = log_rows l 0 (nat (lg_Size l)) out"

section \<open>The application\<close>

record gooey_app =
  ga_Title :: string
  ga_DataFields :: "data_line list"
  ga_Log :: log

definition NewDataLine :: "int \<Rightarrow> string \<Rightarrow> string \<Rightarrow> gooey_app \<Rightarrow> gooey_app \<times> nat" where
  "NewDataLine line label defval a =
     (a\<lparr>ga_DataFields := ga_DataFields a @
         [\<lparr>dl_Label = label, dl_Line = line, dl_Default = defval, dl_LastVal = []\<rparr>]\<rparr>,
      length (ga_DataFields a))"

fun print_lines :: "data_line list \<Rightarrow> string \<Rightarrow> string outcome" where
  "print_lines [] out = Ok out"
| "print_lines (dl # dls) out =
     (case DataLine_Print dl out of Ok out1 \<Rightarrow> print_lines dls out1 | r \<Rightarrow> r)"

definition GooeyApp_Print :: "gooey_app \<Rightarrow> string \<Rightarrow> string outcome" where
  "GooeyApp_Print a out =
     (case print_lines (ga_DataFields a) (putMessage 1 (ga_Title a) (out @ QReset @ NL)) of
        Ok out1 \<Rightarrow> Log_Print (ga_Log a) out1
      | r \<Rightarrow> r)"

text \<open>\<open>dl.SetVal\<close> on a line of the application.\<close>

definition set_line :: "nat \<Rightarrow> string \<Rightarrow> gooey_app \<times> string \<Rightarrow> (gooey_app \<times> string) outcome" where
  "set_line i s st =
     (case st of (a, out) \<Rightarrow>
        (case SetVal s (ga_DataFields a ! i) out of
           (dl, Ok out1) \<Rightarrow> Ok (a\<lparr>ga_DataFields := (ga_DataFields a)[i := dl]\<rparr>, out1)
         | (_, Error e) \<Rightarrow> Error e
         | (_, Panic p) \<Rightarrow> Panic p))"

text \<open>What the notifier sends to the log.\<close>

definition Connected :: "string \<Rightarrow> string" where
  "Connected remote = ''New connection from '' @ remote"

definition Disconnected :: "string \<Rightarrow> string" where
  "Disconnected remote = ''Lost connection to '' @ remote"

section \<open>The log shows the latest messages\<close>

fun add_all :: "string list \<Rightarrow> log \<Rightarrow> log outcome" where
  "add_all [] l = Ok l"
| "add_all (m # ms) l = (case Log_Add m l of Ok l1 \<Rightarrow> add_all ms l1 | r \<Rightarrow> r)"

text \<open>The abstract log: all messages so far, of which the last \<open>S\<close> are shown.\<close>

definition log_window :: "nat \<Rightarrow> string list \<Rightarrow> string list" where
  "log_window S ms = drop (length ms - S) ms @ replicate (S - length ms) []"

text \<open>The ring buffer represents the messages.\<close>

definition log_repr :: "nat \<Rightarrow> log \<Rightarrow> string list \<Rightarrow> bool" where
  "log_repr S l ms \<longleftrightarrow>
     0 < S \<and> lg_Size l = int S \<and> length (lg_Messages l) = S \<and> [] \<notin> set ms \<and>
     (lg_end l + 1) mod int S = int (length ms mod S) \<and> lg_beg l = int (length ms - S) \<and>
     (\<forall>k < length ms. length ms \<le> k + S \<longrightarrow> lg_Messages l ! (k mod S) = ms ! k) \<and>
     (\<forall>k < S. length ms \<le> k \<longrightarrow> lg_Messages l ! k = [])"

lemma length_log_window [simp]: "length (log_window S ms) = S"
  by (simp add: log_window_def)

lemma log_window_nth:
  "i < S \<Longrightarrow> log_window S ms ! i =
     (if length ms - S + i < length ms then ms ! (length ms - S + i) else [])"
  by (cases "S \<le> length ms") (auto simp: log_window_def nth_append)

lemma NewLog_repr:
  "0 < S \<Longrightarrow> NewLog line (int S) = Ok l \<Longrightarrow> log_repr S l []"
  by (auto simp: NewLog_def log_repr_def)

lemma mod_eq_close:
  fixes k n S :: nat
  assumes "k mod S = n mod S" "k \<le> n" "n < k + S"
  shows "k = n"
proof -
  have "S dvd n - k" using assms(1) [symmetric] assms(2) by (simp add: mod_eq_dvd_iff_nat)
  moreover have "n - k < S" using assms(2,3) by linarith
  ultimately show ?thesis using assms(2) by (metis diff_is_0_eq dvd_imp_le le_antisym not_gr_zero not_less)
qed

lemma Log_Add_repr:
  assumes "log_repr S l ms" "m \<noteq> []"
  obtains l1 where "Log_Add m l = Ok l1" "log_repr S l1 (ms @ [m])" "lg_StartLine l1 = lg_StartLine l"
proof -
  let ?n = "length ms" and ?M = "lg_Messages l"
  note r = assms(1) [unfolded log_repr_def]
  have S: "0 < S" "length ?M = S" using r by simp_all
  have lt: "?n mod S < S" using S by simp
  have full: "?M ! (?n mod S) \<noteq> [] \<longleftrightarrow> S \<le> ?n"
  proof (cases "S \<le> ?n")
    case True
    then have "?M ! ((?n - S) mod S) = ms ! (?n - S)" using r S by simp
    moreover have "(?n - S) mod S = ?n mod S" using True by (simp add: le_mod_geq)
    moreover have "ms ! (?n - S) \<in> set ms" using True S by (intro nth_mem) simp
    ultimately show ?thesis using r True by force
  next
    case False
    then show ?thesis using r by simp
  qed
  let ?l1 = "l\<lparr>lg_end := int (?n mod S), lg_beg := int (Suc ?n - S), lg_Messages := ?M[?n mod S := m]\<rparr>"
  have beg: "(if ?M ! (?n mod S) \<noteq> [] then lg_beg l + 1 else lg_beg l) = int (Suc ?n - S)"
    unfolding full using r S by auto
  have "Log_Add m l = Ok ?l1"
    using r lt beg by (simp add: Log_Add_def Let_def)
  moreover have "log_repr S ?l1 (ms @ [m])"
  proof -
    have old: "?M[?n mod S := m] ! (k mod S) = (ms @ [m]) ! k"
      if "k < Suc ?n" "Suc ?n \<le> k + S" for k
    proof (cases "k = ?n")
      case True
      then show ?thesis using lt S by simp
    next
      case False
      with that have "k mod S \<noteq> ?n mod S" using mod_eq_close [of k S ?n] by auto
      with False that r show ?thesis by (simp add: nth_append)
    qed
    have new: "?M[?n mod S := m] ! k = []" if "k < S" "Suc ?n \<le> k" for k
      using that r by simp
    have "(int (?n mod S) + 1) mod int S = int (Suc ?n mod S)"
      by (simp add: zmod_int mod_simps add.commute)
    with old new r assms(2) show ?thesis by (auto simp: log_repr_def)
  qed
  ultimately show ?thesis using that by simp
qed

lemma add_all_repr:
  assumes "log_repr S l ms" "[] \<notin> set new"
  obtains l1 where "add_all new l = Ok l1" "log_repr S l1 (ms @ new)" "lg_StartLine l1 = lg_StartLine l"
  using assms
proof (induction new arbitrary: l ms thesis)
  case (Cons m new)
  obtain l1 where l1: "Log_Add m l = Ok l1" "log_repr S l1 (ms @ [m])" "lg_StartLine l1 = lg_StartLine l"
    using Log_Add_repr [OF Cons.prems(2), of m] Cons.prems(3) by auto
  obtain l2 where "add_all new l1 = Ok l2" "log_repr S l2 ((ms @ [m]) @ new)" "lg_StartLine l2 = lg_StartLine l1"
    using Cons.IH [OF _ l1(2)] Cons.prems(3) by auto
  with l1 Cons.prems(1) show ?case by simp
qed simp

lemma log_repr_row:
  assumes "log_repr S l ms" "i < S"
  shows "lg_Messages l ! nat ((lg_beg l + int i) mod lg_Size l) = log_window S ms ! i"
    "0 \<le> (lg_beg l + int i) mod lg_Size l" "(lg_beg l + int i) mod lg_Size l < int S"
proof -
  note r = assms(1) [unfolded log_repr_def]
  let ?k = "length ms - S + i"
  have "(lg_beg l + int i) mod lg_Size l = int (?k mod S)"
    using r by (simp add: zmod_int)
  moreover have "?k mod S < S" using r by simp
  moreover have "lg_Messages l ! (?k mod S) = log_window S ms ! i"
    using r assms(2) by (cases "?k < length ms") (auto simp: log_window_nth)
  ultimately show "lg_Messages l ! nat ((lg_beg l + int i) mod lg_Size l) = log_window S ms ! i"
    "0 \<le> (lg_beg l + int i) mod lg_Size l" "(lg_beg l + int i) mod lg_Size l < int S" by simp_all
qed

text \<open>What is on the screen when the rows \<open>rows\<close> are printed from line \<open>line\<close> on.\<close>

fun put_rows :: "int \<Rightarrow> string list \<Rightarrow> string \<Rightarrow> string" where
  "put_rows line [] out = out"
| "put_rows line (row # rows) out = put_rows (line + 1) rows (putMessage line row out)"

lemma log_rows_repr:
  assumes "log_repr S l ms" "i + n = S"
  shows "log_rows l i n out = Ok (put_rows (lg_StartLine l + int i) (drop i (log_window S ms)) out)"
  using assms(2)
proof (induction n arbitrary: i out)
  case (Suc n)
  then have i: "i < S" by simp
  have "drop i (log_window S ms) = log_window S ms ! i # drop (Suc i) (log_window S ms)"
    using i by (simp add: Cons_nth_drop_Suc)
  moreover have "length (lg_Messages l) = S" using assms(1) by (simp add: log_repr_def)
  ultimately show ?case
    using Suc.IH [of "Suc i"] Suc.prems log_repr_row [OF assms(1) i] by (simp add: Let_def ac_simps)
qed simp

section \<open>Properties\<close>

text \<open>
  C35: the ring buffer refines an unbounded log. After any sequence of messages that are not empty,
  printing a new log of size \<open>S > 0\<close> writes the last \<open>S\<close> messages in the order in which they were
  added, one per line from the start line on, and empty rows after them while there are fewer; no
  message panics. An empty message breaks this: \<open>Add\<close> takes the slot it leaves for a free one.
\<close>

theorem gooey_log_refines:
  assumes "0 < S" "[] \<notin> set ms" "NewLog line (int S) = Ok l"
  shows "\<exists>l1. add_all ms l = Ok l1 \<and>
    Log_Print l1 out = Ok (put_rows line (drop (length ms - S) ms @ replicate (S - length ms) []) out)"
proof -
  obtain l1 where "add_all ms l = Ok l1" "log_repr S l1 ([] @ ms)" "lg_StartLine l1 = lg_StartLine l"
    using add_all_repr [OF NewLog_repr [OF assms(1,3)] assms(2)] .
  moreover have "lg_StartLine l = line" using assms(3) by (auto simp: NewLog_def split: if_splits)
  moreover have "lg_Size l1 = int S" using calculation by (simp add: log_repr_def)
  ultimately show ?thesis
    using log_rows_repr [of S l1 ms 0 S out] by (simp add: Log_Print_def log_window_def)
qed

theorem gooey_log_refines_witness:
  "\<exists>l l1. NewLog 15 2 = Ok l \<and> add_all [''a'', ''b'', ''c''] l = Ok l1 \<and>
     Log_Print l1 [] = Ok (putMessage 16 ''c'' (putMessage 15 ''b'' []))"
proof -
  obtain l where "NewLog 15 (int 2) = Ok l" by (simp add: NewLog_def)
  moreover from gooey_log_refines [OF _ _ this, of "[''a'', ''b'', ''c'']" "[]"]
  obtain l1 where "add_all [''a'', ''b'', ''c''] l = Ok l1"
    "Log_Print l1 [] = Ok (putMessage 16 ''c'' (putMessage 15 ''b'' []))" by auto
  ultimately show ?thesis by auto
qed

text \<open>With an empty message the order is lost: of \<open>a\<close>, an empty message, \<open>c\<close> and \<open>d\<close>, a log of two rows
  shows \<open>d\<close> before \<open>c\<close>.\<close>

lemma empty_message_breaks_order:
  "\<exists>l l1. NewLog 15 2 = Ok l \<and> add_all [''a'', [], ''c'', ''d''] l = Ok l1 \<and>
     Log_Print l1 [] = Ok (putMessage 16 ''c'' (putMessage 15 ''d'' []))"
  by (simp add: NewLog_def Log_Add_def Log_Print_def numeral_2_eq_2)

text \<open>A log of size 0 panics at its first message, and a label longer than the column cannot be
  printed.\<close>

lemma empty_log_panics: "NewLog line 0 = Ok l \<Longrightarrow> Log_Add m l = Panic DivideByZero"
  by (auto simp: NewLog_def Log_Add_def)

lemma long_label_panics: "25 < length label \<Longrightarrow> padPrint line label val out = Panic NegativeRepeat"
  by (simp add: padPrint_def Repeat_def width_def)

end
