(* ===== verification/Ui.thy ===== *)
theory Ui
  imports Ui_Gooey Measures
begin

text \<open>
  \<^verbatim>\<open>src/ui/ui.go\<close> and \<^verbatim>\<open>src/ui/opts/options.go\<close>: the options of the user interface, the selection of
  values from the scraped metrics, and the rendering loops of the two themes.

  \<open>'f\<close> is \<open>float64\<close>; its addition, its printing and the conversions of a duration to whole hours,
  minutes and seconds are in the parameter \<open>ui_env\<close>, with the byte formatter. A rendering loop is a
  function of the events its \<open>select\<close> receives; \<open>Cancelled\<close> ends it, and a list of events without it
  leaves the loop waiting. Fetching the metrics is not modelled: the goroutine that does it delivers
  \<open>Scraped\<close> events.
\<close>

section \<open>Options\<close>

text \<open>Writers are told apart by a number.\<close>

datatype writer = No_Writer | Stderr | Writer_of nat

record ui_options =
  uo_MetricsURL :: string
  uo_Start :: int
  uo_Writer :: writer
  uo_RefreshPeriod :: int

type_synonym ui_option = "ui_options \<Rightarrow> ui_options \<times> go_error option"

definition ui_option_error :: "nat \<Rightarrow> go_error \<Rightarrow> go_error" where
  "ui_option_error i err = Wrapf (''UI option '' @ Itoa (int i) @ '' failed: '') err"

fun ui_apply_from :: "nat \<Rightarrow> ui_option list \<Rightarrow> ui_option" where
  "ui_apply_from i [] o1 = (o1, None)"
| "ui_apply_from i (opt # opts) o1 =
     (case opt o1 of
        (o2, None) \<Rightarrow> ui_apply_from (Suc i) opts o2
      | (o2, Some err) \<Rightarrow> (o2, Some (ui_option_error i err)))"

definition ui_Apply :: "ui_option list \<Rightarrow> ui_option" where
  "ui_Apply opts o1 = ui_apply_from 0 opts o1"

definition ui_Defaults :: "int \<Rightarrow> ui_option" where
  "ui_Defaults now o1 =
     (o1\<lparr>uo_MetricsURL := ''http://127.0.0.1:8888/metrics'', uo_Start := now,
         uo_Writer := Stderr, uo_RefreshPeriod := 5000000000\<rparr>, None)"

definition MetricsURL :: "string \<Rightarrow> ui_option" where
  "MetricsURL url o1 = (o1\<lparr>uo_MetricsURL := url\<rparr>, None)"

definition Start :: "int \<Rightarrow> ui_option" where
  "Start t o1 = (o1\<lparr>uo_Start := t\<rparr>, None)"

definition Writer :: "writer \<Rightarrow> ui_option" where
  "Writer w o1 = (o1\<lparr>uo_Writer := w\<rparr>, None)"

definition RefreshPeriod :: "int \<Rightarrow> ui_option" where
  "RefreshPeriod rp o1 = (o1\<lparr>uo_RefreshPeriod := rp\<rparr>, None)"

datatype theme = Logey | Gooey | Other_Theme

record ui =
  ui_theme :: theme
  ui_opts :: ui_options

text \<open>\<open>NewUI\<close> drops the error of \<open>Apply\<close>: the options before a failing one stay.\<close>

definition NewUI :: "int \<Rightarrow> theme \<Rightarrow> ui_option list \<Rightarrow> ui" where
  "NewUI now th opts =
     \<lparr>ui_theme = th,
      ui_opts = fst (ui_Apply (ui_Defaults now # opts)
        \<lparr>uo_MetricsURL = [], uo_Start = 0, uo_Writer = No_Writer, uo_RefreshPeriod = 0\<rparr>)\<rparr>"

section \<open>Scraped metrics\<close>

record 'f sample =
  sm_Labels :: "string \<rightharpoonup> string"
  sm_Value :: 'f

record 'f metric =
  mt_Name :: string
  mt_Samples :: "'f sample list"

record 'f ui_env =
  ue_zero :: 'f
  ue_add :: "'f \<Rightarrow> 'f \<Rightarrow> 'f"
  ue_show :: "'f \<Rightarrow> string"              \<comment> \<open>\<open>%v\<close>\<close>
  ue_Bytes :: "'f \<Rightarrow> string"             \<comment> \<open>\<open>humanize.Bytes(uint64(v))\<close>\<close>
  ue_Hours :: "int \<Rightarrow> int"               \<comment> \<open>\<open>int(d.Hours())\<close>\<close>
  ue_Minutes :: "int \<Rightarrow> int"
  ue_Seconds :: "int \<Rightarrow> int"
  ue_show_duration :: "int \<Rightarrow> string"

definition nsName :: "measure \<Rightarrow> string" where
  "nsName m = PrometheusNamespace @ ''_'' @ ms_Name m"

fun findByName :: "'f metric list \<Rightarrow> string \<Rightarrow> 'f metric option" where
  "findByName [] metricName = None"
| "findByName (m # ms) metricName =
     (if mt_Name m = metricName then Some m else findByName ms metricName)"

definition labelValues :: "'f metric option \<Rightarrow> string \<Rightarrow> string list" where
  "labelValues m labelKey =
     (case m of None \<Rightarrow> []
      | Some mt \<Rightarrow> map (\<lambda>s. case sm_Labels s labelKey of None \<Rightarrow> [] | Some v \<Rightarrow> v) (mt_Samples mt))"

definition sumSamples :: "'f ui_env \<Rightarrow> 'f metric option \<Rightarrow> 'f" where
  "sumSamples env m =
     (case m of None \<Rightarrow> ue_zero env
      | Some mt \<Rightarrow> foldl (\<lambda>val s. ue_add env val (sm_Value s)) (ue_zero env) (mt_Samples mt))"

text \<open>The value of one metric of the hydra.\<close>

definition metric_value :: "'f ui_env \<Rightarrow> 'f metric list \<Rightarrow> string \<Rightarrow> 'f" where
  "metric_value env ms name = sumSamples env (findByName ms name)"

section \<open>The rendering loops\<close>

datatype 'f ui_event =
    Scraped "'f metric list" int     \<comment> \<open>with the time since the start\<close>
  | Second_Passed int
  | Cancelled

definition logey_line :: "'f ui_env \<Rightarrow> 'f metric list \<Rightarrow> int \<Rightarrow> string" where
  "logey_line env ms since =
     ''[NumHeads: '' @ ue_show env (metric_value env ms (nsName Heads)) @
     '', Uptime: '' @ ue_show_duration env (1000000000 * ue_Seconds env since) @
     '', MemoryUsage: '' @ ue_Bytes env (metric_value env ms ''go_memstats_alloc_bytes'') @
     '', PeersConnected: '' @ ue_show env (metric_value env ms (nsName ConnectedPeers)) @
     '', TotalUniquePeersSeen: '' @ ue_show env (metric_value env ms (nsName UniquePeers)) @
     '', BootstrapsDone: '' @ ue_show env (metric_value env ms (nsName BootstrappedHeads)) @
     '', ProviderRecords: '' @ ue_show env (metric_value env ms (nsName ProviderRecords)) @
     '', RoutingTableSize: '' @ ue_show env (metric_value env ms (nsName RoutingTableSize)) @
     '']'' @ NL"

text \<open>The result is the output and whether the loop has returned.\<close>

fun render_logey :: "'f ui_env \<Rightarrow> 'f ui_event list \<Rightarrow> string \<Rightarrow> string \<times> bool" where
  "render_logey env [] out = (out, False)"
| "render_logey env (Scraped ms since # evs) out = render_logey env evs (out @ logey_line env ms since)"
| "render_logey env (Second_Passed t # evs) out = render_logey env evs out"
| "render_logey env (Cancelled # evs) out = (out, True)"

text \<open>\<open>fmt.Sprintf("%v")\<close> of a slice of strings.\<close>

definition show_strings :: "string list \<Rightarrow> string" where
  "show_strings ss = ''['' @ Join ss '' '' @ '']''"

definition bind_ui :: "'a outcome \<Rightarrow> ('a \<Rightarrow> 'b outcome) \<Rightarrow> 'b outcome" where
  "bind_ui r f = (case r of Ok x \<Rightarrow> f x | Error e \<Rightarrow> Error e | Panic p \<Rightarrow> Panic p)"

text \<open>The lines of the application, in the order of their creation: heads, connections, unique peers,
  memory, provider records, routing table, uptime.\<close>

definition gooey_start :: "gooey_app outcome" where
  "gooey_start =
     bind_ui (NewLog 15 15) (\<lambda>lg.
     let a0 = \<lparr>ga_Title = ''Hydra Booster'', ga_DataFields = [], ga_Log = lg\<rparr>;
         a1 = fst (NewDataLine 3 ''Head ID(s)'' '''' a0);
         a2 = fst (NewDataLine 4 ''Connections'' ''0'' a1);
         a3 = fst (NewDataLine 5 ''Unique Peers Seen'' ''0'' a2);
         a4 = fst (NewDataLine 6 ''Memory Allocated'' ''0MB'' a3);
         a5 = fst (NewDataLine 7 ''Stored Provider Records'' ''0'' a4);
         a6 = fst (NewDataLine 8 ''Routing Table Size'' ''0'' a5)
     in Ok (fst (NewDataLine 9 ''Uptime'' ''0h 0m 0s'' a6)))"

fun gooey_event :: "'f ui_env \<Rightarrow> 'f ui_event \<Rightarrow> gooey_app \<times> string \<Rightarrow> (gooey_app \<times> string) outcome" where
  "gooey_event env (Scraped ms since) st =
     bind_ui (set_line 0 (show_strings (labelValues (findByName ms (nsName Heads)) ''peer_id'')) st) (\<lambda>st.
     bind_ui (set_line 3 (ue_Bytes env (metric_value env ms ''go_memstats_alloc_bytes'')) st) (\<lambda>st.
     bind_ui (set_line 1 (ue_show env (metric_value env ms (nsName ConnectedPeers)) @ '' peers'') st) (\<lambda>st.
     bind_ui (set_line 2 (ue_show env (metric_value env ms (nsName UniquePeers))) st) (\<lambda>st.
     bind_ui (set_line 4 (ue_show env (metric_value env ms (nsName ProviderRecords))) st) (\<lambda>st.
     set_line 5 (ue_show env (metric_value env ms (nsName RoutingTableSize))) st)))))"
| "gooey_event env (Second_Passed t) st =
     set_line 6 (Itoa (ue_Hours env t) @ ''h '' @ Itoa (ue_Minutes env t mod 60) @ ''m '' @
       Itoa (ue_Seconds env t mod 60) @ ''s'') st"
| "gooey_event env Cancelled st = Ok st"

fun gooey_loop ::
    "'f ui_env \<Rightarrow> 'f ui_event list \<Rightarrow> gooey_app \<times> string \<Rightarrow> (gooey_app \<times> string \<times> bool) outcome" where
  "gooey_loop env [] (a, out) = Ok (a, out, False)"
| "gooey_loop env (Cancelled # evs) (a, out) = Ok (a, out, True)"
| "gooey_loop env (ev # evs) (a, out) =
     bind_ui (gooey_event env ev (a, out)) (\<lambda>(a1, out1).
     bind_ui (GooeyApp_Print a1 out1) (\<lambda>out2. gooey_loop env evs (a1, out2)))"

definition render_gooey :: "'f ui_env \<Rightarrow> 'f ui_event list \<Rightarrow> string \<Rightarrow> (gooey_app \<times> string \<times> bool) outcome" where
  "render_gooey env evs out =
     bind_ui gooey_start (\<lambda>a.
     bind_ui (GooeyApp_Print a out) (\<lambda>out1. gooey_loop env evs (a, out1)))"

definition Render :: "ui \<Rightarrow> 'f ui_env \<Rightarrow> 'f ui_event list \<Rightarrow> string \<Rightarrow> (string \<times> bool) outcome" where
  "Render u env evs out =
     (case ui_theme u of
        Logey \<Rightarrow> Ok (render_logey env evs out)
      | Gooey \<Rightarrow> bind_ui (render_gooey env evs out) (\<lambda>(a, r). Ok r)
      | Other_Theme \<Rightarrow> Ok (out, True))"

section \<open>Facts\<close>

lemma findByName_first:
  "findByName ms n = (case filter (\<lambda>m. mt_Name m = n) ms of [] \<Rightarrow> None | m # _ \<Rightarrow> Some m)"
  by (induction ms n rule: findByName.induct) auto

lemma ui_apply_ok:
  "\<forall>opt \<in> set opts. \<forall>o1. snd (opt o1) = None \<Longrightarrow>
    ui_apply_from i opts o1 = (fold (\<lambda>opt o1. fst (opt o1)) opts o1, None)"
proof (induction opts arbitrary: i o1)
  case (Cons opt opts)
  then obtain o2 where "opt o1 = (o2, None)" by (metis list.set_intros(1) prod.collapse)
  with Cons show ?case by simp
qed simp

text \<open>An application whose labels fit the column and whose log is well-formed; no event takes it out of
  this set, and in it nothing panics.\<close>

definition lines_fit :: "data_line list \<Rightarrow> bool" where
  "lines_fit dls \<longleftrightarrow> (\<forall>dl \<in> set dls. length (dl_Label dl) \<le> 25)"

definition app_ok :: "gooey_app \<Rightarrow> bool" where
  "app_ok a \<longleftrightarrow> lines_fit (ga_DataFields a) \<and> (\<exists>S ms. log_repr S (ga_Log a) ms)"

lemma DataLine_Print_fits:
  "length (dl_Label dl) \<le> 25 \<Longrightarrow> \<exists>out1. DataLine_Print dl out = Ok out1"
  by (simp add: DataLine_Print_def padPrint_def Repeat_def width_def Let_def)

lemma print_lines_fits: "lines_fit dls \<Longrightarrow> \<exists>out1. print_lines dls out = Ok out1"
proof (induction dls arbitrary: out)
  case (Cons dl dls)
  then have "length (dl_Label dl) \<le> 25" "lines_fit dls" by (simp_all add: lines_fit_def)
  moreover from this(1) obtain out1 where "DataLine_Print dl out = Ok out1"
    using DataLine_Print_fits by blast
  ultimately show ?case using Cons.IH [of out1] by simp
qed simp

lemma GooeyApp_Print_ok: "app_ok a \<Longrightarrow> \<exists>out1. GooeyApp_Print a out = Ok out1"
proof -
  assume ok: "app_ok a"
  then obtain S ms where r: "log_repr S (ga_Log a) ms" by (auto simp: app_ok_def)
  then have sz: "lg_Size (ga_Log a) = int S" by (simp add: log_repr_def)
  obtain out1 where "print_lines (ga_DataFields a) (putMessage 1 (ga_Title a) (out @ QReset @ NL)) = Ok out1"
    using print_lines_fits ok by (auto simp: app_ok_def)
  with log_rows_repr [OF r, of 0 S out1] sz show ?thesis
    by (simp add: GooeyApp_Print_def Log_Print_def)
qed

lemma set_line_ok:
  assumes "app_ok a" "i < length (ga_DataFields a)"
  obtains a1 out1 where "set_line i s (a, out) = Ok (a1, out1)" "app_ok a1"
    "ga_DataFields a1 = (ga_DataFields a)[i := (ga_DataFields a ! i)\<lparr>dl_LastVal := s\<rparr>]"
proof -
  let ?dl = "(ga_DataFields a ! i)\<lparr>dl_LastVal := s\<rparr>"
  have fit: "length (dl_Label ?dl) \<le> 25"
    using assms by (simp add: app_ok_def lines_fit_def)
  then obtain out1 where "DataLine_Print ?dl out = Ok out1" using DataLine_Print_fits by blast
  moreover have "lines_fit ((ga_DataFields a)[i := ?dl])"
    using assms fit by (auto simp: app_ok_def lines_fit_def dest!: set_update_subset_insert [THEN subsetD])
  ultimately show ?thesis
    using assms that [of "a\<lparr>ga_DataFields := (ga_DataFields a)[i := ?dl]\<rparr>" out1]
    by (simp add: set_line_def SetVal_def Let_def app_ok_def)
qed

lemma bind_ui_Ok [simp]: "bind_ui (Ok x) f = f x"
  by (simp add: bind_ui_def)

text \<open>The texts in the seven lines of the application after an event.\<close>

fun texts_after :: "'f ui_env \<Rightarrow> 'f ui_event \<Rightarrow> string list \<Rightarrow> string list" where
  "texts_after env (Scraped ms since) vs =
     [show_strings (labelValues (findByName ms (nsName Heads)) ''peer_id''),
      ue_show env (metric_value env ms (nsName ConnectedPeers)) @ '' peers'',
      ue_show env (metric_value env ms (nsName UniquePeers)),
      ue_Bytes env (metric_value env ms ''go_memstats_alloc_bytes''),
      ue_show env (metric_value env ms (nsName ProviderRecords)),
      ue_show env (metric_value env ms (nsName RoutingTableSize)), vs ! 6]"
| "texts_after env (Second_Passed t) vs =
     vs[6 := Itoa (ue_Hours env t) @ ''h '' @ Itoa (ue_Minutes env t mod 60) @ ''m '' @
             Itoa (ue_Seconds env t mod 60) @ ''s'']"
| "texts_after env Cancelled vs = vs"

abbreviation texts :: "gooey_app \<Rightarrow> string list" where
  "texts a \<equiv> map dl_LastVal (ga_DataFields a)"

lemma set_line_texts:
  assumes "app_ok a" "i < length (texts a)"
  shows "\<exists>a1 out1. set_line i s (a, out) = Ok (a1, out1) \<and> app_ok a1 \<and> texts a1 = (texts a)[i := s]"
proof -
  have "i < length (ga_DataFields a)" using assms(2) by simp
  from set_line_ok [OF assms(1) this, of s out] show ?thesis by (metis data_line.select_convs(4) data_line.surjective data_line.update_convs(4) map_update)
qed

lemma gooey_event_texts:
  assumes "app_ok a" "length (texts a) = 7"
  obtains a1 out1 where "gooey_event env ev (a, out) = Ok (a1, out1)" "app_ok a1"
    "texts a1 = texts_after env ev (texts a)"
proof (cases ev)
  case (Scraped ms since)
  let ?v = "texts_after env ev (texts a)"
  obtain a1 o1 where 1: "set_line 0 (?v ! 0) (a, out) = Ok (a1, o1)" "app_ok a1" "texts a1 = (texts a)[0 := ?v ! 0]"
    using set_line_texts [OF assms(1), of 0 "?v ! 0" out] assms(2) by (cases "ga_DataFields a") auto
  obtain a2 o2 where 2: "set_line 3 (?v ! 3) (a1, o1) = Ok (a2, o2)" "app_ok a2" "texts a2 = (texts a1)[3 := ?v ! 3]"
    using set_line_texts [OF 1(2), of 3 "?v ! 3" o1] 1(3) assms(2) by auto
  obtain a3 o3 where 3: "set_line 1 (?v ! 1) (a2, o2) = Ok (a3, o3)" "app_ok a3" "texts a3 = (texts a2)[1 := ?v ! 1]"
    using set_line_texts [OF 2(2), of 1 "?v ! 1" o2] 1(3) 2(3) assms(2) by auto
  obtain a4 o4 where 4: "set_line 2 (?v ! 2) (a3, o3) = Ok (a4, o4)" "app_ok a4" "texts a4 = (texts a3)[2 := ?v ! 2]"
    using set_line_texts [OF 3(2), of 2 "?v ! 2" o3] 1(3) 2(3) 3(3) assms(2) by auto
  obtain a5 o5 where 5: "set_line 4 (?v ! 4) (a4, o4) = Ok (a5, o5)" "app_ok a5" "texts a5 = (texts a4)[4 := ?v ! 4]"
    using set_line_texts [OF 4(2), of 4 "?v ! 4" o4] 1(3) 2(3) 3(3) 4(3) assms(2) by auto
  obtain a6 o6 where 6: "set_line 5 (?v ! 5) (a5, o5) = Ok (a6, o6)" "app_ok a6" "texts a6 = (texts a5)[5 := ?v ! 5]"
    using set_line_texts [OF 5(2), of 5 "?v ! 5" o5] 1(3) 2(3) 3(3) 4(3) 5(3) assms(2) by auto
  obtain v0 v1 v2 v3 v4 v5 v6 where "texts a = [v0, v1, v2, v3, v4, v5, v6]"
    using assms(2) by (auto simp: numeral_eq_Suc length_Suc_conv)
  then have "texts a6 = ?v"
    unfolding 6(3) 5(3) 4(3) 3(3) 2(3) 1(3) Scraped by (simp add: numeral_eq_Suc)
  moreover have "gooey_event env ev (a, out) = Ok (a6, o6)"
    using 1(1) 2(1) 3(1) 4(1) 5(1) 6(1) unfolding Scraped by (simp add: numeral_eq_Suc)
  ultimately show ?thesis using that 6(2) by blast
next
  case (Second_Passed t)
  let ?s = "Itoa (ue_Hours env t) @ ''h '' @ Itoa (ue_Minutes env t mod 60) @ ''m '' @
    Itoa (ue_Seconds env t mod 60) @ ''s''"
  obtain a1 o1 where "set_line 6 ?s (a, out) = Ok (a1, o1)" "app_ok a1" "texts a1 = (texts a)[6 := ?s]"
    using set_line_texts [OF assms(1), of 6 ?s out] assms(2) by auto
  with that Second_Passed show ?thesis by simp
next
  case Cancelled
  with assms that show ?thesis by simp
qed

lemma gooey_loop_texts:
  assumes "app_ok a" "length (texts a) = 7"
  shows "\<exists>a1 out1. gooey_loop env evs (a, out) = Ok (a1, out1, Cancelled \<in> set evs) \<and> app_ok a1 \<and>
    texts a1 = fold (texts_after env) (takeWhile (\<lambda>ev. ev \<noteq> Cancelled) evs) (texts a)"
  using assms
proof (induction evs arbitrary: a out)
  case (Cons ev evs)
  obtain a1 o1 where 1: "gooey_event env ev (a, out) = Ok (a1, o1)" "app_ok a1"
    "texts a1 = texts_after env ev (texts a)"
    using gooey_event_texts [OF Cons.prems] .
  obtain o2 where "GooeyApp_Print a1 o1 = Ok o2" using GooeyApp_Print_ok [OF 1(2)] by blast
  moreover have "length (texts a1) = 7"
    unfolding 1(3) using Cons.prems(2) by (cases ev) simp_all
  ultimately show ?case
    using Cons.IH [OF 1(2), of o2] Cons.prems(1) 1 by (cases ev) (simp_all del: length_map)
qed simp

lemma gooey_start_ok:
  obtains a where "gooey_start = Ok a" "app_ok a" "texts a = replicate 7 []"
proof -
  obtain lg where lg: "NewLog 15 15 = Ok lg" by (simp add: NewLog_def)
  then have "log_repr 15 lg []" using NewLog_repr [of 15 15] by simp
  then show ?thesis
    using that lg by (fastforce simp: gooey_start_def NewDataLine_def Let_def app_ok_def lines_fit_def numeral_eq_Suc)
qed

section \<open>Properties\<close>

text \<open>
  the interactive theme never panics, ends exactly when its context is cancelled, and is up to
  date: whatever events arrive in whatever order, the texts of its seven lines are those of the
  latest metrics (head IDs, connections, unique peers, memory, provider records and routing table
  size, each the sum over the samples of the first metric of that name) and of the latest second.
\<close>

theorem render_gooey_shows_latest:
  "\<exists>a out1. render_gooey env evs out = Ok (a, out1, Cancelled \<in> set evs) \<and>
     map dl_LastVal (ga_DataFields a) =
       fold (texts_after env) (takeWhile (\<lambda>ev. ev \<noteq> Cancelled) evs) (replicate 7 [])"
proof -
  obtain a where a: "gooey_start = Ok a" "app_ok a" "texts a = replicate 7 []"
    using gooey_start_ok by blast
  obtain out1 where "GooeyApp_Print a out = Ok out1" using GooeyApp_Print_ok [OF a(2)] by blast
  then have "render_gooey env evs out = gooey_loop env evs (a, out1)"
    by (simp add: render_gooey_def a(1))
  with gooey_loop_texts [OF a(2), of env evs out1] a(3) show ?thesis by auto
qed

end
