(* ===== verification/Main_Lifecycle.thy ===== *)
theory Main_Lifecycle
  imports Swarm_Id_Gen Main_Config Ui
begin

text \<open>
  The course of \<^verbatim>\<open>main\<close> in \<^verbatim>\<open>src/main.go\<close> after its settings (theory \<open>Main_Config\<close>): the deferred clean-up of
  the identities taken from another hydra, \<open>NewHydra\<close>, the user interface, and waiting for a signal
  while the servers run.

  A process ends in one of the ways of \<open>main_end\<close>. \<^verbatim>\<open>log.Fatalln\<close> exits at once; the deferred functions
  run, the last one first, when \<open>main\<close> returns and when it panics. What happens after the servers have
  been started is a list of events, of which the first one decides. A server that fails while
  \<open>NewHydra\<close> is still running is not modelled separately: it ends the process as a later one does.

  The world of the process is the cleaning generator \<open>dg\<close> with the server it asks, the rest, and the
  port counter of \<open>Main_Config\<close>. It is projected to the generator by \<open>gen_of\<close>; that the libraries do not
  touch the generator is the predicate \<open>hydra_keeps gen_of\<close>. The context of \<^verbatim>\<open>main\<close> has no tags, so
  \<open>NewHydra\<close> is given \<open>None\<close>. The delegated generator, a function on the server, and the requests that are
  \<open>lost\<close> before they reach it are parameters; the seeded generator, which keeps its state in the rest of
  the world, is the parameter \<open>seeded\<close> (theory \<open>Id_Gen\<close> models it).
\<close>

section \<open>The code\<close>







text \<open>The user interface: every theme but \<open>none\<close> and \<open>gooey\<close> is the zero value of its type.\<close>

definition main_ui :: "int \<Rightarrow> int \<Rightarrow> string \<Rightarrow> string \<Rightarrow> ui option" where
  "main_ui now start uiTheme metricsAddr =
     (if uiTheme \<noteq> ''none''
      then Some (NewUI now (if uiTheme = ''gooey'' then Gooey else Logey)
             [Start start, MetricsURL (''http://'' @ metricsAddr @ ''/metrics'')])
      else None)"

type_synonym ('s, 'h, 'v) process = "((('s, 'h) cleaning \<times> 'v) \<times> 64 word)"

definition gen_of :: "('s, 'h, 'v) process \<Rightarrow> ('s, 'h) cleaning" where
  "gen_of w = fst (fst w)"

text \<open>The closure that cleans up prints an error of \<open>Clean\<close> and drops it.\<close>

definition main_clean ::
    "('s \<Rightarrow> 'h \<Rightarrow> 's \<times> unit outcome) \<Rightarrow> (go_error option \<Rightarrow> go_error \<Rightarrow> go_error) \<Rightarrow>
     ('s, 'h, 'v) process \<Rightarrow> ('s, 'h, 'v) process" where
  "main_clean rem merr w =
     (case w of ((dg, v), port) \<Rightarrow> ((fst (CleaningIDGenerator_Clean rem merr dg), v), port))"






text \<open>The interface of a process always has a rendering loop, and reads the process's own metrics.\<close>

lemma main_ui_options:
  "main_ui now start uiTheme metricsAddr = Some u \<Longrightarrow> ui_theme u \<noteq> Other_Theme \<and>
   ui_opts u = \<lparr>uo_MetricsURL = ''http://'' @ metricsAddr @ ''/metrics'', uo_Start = start, uo_Writer = Stderr,
     uo_RefreshPeriod = 5000000000\<rparr>"
  by (auto simp: main_ui_def NewUI_def ui_Apply_def ui_Defaults_def Start_def MetricsURL_def split: if_splits)

section \<open>What a part of the world sees of a hydra\<close>












section \<open>The identities of a process\<close>








context identity_generator begin

text \<open>The exact version of the session invariant.\<close>

definition exact_inv :: "'k set \<Rightarrow> ('s, 'pk) cleaning \<Rightarrow> bool" where
  "exact_inv H0 c \<longleftrightarrow> session_inv H0 c \<and> held (cg_idgen c) = H0 \<union> keyset (cg_keys c)"

lemma exact_add:
  assumes "exact_inv H0 c" "cleaning_step add rem equals c CAdd = Some c'"
  shows "exact_inv H0 c'"
proof -
  obtain r where r: "CleaningIDGenerator_AddBalanced add c = Some (c', r)" "\<forall>p. r \<noteq> Panic p"
    using assms(2) by (auto split: option.splits outcome.splits)
  have i: "invar (cg_idgen c)" using assms(1) by (simp add: exact_inv_def session_inv_def)
  have "session_inv H0 c'"
    by (rule session_add [OF _ r]) (use assms(1) in \<open>simp add: exact_inv_def\<close>)
  moreover have "held (cg_idgen c') = H0 \<union> keyset (cg_keys c')"
    using r add_Ok [OF i] add_Error [OF i] assms(1)
    by (fastforce simp: CleaningIDGenerator_AddBalanced_def exact_inv_def split: option.splits outcome.splits)
  ultimately show ?thesis by (simp add: exact_inv_def)
qed

lemma exact_adds:
  "exact_inv H0 c \<Longrightarrow> cleaning_run add rem equals c (replicate k CAdd) = Some c' \<Longrightarrow> exact_inv H0 c'"
proof (induction k arbitrary: c)
  case (Suc k)
  then obtain c1 where "cleaning_step add rem equals c CAdd = Some c1"
    "cleaning_run add rem equals c1 (replicate k CAdd) = Some c'"
    by (auto split: option.splits)
  with Suc exact_add show ?case by blast
qed simp

lemma new_exact: "invar s \<Longrightarrow> exact_inv (held s) (NewCleaningIDGenerator s)"
  by (simp add: exact_inv_def session_inv_def NewCleaningIDGenerator_def)

lemma exact_clean:
  assumes "exact_inv H0 c" "c' = fst (CleaningIDGenerator_Clean rem merr c)"
  shows "exact_inv H0 c' \<and> cg_keys c' = []"
proof -
  have "session_inv H0 c" using assms(1) by (simp add: exact_inv_def)
  from Clean_session [OF this, of merr] assms(2) show ?thesis by (auto simp: exact_inv_def session_inv_def)
qed

end

section \<open>How a process ends\<close>

lemma gen_of_main_clean [simp]:
  "gen_of (main_clean rem merr w) = fst (CleaningIDGenerator_Clean rem merr (gen_of w))"
  by (simp add: main_clean_def gen_of_def split: prod.split)







section \<open>Properties\<close>















end
