(* ===== verification/Metrics_Server.thy ===== *)
theory Metrics_Server
  imports Metric_Views Go_Strings
begin

text \<open>
  The metrics endpoint, \<open>ListenAndServe\<close> of \<^verbatim>\<open>src/metrics/metrics.go\<close>: the collectors, the Prometheus
  exporter, the registration of the views, and the routes.

  Collectors, exporter, views and pages of the libraries are parameters, in the record \<open>server_env\<close>;
  the world \<open>'w\<close> is theirs. The views of the HTTP routing client are a list of pointers owned by its
  package: \<open>ListenAndServe\<close> changes the views themselves, so they are part of the state. \<open>ServeMux\<close> is
  that of Go's standard library before version 1.22: patterns without methods and wildcards. No pattern
  here names a host, so the host of a request plays no part. Listening is the parameter \<open>sv_Listen\<close>; an
  error of a connection that ends the serving later is not modelled.
\<close>

section \<open>Collectors\<close>

record 'n process_options =
  po_ProcFSPath :: string
  po_Children :: bool
  po_Threads :: bool
  po_GatherSMaps :: bool
  po_Namer :: 'n

datatype ('nc, 'pc) collector =
    Go_Collector | Process_Collector | Node_Collector 'nc | Named_Process_Collector 'pc

record ('w, 'n, 'cfg, 'nc, 'pc, 'reg, 'pe, 'z) server_env =
  sv_ToConfig :: "string list list \<Rightarrow> 'cfg outcome"            \<comment> \<open>of rules, each with its \<open>ExeRules\<close>\<close>
  sv_MatchNamers :: "'cfg \<Rightarrow> 'n"
  sv_NewProcessCollector :: "'n process_options \<Rightarrow> 'w \<Rightarrow> 'w \<times> 'pc outcome"
  sv_NewNodeCollector :: "'w \<Rightarrow> 'w \<times> 'nc outcome"
  sv_MustRegister :: "('nc, 'pc) collector list \<Rightarrow> 'w \<Rightarrow> 'w \<times> 'reg outcome"   \<comment> \<open>with a new registry\<close>
  sv_NewExporter :: "string \<Rightarrow> 'reg \<Rightarrow> 'w \<Rightarrow> 'w \<times> 'pe outcome"
  sv_RegisterExporter :: "'pe \<Rightarrow> 'w \<Rightarrow> 'w"
  sv_Register :: "view list \<Rightarrow> 'w \<Rightarrow> 'w \<times> go_error option"
  sv_zpages :: "string \<Rightarrow> (string \<times> 'z) list"                 \<comment> \<open>the routes below a prefix\<close>
  sv_Listen :: "string \<Rightarrow> 'w \<Rightarrow> 'w \<times> go_error option"    \<comment> \<open>by \<open>http.ListenAndServe\<close>\<close>

definition buildProcCollector ::
    "('w, 'n, 'cfg, 'nc, 'pc, 'reg, 'pe, 'z) server_env \<Rightarrow> string \<Rightarrow> 'w \<Rightarrow> 'w \<times> 'pc outcome" where
  "buildProcCollector env arg0 w =
     (case sv_ToConfig env [[arg0]] of
        Error err \<Rightarrow> (w, Error (Wrapf ''building process collector config: '' err))
      | Panic p \<Rightarrow> (w, Panic p)
      | Ok config \<Rightarrow>
          (case sv_NewProcessCollector env
                  \<lparr>po_ProcFSPath = ''/proc'', po_Children = True, po_Threads = True, po_GatherSMaps = False,
                   po_Namer = sv_MatchNamers env config\<rparr> w of
             (w1, Error err) \<Rightarrow> (w1, Error (Wrapf ''creating process collector: '' err))
           | (w1, r) \<Rightarrow> (w1, r)))"

section \<open>Views\<close>

text \<open>The loop over the views of the client: the changed views, and the views to register.\<close>

fun add_name_tags :: "view list \<Rightarrow> view list \<Rightarrow> view list \<times> view list" where
  "add_name_tags [] views = ([], views)"
| "add_name_tags (v # clientViews) views =
     (let v1 = View (vw_Measure v) (vw_TagKeys v @ [''name'']) (vw_Aggregation v);
          (rest, views1) = add_name_tags clientViews (views @ [v1])
      in (v1 # rest, views1))"

definition tagged_views :: "view list \<Rightarrow> view list" where
  "tagged_views cvs = map (\<lambda>v. View (vw_Measure v) (vw_TagKeys v @ [KeyName]) (vw_Aggregation v)) cvs"

section \<open>Routes\<close>

type_synonym 'h mux = "(string \<times> 'h) list"

datatype ('pe, 'z) metrics_handler =
    Zpage 'z | Exporter 'pe | Expvar
  | Pprof_Index | Pprof_Cmdline | Pprof_Profile | Pprof_Symbol | Pprof_Trace

definition mux_Handle :: "'h mux \<Rightarrow> string \<Rightarrow> 'h \<Rightarrow> 'h mux outcome" where
  "mux_Handle m pattern h =
     (if pattern = [] then Panic (PanicValue (Errorf ''http: invalid pattern''))
      else if pattern \<in> fst ` set m
      then Panic (PanicValue (Errorf (''http: multiple registrations for '' @ pattern)))
      else Ok (m @ [(pattern, h)]))"

fun handle_all :: "'h mux \<Rightarrow> (string \<times> 'h) list \<Rightarrow> 'h mux outcome" where
  "handle_all m [] = Ok m"
| "handle_all m ((pattern, h) # routes) =
     (case mux_Handle m pattern h of Ok m1 \<Rightarrow> handle_all m1 routes | Error err \<Rightarrow> Error err | Panic p \<Rightarrow> Panic p)"

definition metrics_routes :: "'pe \<Rightarrow> (string \<times> ('pe, 'z) metrics_handler) list" where
  "metrics_routes pe =
     [(''/metrics'', Exporter pe), (''/debug/vars'', Expvar),
      (''/debug/pprof/'', Pprof_Index), (''/debug/pprof/cmdline'', Pprof_Cmdline),
      (''/debug/pprof/profile'', Pprof_Profile), (''/debug/pprof/symbol'', Pprof_Symbol),
      (''/debug/pprof/trace'', Pprof_Trace)]"

definition metrics_mux :: "(string \<times> 'z) list \<Rightarrow> 'pe \<Rightarrow> ('pe, 'z) metrics_handler mux outcome" where
  "metrics_mux zpages pe = handle_all [] (map (\<lambda>(p, z). (p, Zpage z)) zpages @ metrics_routes pe)"

text \<open>What a mux does with a path as it is: an exact pattern, else a redirect to the subtree of that name,
  else the longest pattern that ends in a slash and starts the path.\<close>

datatype 'h served = Served 'h | Redirected string | Not_Found | Bad_Request

definition subtree :: "string \<Rightarrow> bool" where
  "subtree p \<longleftrightarrow> p \<noteq> [] \<and> last p = CHR ''/''"

fun longest :: "'h mux \<Rightarrow> string \<Rightarrow> (string \<times> 'h) option" where
  "longest [] path = None"
| "longest ((p, h) # m) path =
     (if subtree p \<and> HasPrefix path p
      then (case longest m path of
              Some (p', h') \<Rightarrow> if length p < length p' then Some (p', h') else Some (p, h)
            | None \<Rightarrow> Some (p, h))
      else longest m path)"

definition mux_lookup :: "'h mux \<Rightarrow> string \<Rightarrow> 'h served" where
  "mux_lookup m path =
     (case map_of m path of
        Some h \<Rightarrow> Served h
      | None \<Rightarrow>
          if path \<noteq> [] \<and> \<not> subtree path \<and> path @ ''/'' \<in> fst ` set m then Redirected (path @ ''/'')
          else (case longest m path of Some (p, h) \<Rightarrow> Served h | None \<Rightarrow> Not_Found))"

text \<open>
  \<open>cleanPath\<close> of \<open>ServeMux\<close> over \<open>path.Clean\<close> of a rooted path: empty and dot segments are dropped, a
  double dot drops the segment before it, and a slash at the end is kept.
\<close>

fun clean_segments :: "string list \<Rightarrow> string list \<Rightarrow> string list" where
  "clean_segments out [] = rev out"
| "clean_segments out (w # ws) =
     (if w = [] \<or> w = ''.'' then clean_segments out ws
      else if w = ''..'' then clean_segments (tl out) ws
      else clean_segments (w # out) ws)"

definition rooted_Clean :: "string \<Rightarrow> string" where
  "rooted_Clean p = ''/'' @ Join (clean_segments [] (Split CHR ''/'' p)) ''/''"

definition clean_path :: "string \<Rightarrow> string" where
  "clean_path p =
     (if p = [] then ''/''
      else let p1 = (if hd p \<noteq> CHR ''/'' then ''/'' @ p else p); np = rooted_Clean p1
           in if last p1 = CHR ''/'' \<and> np \<noteq> ''/'' then np @ ''/'' else np)"

text \<open>
  A request that reaches the mux: for the server as a whole (the target \<^verbatim>\<open>*\<close>), or by method and path.
  The path of a \<open>CONNECT\<close> is looked up as it is; any other path is cleaned, and where the clean path is
  another one the answer is a redirect to it, or to its subtree.
\<close>

datatype request = Whole_Server | Request string string

fun dispatch :: "'h mux \<Rightarrow> request \<Rightarrow> 'h served" where
  "dispatch m Whole_Server = Bad_Request"
| "dispatch m (Request verb path) =
     (if verb = ''CONNECT'' then mux_lookup m path
      else case mux_lookup m (clean_path path) of
             Redirected p \<Rightarrow> Redirected p
           | r \<Rightarrow> if clean_path path \<noteq> path then Redirected (clean_path path) else r)"

section \<open>The endpoint\<close>

text \<open>
  The result is the world, the views of the client and what \<open>ListenAndServe\<close> does last: return an error,
  panic, or go on to serve the views and routes at the address. It returns the error of
  \<open>http.ListenAndServe\<close> as it is when the address cannot be listened on.
\<close>

datatype 'h served_at = Failed go_error | Panicked panic | Serving string "view list" "'h mux"

definition register_and_serve ::
    "('w, 'n, 'cfg, 'nc, 'pc, 'reg, 'pe, 'z) server_env \<Rightarrow> view list \<Rightarrow> string \<Rightarrow> 'pe \<Rightarrow> 'w \<Rightarrow> view list \<Rightarrow>
     ('w \<times> view list) \<times> ('pe, 'z) metrics_handler served_at" where
  "register_and_serve env defaultViews address pe w clientViews =
     (let (clientViews1, views) = add_name_tags clientViews defaultViews
      in case sv_Register env views w of
           (w1, Some err) \<Rightarrow> ((w1, clientViews1), Failed (Wrapf ''failed to register hydra views: '' err))
         | (w1, None) \<Rightarrow>
             (case metrics_mux (sv_zpages env ''/debug'') pe of
                Ok m \<Rightarrow>
                  (case sv_Listen env address w1 of
                     (w2, Some err) \<Rightarrow> ((w2, clientViews1), Failed err)
                   | (w2, None) \<Rightarrow> ((w2, clientViews1), Serving address views m))
              | Error err \<Rightarrow> ((w1, clientViews1), Failed err)
              | Panic p \<Rightarrow> ((w1, clientViews1), Panicked p)))"

definition ListenAndServe ::
    "('w, 'n, 'cfg, 'nc, 'pc, 'reg, 'pe, 'z) server_env \<Rightarrow> view list \<Rightarrow> string \<Rightarrow> string \<Rightarrow> 'w \<Rightarrow> view list \<Rightarrow>
     ('w \<times> view list) \<times> ('pe, 'z) metrics_handler served_at" where
  "ListenAndServe env defaultViews arg0 address w clientViews =
     (case sv_NewNodeCollector env w of
        (w1, Error err) \<Rightarrow> ((w1, clientViews), Failed err)
      | (w1, Panic p) \<Rightarrow> ((w1, clientViews), Panicked p)
      | (w1, Ok nodeCollector) \<Rightarrow>
     (case buildProcCollector env arg0 w1 of
        (w2, Error err) \<Rightarrow> ((w2, clientViews), Failed err)
      | (w2, Panic p) \<Rightarrow> ((w2, clientViews), Panicked p)
      | (w2, Ok proc1Collector) \<Rightarrow>
     (case sv_MustRegister env [Go_Collector, Process_Collector, Node_Collector nodeCollector,
             Named_Process_Collector proc1Collector] w2 of
        (w3, Error err) \<Rightarrow> ((w3, clientViews), Panicked (PanicValue err))
      | (w3, Panic p) \<Rightarrow> ((w3, clientViews), Panicked p)
      | (w3, Ok registry) \<Rightarrow>
     (case sv_NewExporter env PrometheusNamespace registry w3 of
        (w4, Error err) \<Rightarrow> ((w4, clientViews), Failed (Wrapf ''failed to create exporter: '' err))
      | (w4, Panic p) \<Rightarrow> ((w4, clientViews), Panicked p)
      | (w4, Ok pe) \<Rightarrow>
          register_and_serve env defaultViews address pe (sv_RegisterExporter env pe w4) clientViews))))"

section \<open>Facts\<close>

lemma add_name_tags_eq: "add_name_tags cvs views = (tagged_views cvs, views @ tagged_views cvs)"
  by (induction cvs arbitrary: views) (simp_all add: tagged_views_def Let_def)

text \<open>The views registered are those of the theory \<open>Metric_Views\<close>.\<close>

lemma registered_tagged: "registered_views defaultViews cvs = defaultViews @ tagged_views cvs"
  by (simp add: registered_views_def tagged_views_def)

lemma handle_all_distinct:
  "distinct (map fst (m @ routes)) \<Longrightarrow> [] \<notin> fst ` set routes \<Longrightarrow> handle_all m routes = Ok (m @ routes)"
proof (induction routes arbitrary: m)
  case (Cons r routes)
  obtain p h where r: "r = (p, h)" by (cases r)
  have "mux_Handle m p h = Ok (m @ [(p, h)])" using Cons.prems r by (auto simp: mux_Handle_def)
  with Cons.IH [of "m @ [(p, h)]"] Cons.prems r show ?case by simp
qed simp

lemma longest_append_None: "longest m' path = None \<Longrightarrow> longest (m @ m') path = longest m path"
  by (induction m path rule: longest.induct) (simp_all split: option.split)

lemma longest_pattern: "longest m path = Some (p, h) \<Longrightarrow> (p, h) \<in> set m \<and> subtree p \<and> HasPrefix path p"
proof (induction m arbitrary: p h)
  case (Cons r m)
  then show ?case
    by (cases r; cases "longest m path") (auto split: if_split_asm)
qed simp

lemma longest_None: "longest m path = None \<longleftrightarrow> (\<forall>p \<in> fst ` set m. \<not> (subtree p \<and> HasPrefix path p))"
  by (induction m path rule: longest.induct) (auto split: option.split)

lemma longest_last:
  assumes "\<forall>p \<in> fst ` set m. subtree p \<and> HasPrefix path p \<longrightarrow> length p < length q" "longest m' path = Some (q, h)"
  shows "longest (m @ m') path = Some (q, h)"
  using assms(1)
proof (induction m)
  case (Cons r m)
  then show ?case by (cases r) simp
qed (simp add: assms(2))

lemma longest_map: "longest (map (\<lambda>(p, z). (p, f z)) m) path = map_option (\<lambda>(p, z). (p, f z)) (longest m path)"
  by (induction m path rule: longest.induct) (auto split: option.split)

lemma map_of_map_snd: "map_of (map (\<lambda>(p, z). (p, f z)) m) path = map_option f (map_of m path)"
  by (induction m) auto

text \<open>What the code relies on of the pages: distinct patterns below the prefix, away from those of the
  profiler and the variables (\<open>/debug/rpcz\<close>, \<open>/debug/tracez\<close> and \<open>/debug/public/\<close>).\<close>

definition pages_apart :: "(string \<times> 'z) list \<Rightarrow> bool" where
  "pages_apart zpages \<longleftrightarrow> distinct (map fst zpages) \<and>
     (\<forall>p \<in> fst ` set zpages. HasPrefix p ''/debug/'' \<and> \<not> HasPrefix p ''/debug/pprof'' \<and> p \<noteq> ''/debug/vars'')"

text \<open>The handler of a path, as a table.\<close>

definition route_of :: "(string \<times> 'z) list \<Rightarrow> 'pe \<Rightarrow> string \<Rightarrow> ('pe, 'z) metrics_handler served" where
  "route_of zpages pe path =
     (if path = ''/metrics'' then Served (Exporter pe)
      else if path = ''/debug/vars'' then Served Expvar
      else if path = ''/debug/pprof/cmdline'' then Served Pprof_Cmdline
      else if path = ''/debug/pprof/profile'' then Served Pprof_Profile
      else if path = ''/debug/pprof/symbol'' then Served Pprof_Symbol
      else if path = ''/debug/pprof/trace'' then Served Pprof_Trace
      else if HasPrefix path ''/debug/pprof/'' then Served Pprof_Index
      else if path = ''/debug/pprof'' then Redirected ''/debug/pprof/''
      else (case mux_lookup zpages path of Served z \<Rightarrow> Served (Zpage z) | Redirected p \<Rightarrow> Redirected p
            | Not_Found \<Rightarrow> Not_Found | Bad_Request \<Rightarrow> Bad_Request))"

lemma metrics_mux_ok:
  assumes "pages_apart zpages"
  shows "metrics_mux zpages pe = Ok (map (\<lambda>(p, z). (p, Zpage z)) zpages @ metrics_routes pe)"
proof -
  let ?own = "[''/metrics'', ''/debug/vars'', ''/debug/pprof/'', ''/debug/pprof/cmdline'', ''/debug/pprof/profile'',
     ''/debug/pprof/symbol'', ''/debug/pprof/trace'']"
  have keys: "map fst (map (\<lambda>(p, z). (p, Zpage z)) zpages) = map fst zpages" by (simp add: case_prod_beta comp_def)
  have own: "map fst (metrics_routes pe :: (string \<times> ('pe, 'z) metrics_handler) list) = ?own" for pe :: 'pe
    by (simp add: metrics_routes_def)
  have "\<forall>q \<in> set ([] # ?own). \<not> HasPrefix q ''/debug/'' \<or> HasPrefix q ''/debug/pprof'' \<or> q = ''/debug/vars''"
    by code_simp
  then have other: "p \<notin> set ?own" "p \<noteq> []" if "p \<in> fst ` set zpages" for p
    using assms that unfolding pages_apart_def by (metis list.set_intros(1,2))+
  have "distinct ?own" "[] \<notin> set ?own" by code_simp+
  moreover have "distinct (map fst zpages)" using assms by (simp only: pages_apart_def)
  moreover have "set (map fst zpages) \<inter> set ?own = {}" using other(1) by (simp only: set_map) blast
  ultimately have "distinct (map fst zpages @ ?own)" "[] \<notin> set (map fst zpages @ ?own)"
    using other(2) by (simp_all only: distinct_append set_append set_map) blast+
  then have "distinct (map fst (map (\<lambda>(p, z). (p, Zpage z)) zpages @ metrics_routes pe))"
      "[] \<notin> fst ` set (map (\<lambda>(p, z). (p, Zpage z)) zpages @ metrics_routes pe)"
    unfolding set_map [symmetric] map_append keys own by blast+
  then show ?thesis unfolding metrics_mux_def by (intro handle_all_distinct [of "[]", unfolded append_Nil])
qed

lemma mux_lookup_metrics_mux:
  assumes "pages_apart zpages"
  shows "mux_lookup (map (\<lambda>(p, z). (p, Zpage z)) zpages @ metrics_routes pe) path = route_of zpages pe path"
proof -
  let ?z = "map (\<lambda>(p, z). (p, Zpage z)) zpages :: (string \<times> ('b, 'a) metrics_handler) list"
  let ?m = "?z @ metrics_routes pe"
  have pages: "HasPrefix p ''/debug/''" "\<not> HasPrefix p ''/debug/pprof''" "p \<noteq> ''/debug/vars''" if "p \<in> fst ` set zpages" for p
    using assms that unfolding pages_apart_def by blast+
  have other: "map_of zpages p = None"
    if "\<not> HasPrefix p ''/debug/'' \<or> HasPrefix p ''/debug/pprof'' \<or> p = ''/debug/vars''" for p
    using that pages by (metis map_of_eq_None_iff)
  show ?thesis
  proof (cases "path \<in> fst ` set (metrics_routes pe :: (string \<times> ('b, 'a) metrics_handler) list)")
    case True
    then obtain h where h: "map_of (metrics_routes pe :: (string \<times> ('b, 'a) metrics_handler) list) path = Some h"
      by (metis map_of_eq_None_iff not_Some_eq)
    have "\<forall>(p, h) \<in> set (metrics_routes pe). route_of zpages pe p = Served h"
      by (simp add: metrics_routes_def route_of_def HasPrefix_def)
    then have "route_of zpages pe path = Served h" using map_of_SomeD [OF h] by blast
    moreover have "\<forall>p \<in> fst ` set (metrics_routes pe :: (string \<times> ('b, 'a) metrics_handler) list).
        \<not> HasPrefix p ''/debug/'' \<or> HasPrefix p ''/debug/pprof'' \<or> p = ''/debug/vars''"
      by (simp add: metrics_routes_def HasPrefix_def)
    from other [OF bspec [OF this True]] have "map_of zpages path = None" .
    ultimately show ?thesis using h by (simp add: mux_lookup_def map_of_map_snd map_add_def)
  next
    case False
    then have own: "path \<notin> {''/metrics'', ''/debug/vars'', ''/debug/pprof/'', ''/debug/pprof/cmdline'',
        ''/debug/pprof/profile'', ''/debug/pprof/symbol'', ''/debug/pprof/trace''}"
      by (simp add: metrics_routes_def)
    have exact: "map_of ?m path = map_option Zpage (map_of zpages path)"
    proof -
      have "map_of (metrics_routes pe :: (string \<times> ('b, 'a) metrics_handler) list) path = None"
        using False by (simp only: map_of_eq_None_iff not_False_eq_True)
      then show ?thesis by (simp add: map_of_map_snd map_add_def split: option.split)
    qed
    have slash: "path @ ''/'' \<in> fst ` set ?m \<longleftrightarrow> path @ ''/'' \<in> fst ` set zpages \<or> path = ''/debug/pprof''"
      by (auto simp: metrics_routes_def image_Un image_image case_prod_beta append_eq_Cons_conv)
    show ?thesis
    proof (cases "HasPrefix path ''/debug/pprof/''")
      case True
      then have pprof: "HasPrefix path ''/debug/pprof''" "HasPrefix (path @ ''/'') ''/debug/pprof''" "path \<noteq> ''/debug/pprof''"
        by (auto simp: HasPrefix_iff)
      have "length p < length ''/debug/pprof/''" if "p \<in> fst ` set ?z" "subtree p \<and> HasPrefix path p" for p
      proof (rule ccontr)
        assume long: "\<not> length p < length ''/debug/pprof/''"
        from that(2) obtain t where "path = p @ t" by (auto simp: HasPrefix_iff)
        with long True have "HasPrefix p ''/debug/pprof/''" by (simp add: HasPrefix_def)
        then have "HasPrefix p ''/debug/pprof''" by (auto simp: HasPrefix_iff)
        moreover have "p \<in> fst ` set zpages" using that(1) by (force simp: image_image)
        ultimately show False using pages(2) by blast
      qed
      moreover have "longest (metrics_routes pe) path = Some (''/debug/pprof/'', Pprof_Index :: ('b, 'a) metrics_handler)"
        using True by (simp add: metrics_routes_def subtree_def)
      ultimately have "longest ?m path = Some (''/debug/pprof/'', Pprof_Index)"
        by (intro longest_last) blast+
      moreover have "path @ ''/'' \<notin> fst ` set zpages" using pages(2) pprof(2) by blast
      ultimately show ?thesis
        using own True pprof other [of path] unfolding mux_lookup_def exact slash by (simp add: route_of_def)
    next
      case False
      then have "longest (metrics_routes pe) path = (None :: (string \<times> ('b, 'a) metrics_handler) option)"
        by (simp add: metrics_routes_def subtree_def)
      then have "longest ?m path = map_option (\<lambda>(p, z). (p, Zpage z)) (longest zpages path)"
        by (simp add: longest_append_None longest_map)
      moreover have "map_of zpages ''/debug/pprof'' = None" by (rule other) (simp add: HasPrefix_def)
      ultimately show ?thesis
        using own False unfolding mux_lookup_def exact slash route_of_def
        by (auto simp: subtree_def mux_lookup_def split: option.splits)
    qed
  qed
qed

section \<open>Clean paths\<close>

text \<open>A canonical path is a slash and segments that are neither empty nor dots, perhaps with a slash after them.\<close>

definition good_segment :: "string \<Rightarrow> bool" where
  "good_segment w \<longleftrightarrow> w \<notin> {[], ''.'', ''..''} \<and> CHR ''/'' \<notin> set w"

definition canonical :: "string \<Rightarrow> bool" where
  "canonical c \<longleftrightarrow> (\<exists>ws. (\<forall>w \<in> set ws. good_segment w) \<and>
     (c = ''/'' @ Join ws ''/'' \<or> ws \<noteq> [] \<and> c = ''/'' @ Join ws ''/'' @ ''/''))"

lemma clean_segments_good:
  "\<forall>w \<in> set ws. good_segment w \<Longrightarrow> clean_segments out (ws @ rest) = clean_segments (rev ws @ out) rest"
  by (induction ws arbitrary: out) (auto simp: good_segment_def)

lemma good_clean_segments:
  "\<forall>w \<in> set out. good_segment w \<Longrightarrow> \<forall>w \<in> set ws. CHR ''/'' \<notin> set w \<Longrightarrow>
    \<forall>w \<in> set (clean_segments out ws). good_segment w"
proof (induction out ws rule: clean_segments.induct)
  case (2 out w ws)
  note ih = 2(1-3) and out = 2(4) and no_sep = 2(5)
  have tl: "\<forall>v \<in> set (tl out). good_segment v" using out by (cases out) auto
  have ws: "\<forall>v \<in> set ws. CHR ''/'' \<notin> set v" using no_sep by simp
  consider "w = [] \<or> w = ''.''" | "w \<notin> {[], ''.''}" "w = ''..''" | "w \<notin> {[], ''.''}" "w \<noteq> ''..''" by blast
  then show ?case
  proof cases
    case 1
    then show ?thesis using ih(1) [OF 1 out ws] by (auto simp only: clean_segments.simps if_True)
  next
    case 2
    then show ?thesis using ih(2) [OF _ 2(2) tl ws] by auto
  next
    case 3
    then have "\<forall>v \<in> set (w # out). good_segment v" using out no_sep by (simp add: good_segment_def)
    then show ?thesis using ih(3) [OF _ 3(2) _ ws] 3 by simp
  qed
qed simp

lemma canonical_clean_path: "canonical (clean_path p)"
proof (cases "p = []")
  case True
  then have "clean_path p = ''/'' @ Join [] ''/''" by (simp add: clean_path_def)
  then show ?thesis unfolding canonical_def by (intro exI [of _ "[]"]) simp
next
  case False
  let ?p = "if hd p \<noteq> CHR ''/'' then ''/'' @ p else p"
  let ?ws = "clean_segments [] (Split CHR ''/'' ?p)"
  have good: "\<forall>w \<in> set ?ws. good_segment w"
    by (rule good_clean_segments) (auto dest: Split_no_sep)
  have "clean_path p = ''/'' @ Join ?ws ''/'' \<or> ?ws \<noteq> [] \<and> clean_path p = ''/'' @ Join ?ws ''/'' @ ''/''"
    using False by (auto simp: clean_path_def rooted_Clean_def Let_def)
  with good show ?thesis unfolding canonical_def by blast
qed

lemma Join_snoc_empty: "ws \<noteq> [] \<Longrightarrow> Join ws sep @ sep = Join (ws @ [[]]) sep"
  by (induction ws sep rule: Join.induct) auto

lemma last_Join_good:
  assumes "\<forall>w \<in> set ws. good_segment w" "ws \<noteq> []"
  shows "Join ws ''/'' \<noteq> [] \<and> last (Join ws ''/'') \<noteq> CHR ''/''"
  using assms
proof (induction ws)
  case (Cons w ws)
  have "good_segment w" using Cons.prems(1) by simp
  then have w: "w \<noteq> []" "last w \<noteq> CHR ''/''"
    unfolding good_segment_def by (blast, metis insertI1 last_in_set)
  show ?case
  proof (cases "ws = []")
    case True
    then show ?thesis using w by simp
  next
    case False
    then have "Join ws ''/'' \<noteq> [] \<and> last (Join ws ''/'') \<noteq> CHR ''/''" using Cons by simp
    then show ?thesis unfolding Join_Cons [OF False] using w(1) by simp
  qed
qed simp

lemma clean_path_canonical:
  assumes "canonical c"
  shows "clean_path c = c"
proof -
  obtain ws where ws: "\<forall>w \<in> set ws. good_segment w"
      "c = ''/'' @ Join ws ''/'' \<or> ws \<noteq> [] \<and> c = ''/'' @ Join ws ''/'' @ ''/''"
    using assms by (auto simp: canonical_def)
  have no_sep: "\<forall>w \<in> set ws. CHR ''/'' \<notin> set w" using ws(1) by (simp add: good_segment_def)
  show ?thesis
  proof (cases "ws = []")
    case True
    with ws(2) show ?thesis by (simp add: clean_path_def rooted_Clean_def)
  next
    case False
    note last = last_Join_good [OF ws(1) False]
    have "rooted_Clean c = ''/'' @ Join ws ''/''"
    proof (cases "c = ''/'' @ Join ws ''/''")
      case True
      then have "Split CHR ''/'' c = [] # ws" using Split_Join [OF False no_sep] by simp
      then show ?thesis using clean_segments_good [OF ws(1), of "[]" "[]"] by (simp add: rooted_Clean_def)
    next
      case c: False
      then have "c = CHR ''/'' # Join (ws @ [[]]) ''/''" using ws(2) Join_snoc_empty [OF False] by simp
      then have "Split CHR ''/'' c = [] # ws @ [[]]" using Split_Join [of "ws @ [[]]"] no_sep by simp
      then show ?thesis using clean_segments_good [OF ws(1), of "[]" "[[]]"] by (simp add: rooted_Clean_def)
    qed
    with ws(2) last show ?thesis by (auto simp: clean_path_def)
  qed
qed

lemma canonical_slash:
  assumes "canonical c" "\<not> subtree c"
  shows "canonical (c @ ''/'')"
proof -
  obtain ws where ws: "\<forall>w \<in> set ws. good_segment w" "c = ''/'' @ Join ws ''/''"
    using assms by (auto simp: canonical_def subtree_def)
  with assms(2) have "ws \<noteq> []" by (auto simp: subtree_def)
  with ws show ?thesis unfolding canonical_def by (intro exI [of _ ws]) simp
qed

lemma mux_lookup_redirect:
  "mux_lookup m path = Redirected p \<Longrightarrow>
    p = path @ ''/'' \<and> \<not> subtree path \<and> (\<exists>h. mux_lookup m p = Served h)"
  by (auto simp: mux_lookup_def image_iff split: option.splits if_splits)
    (metis map_of_eq_None_iff image_eqI fst_conv)+

text \<open>A redirect is never answered by another one.\<close>

lemma dispatch_redirect:
  assumes "dispatch m (Request verb path) = Redirected p"
  shows "dispatch m (Request verb p) \<noteq> Redirected q"
proof (cases "verb = ''CONNECT''")
  case True
  then show ?thesis using assms mux_lookup_redirect [of m path p] by auto
next
  case False
  note clean = canonical_clean_path [of path]
  show ?thesis
  proof (cases "\<exists>r. mux_lookup m (clean_path path) = Redirected r")
    case True
    then have "mux_lookup m (clean_path path) = Redirected p" using assms False by auto
    from mux_lookup_redirect [OF this] obtain h where
      "p = clean_path path @ ''/''" "\<not> subtree (clean_path path)" "mux_lookup m p = Served h" by blast
    with clean_path_canonical [OF canonical_slash [OF clean]] False show ?thesis by simp
  next
    case no: False
    then have "p = clean_path path" using assms False by (auto split: served.splits if_splits)
    with no clean_path_canonical [OF clean] False show ?thesis by (auto split: served.splits)
  qed
qed

lemma ListenAndServe_cases [consumes 1, case_names Serve Failed Panicked]:
  assumes "ListenAndServe env defaultViews arg0 address w cvs = ((w', cvs'), r)"
  obtains (Serve) reg w3 w4 pe where "sv_NewExporter env PrometheusNamespace reg w3 = (w4, Ok pe)"
      "register_and_serve env defaultViews address pe (sv_RegisterExporter env pe w4) cvs = ((w', cvs'), r)"
    | (Failed) err w1 where "r = Failed err" "cvs' = cvs"
      "sv_NewNodeCollector env w1 = (w', Error err) \<or> buildProcCollector env arg0 w1 = (w', Error err) \<or>
       (\<exists>reg e. sv_NewExporter env PrometheusNamespace reg w1 = (w', Error e) \<and>
          err = Wrapf ''failed to create exporter: '' e)"
    | (Panicked) p where "r = Panicked p" "cvs' = cvs"
  using assms unfolding ListenAndServe_def
  by (force split: prod.splits outcome.splits)

text \<open>The last part: the registration fails, or listening does, or the mux with all routes is served.\<close>

lemma register_and_serve_cases [consumes 2, case_names Unregistered Unheard Served]:
  assumes "pages_apart (sv_zpages env ''/debug'')"
    and "register_and_serve env defaultViews address pe w cvs = ((w', cvs'), r)"
  obtains (Unregistered) e where "sv_Register env (defaultViews @ tagged_views cvs) w = (w', Some e)"
      "r = Failed (Wrapf ''failed to register hydra views: '' e)" "cvs' = tagged_views cvs"
    | (Unheard) w5 err where "sv_Register env (defaultViews @ tagged_views cvs) w = (w5, None)"
      "sv_Listen env address w5 = (w', Some err)" "r = Failed err" "cvs' = tagged_views cvs"
    | (Served) w5 where "sv_Register env (defaultViews @ tagged_views cvs) w = (w5, None)"
      "sv_Listen env address w5 = (w', None)" "cvs' = tagged_views cvs"
      "r = Serving address (defaultViews @ tagged_views cvs)
         (map (\<lambda>(p, z). (p, Zpage z)) (sv_zpages env ''/debug'') @ metrics_routes pe)"
  using assms(2) unfolding register_and_serve_def add_name_tags_eq metrics_mux_ok [OF assms(1)] Let_def prod.case
  by (auto split: prod.splits option.splits)

text \<open>How the routes answer requests.\<close>

lemma dispatch_metrics_mux:
  assumes "pages_apart zpages"
  defines "m \<equiv> \<lambda>pe. map (\<lambda>(p, z). (p, Zpage z)) zpages @ metrics_routes pe"
  shows "dispatch (m pe) (Request ''CONNECT'' path) = route_of zpages pe path"
    "verb \<noteq> ''CONNECT'' \<Longrightarrow> dispatch (m pe) (Request verb path) =
      (case route_of zpages pe (clean_path path) of
         Redirected p \<Rightarrow> Redirected p
       | answer \<Rightarrow> if clean_path path = path then answer else Redirected (clean_path path))"
  by (simp_all add: m_def mux_lookup_metrics_mux [OF assms(1)] split: served.split)

section \<open>Properties\<close>

text \<open>
  C40: the metrics endpoint. When \<open>ListenAndServe\<close> comes to serve, it serves at the given address with
  the exporter made for the namespace of the application, after it has registered all default views
  and every view of the client with the name tag added, which stays on the client's own views; and
  every request is answered by the table \<open>route_of\<close>: the scrape at \<open>/metrics\<close> is the exporter's,
  everything below \<open>/debug/pprof/\<close> that has no page of its own is the index, and the pages of the library
  keep their paths. A path that is not clean is redirected to its clean form unless the method is
  \<open>CONNECT\<close>, and no redirect is answered by another one. When it fails, either a collector or the
  exporter failed and the client's views are unchanged, or they carry the name tag and the registration
  failed, or the registration succeeded and the address could not be listened on.
\<close>

theorem metrics_endpoint:
  assumes "pages_apart (sv_zpages env ''/debug'')"
    and "ListenAndServe env defaultViews arg0 address w cvs = ((w', cvs'), r)"
  shows "(case r of
      Serving a views m \<Rightarrow> a = address \<and> cvs' = tagged_views cvs \<and> views = defaultViews @ cvs' \<and>
        (\<exists>pe reg w3 w4 w5. sv_NewExporter env PrometheusNamespace reg w3 = (w4, Ok pe) \<and>
           sv_Register env views (sv_RegisterExporter env pe w4) = (w5, None) \<and>
           sv_Listen env address w5 = (w', None) \<and>
           dispatch m Whole_Server = Bad_Request \<and>
           (\<forall>path. dispatch m (Request ''CONNECT'' path) = route_of (sv_zpages env ''/debug'') pe path) \<and>
           (\<forall>verb path. verb \<noteq> ''CONNECT'' \<longrightarrow> dispatch m (Request verb path) =
              (case route_of (sv_zpages env ''/debug'') pe (clean_path path) of
                 Redirected p \<Rightarrow> Redirected p
               | answer \<Rightarrow> if clean_path path = path then answer else Redirected (clean_path path))) \<and>
           (\<forall>verb path p q. dispatch m (Request verb path) = Redirected p \<longrightarrow>
              dispatch m (Request verb p) \<noteq> Redirected q))
    | Failed err \<Rightarrow>
        cvs' = cvs \<and> (\<exists>w1. sv_NewNodeCollector env w1 = (w', Error err) \<or>
          buildProcCollector env arg0 w1 = (w', Error err) \<or>
          (\<exists>reg e. sv_NewExporter env PrometheusNamespace reg w1 = (w', Error e) \<and>
             err = Wrapf ''failed to create exporter: '' e)) \<or>
        cvs' = tagged_views cvs \<and>
          (\<exists>w4 e. sv_Register env (defaultViews @ cvs') w4 = (w', Some e) \<and>
             err = Wrapf ''failed to register hydra views: '' e) \<or>
        cvs' = tagged_views cvs \<and>
          (\<exists>w4 w5. sv_Register env (defaultViews @ cvs') w4 = (w5, None) \<and>
             sv_Listen env address w5 = (w', Some err))
    | Panicked p \<Rightarrow> cvs' = cvs)"
  using assms(2)
proof (cases rule: ListenAndServe_cases)
  case (Serve reg w3 w4 pe)
  from assms(1) Serve(2) show ?thesis
  proof (cases rule: register_and_serve_cases)
    case (Served w5)
    show ?thesis
      unfolding Served served_at.case
      by (intro conjI refl, rule exI [of _ pe], rule exI [of _ reg], rule exI [of _ w3], rule exI [of _ w4],
          rule exI [of _ w5], intro conjI allI impI)
        (use Serve(1) Served(1,2) in \<open>simp_all only: dispatch.simps(1) dispatch_metrics_mux [OF assms(1)]
          dispatch_redirect not_False_eq_True\<close>)
  qed auto
qed auto

text \<open>An endpoint whose libraries succeed, with one view of the client; one address is in use.\<close>

definition example_server ::
    "(view list, unit, unit, unit, unit, unit, string, nat) server_env" where
  "example_server =
     \<lparr>sv_ToConfig = (\<lambda>rules. Ok ()), sv_MatchNamers = (\<lambda>cfg. ()), sv_NewProcessCollector = (\<lambda>o1 w. (w, Ok ())),
      sv_NewNodeCollector = (\<lambda>w. (w, Ok ())), sv_MustRegister = (\<lambda>cs w. (w, Ok ())),
      sv_NewExporter = (\<lambda>ns reg w. (w, Ok ns)), sv_RegisterExporter = (\<lambda>pe w. w),
      sv_Register = (\<lambda>views w. (w @ views, None)),
      sv_zpages = (\<lambda>p. [(p @ ''/rpcz'', 1), (p @ ''/tracez'', 2), (p @ ''/public/'', 3)]),
      sv_Listen = (\<lambda>a w. (w, if a = '':80'' then Some (Errorf ''address in use'') else None))\<rparr>"

lemma example_pages: "pages_apart (sv_zpages example_server ''/debug'')"
  by (simp add: pages_apart_def example_server_def HasPrefix_def)

lemma example_ListenAndServe:
  "ListenAndServe example_server [HeadsView] ''hydra'' a [] [UniquePeersView] =
     (let views = [HeadsView, View UniquePeers [''name'', ''name''] LastValue] in
      ((views, tl views),
       if a = '':80'' then Failed (Errorf ''address in use'')
       else Serving a views (map (\<lambda>(p, z). (p, Zpage z)) (sv_zpages example_server ''/debug'') @
         metrics_routes ''hydrabooster'')))"
  using metrics_mux_ok [OF example_pages, of "''hydrabooster''"]
  by (simp add: ListenAndServe_def register_and_serve_def buildProcCollector_def example_server_def Let_def
      UniquePeersView_def PrometheusNamespace_def)

theorem metrics_endpoint_witness:
  "\<exists>m w' pe. ListenAndServe example_server [HeadsView] ''hydra'' '':8888'' [] [UniquePeersView] =
      ((w', [View UniquePeers [''name'', ''name''] LastValue]),
       Serving '':8888'' [HeadsView, View UniquePeers [''name'', ''name''] LastValue] m) \<and>
    dispatch m (Request ''GET'' ''/metrics'') = Served (Exporter pe) \<and>
    dispatch m (Request ''GET'' ''/debug/pprof/heap'') = Served Pprof_Index \<and>
    dispatch m (Request ''GET'' ''/debug/../metrics'') = Redirected ''/metrics'' \<and>
    ListenAndServe example_server [HeadsView] ''hydra'' '':80'' [] [UniquePeersView] =
      ((w', [View UniquePeers [''name'', ''name''] LastValue]), Failed (Errorf ''address in use''))"
proof -
  let ?tagged = "View UniquePeers [''name'', ''name''] LastValue"
  let ?m = "map (\<lambda>(p, z). (p, Zpage z)) (sv_zpages example_server ''/debug'') @ metrics_routes ''hydrabooster''"
  have run: "ListenAndServe example_server [HeadsView] ''hydra'' '':8888'' [] [UniquePeersView] =
      (([HeadsView, ?tagged], [?tagged]), Serving '':8888'' [HeadsView, ?tagged] ?m)"
    and failed: "ListenAndServe example_server [HeadsView] ''hydra'' '':80'' [] [UniquePeersView] =
      (([HeadsView, ?tagged], [?tagged]), Failed (Errorf ''address in use''))"
    by (simp_all add: example_ListenAndServe Let_def)
  obtain pe where routes: "\<forall>verb path. verb \<noteq> ''CONNECT'' \<longrightarrow> dispatch ?m (Request verb path) =
      (case route_of (sv_zpages example_server ''/debug'') pe (clean_path path) of
         Redirected p \<Rightarrow> Redirected p
       | answer \<Rightarrow> if clean_path path = path then answer else Redirected (clean_path path))"
    using metrics_endpoint [OF example_pages run] unfolding served_at.case by (elim conjE exE)
  have clean: "clean_path ''/metrics'' = ''/metrics''" "clean_path ''/debug/pprof/heap'' = ''/debug/pprof/heap''"
      "clean_path ''/debug/../metrics'' = ''/metrics''"
    by (simp_all add: clean_path_def rooted_Clean_def)
  have "dispatch ?m (Request ''GET'' ''/metrics'') = Served (Exporter pe)"
      "dispatch ?m (Request ''GET'' ''/debug/pprof/heap'') = Served Pprof_Index"
      "dispatch ?m (Request ''GET'' ''/debug/../metrics'') = Redirected ''/metrics''"
    using routes [rule_format, of "''GET''" "''/metrics''"] routes [rule_format, of "''GET''" "''/debug/pprof/heap''"]
      routes [rule_format, of "''GET''" "''/debug/../metrics''"]
    by (simp_all del: dispatch.simps add: clean route_of_def HasPrefix_def)
  with run failed show ?thesis by blast
qed

end
