(* ===== verification/Ui_Fetch.thy ===== *)
theory Ui_Fetch
  imports Ui
begin

text \<open>
  \<open>Render\<close> of \<^verbatim>\<open>src/ui/ui.go\<close> as a whole: the goroutine that fetches the metrics, the channel \<open>mC\<close>, which has
  no buffer, and the rendering loop of theory \<open>Ui\<close>, which is the function \<open>Render\<close> on the events its
  \<open>select\<close> has received.

  A step is what one of the two does between waiting for the timer, the endpoint, the channel, the
  ticker or the context. The endpoint answers with metrics or an error of its choice, and takes its
  time. The send on \<open>mC\<close> is not in a \<open>select\<close>: it succeeds only with a rendering loop that receives.
\<close>

section \<open>The code\<close>

datatype 'f fetch_phase =
    Idle                         \<comment> \<open>in the \<open>select\<close> on the timer and the context\<close>
  | Getting                      \<comment> \<open>in \<open>client.GetMetrics\<close>\<close>
  | Sending "'f metric list"     \<comment> \<open>at \<open>mC <- ms\<close>\<close>
  | Stopped

record 'f ui_state =
  us_now :: int
  us_ctxDone :: bool
  us_fetch :: "'f fetch_phase"
  us_due :: int                          \<comment> \<open>when the timer fires\<close>
  us_fetched :: "'f metric list list"    \<comment> \<open>the answers of the endpoint so far\<close>
  us_printed :: "go_error list"
  us_events :: "'f ui_event list"        \<comment> \<open>received by the rendering loop\<close>
  us_returned :: bool                    \<comment> \<open>\<open>Render\<close> has returned\<close>

text \<open>\<open>time.NewTimer(0)\<close>; an unknown theme has no loop.\<close>

definition ui_started :: "ui \<Rightarrow> int \<Rightarrow> 'f ui_state" where
  "ui_started u now =
     \<lparr>us_now = now, us_ctxDone = False, us_fetch = Idle, us_due = now, us_fetched = [], us_printed = [],
      us_events = [], us_returned = (ui_theme u = Other_Theme)\<rparr>"

definition fetch_reset :: "ui \<Rightarrow> 'f ui_state \<Rightarrow> 'f ui_state" where
  "fetch_reset u s = s\<lparr>us_fetch := Idle, us_due := us_now s + uo_RefreshPeriod (ui_opts u)\<rparr>"

definition since_start :: "ui \<Rightarrow> 'f ui_state \<Rightarrow> int" where
  "since_start u s = us_now s - uo_Start (ui_opts u)"

definition render_receive :: "'f ui_event \<Rightarrow> 'f ui_state \<Rightarrow> 'f ui_state" where
  "render_receive ev s = s\<lparr>us_events := us_events s @ [ev]\<rparr>"

inductive ui_step :: "ui \<Rightarrow> 'f ui_state \<Rightarrow> 'f ui_state \<Rightarrow> bool" for u where
  tick: "0 < d \<Longrightarrow> ui_step u s (s\<lparr>us_now := us_now s + d\<rparr>)"
| cancel: "ui_step u s (s\<lparr>us_ctxDone := True\<rparr>)"
| fetch: "us_fetch s = Idle \<Longrightarrow> us_due s \<le> us_now s \<Longrightarrow> ui_step u s (s\<lparr>us_fetch := Getting\<rparr>)"
| answer: "us_fetch s = Getting \<Longrightarrow>
    ui_step u s (s\<lparr>us_fetch := Sending ms, us_fetched := us_fetched s @ [ms]\<rparr>)"
| failure: "us_fetch s = Getting \<Longrightarrow>
    ui_step u s (fetch_reset u (s\<lparr>us_printed := us_printed s @ [err]\<rparr>))"
| stop: "us_fetch s = Idle \<Longrightarrow> us_ctxDone s \<Longrightarrow> ui_step u s (s\<lparr>us_fetch := Stopped\<rparr>)"
| deliver: "us_fetch s = Sending ms \<Longrightarrow> \<not> us_returned s \<Longrightarrow>
    ui_step u s (fetch_reset u (render_receive (Scraped ms (since_start u s)) s))"
| second: "ui_theme u = Gooey \<Longrightarrow> \<not> us_returned s \<Longrightarrow>
    ui_step u s (render_receive (Second_Passed (since_start u s)) s)"
| leave: "\<not> us_returned s \<Longrightarrow> us_ctxDone s \<Longrightarrow>
    ui_step u s ((render_receive Cancelled s)\<lparr>us_returned := True\<rparr>)"

inductive_cases ui_stepE: "ui_step u s s'"

lemmas ui_defs = fetch_reset_def render_receive_def since_start_def

section \<open>Invariant\<close>

definition scraped :: "'f ui_event list \<Rightarrow> 'f metric list list" where
  "scraped evs = concat (map (\<lambda>ev. case ev of Scraped ms since \<Rightarrow> [ms] | _ \<Rightarrow> []) evs)"

definition sending :: "'f ui_state \<Rightarrow> 'f metric list list" where
  "sending s = (case us_fetch s of Sending ms \<Rightarrow> [ms] | _ \<Rightarrow> [])"

definition ui_inv :: "ui \<Rightarrow> 'f ui_state \<Rightarrow> bool" where
  "ui_inv u s \<longleftrightarrow>
     us_fetched s = scraped (us_events s) @ sending s \<and>
     (ui_theme u \<noteq> Other_Theme \<longrightarrow> us_returned s = (Cancelled \<in> set (us_events s))) \<and>
     Cancelled \<notin> set (butlast (us_events s)) \<and>
     (us_returned s \<longrightarrow> us_ctxDone s \<or> ui_theme u = Other_Theme) \<and> (us_fetch s = Stopped \<longrightarrow> us_ctxDone s) \<and>
     (ui_theme u = Logey \<longrightarrow> (\<forall>ev \<in> set (us_events s). \<forall>t. ev \<noteq> Second_Passed t)) \<and>
     (ui_theme u = Other_Theme \<longrightarrow> us_returned s)"

lemma scraped_simps [simp]:
  "scraped [] = []" "scraped (evs @ [Scraped ms since]) = scraped evs @ [ms]"
  "scraped (evs @ [Second_Passed t]) = scraped evs" "scraped (evs @ [Cancelled]) = scraped evs"
  by (simp_all add: scraped_def)

lemma ui_started_inv: "ui_inv u (ui_started u now)"
  by (simp add: ui_inv_def ui_started_def sending_def)

lemma butlast_clean: "x \<notin> set (butlast xs) \<Longrightarrow> x \<notin> set xs \<or> xs \<noteq> [] \<and> last xs = x"
  by (cases xs rule: rev_cases) auto

lemma ui_step_inv: "ui_step u s s' \<Longrightarrow> ui_inv u s \<Longrightarrow> ui_inv u s'"
proof (induction rule: ui_step.induct)
  case (deliver s ms)
  then have "Cancelled \<notin> set (us_events s)" "ui_theme u \<noteq> Other_Theme" by (auto simp: ui_inv_def)
  with deliver show ?case by (auto simp: ui_inv_def sending_def ui_defs)
next
  case (second s)
  then have "Cancelled \<notin> set (us_events s)" by (auto simp: ui_inv_def)
  with second show ?case by (auto simp: ui_inv_def sending_def ui_defs)
next
  case (leave s)
  then have "Cancelled \<notin> set (us_events s)" "ui_theme u \<noteq> Other_Theme" by (auto simp: ui_inv_def)
  with leave show ?case by (auto simp: ui_inv_def sending_def ui_defs)
qed (auto simp: ui_inv_def sending_def ui_defs)

lemma ui_steps_inv: "(ui_step u)\<^sup>*\<^sup>* s s' \<Longrightarrow> ui_inv u s \<Longrightarrow> ui_inv u s'"
  by (induction rule: rtranclp_induct) (auto intro: ui_step_inv)

section \<open>What is on the screen\<close>

text \<open>The six lines of the interactive theme that show metrics.\<close>

definition metric_lines :: "'f ui_env \<Rightarrow> 'f metric list \<Rightarrow> string list" where
  "metric_lines env ms =
     [show_strings (labelValues (findByName ms (nsName Heads)) ''peer_id''),
      ue_show env (metric_value env ms (nsName ConnectedPeers)) @ '' peers'',
      ue_show env (metric_value env ms (nsName UniquePeers)),
      ue_Bytes env (metric_value env ms ''go_memstats_alloc_bytes''),
      ue_show env (metric_value env ms (nsName ProviderRecords)),
      ue_show env (metric_value env ms (nsName RoutingTableSize))]"

lemma texts_after_lines:
  "length vs = 7 \<Longrightarrow> length (texts_after env ev vs) = 7"
  "take 6 (texts_after env (Scraped ms since) vs) = metric_lines env ms"
  "length vs = 7 \<Longrightarrow> take 6 (texts_after env (Second_Passed t) vs) = take 6 vs"
  by (cases ev) (simp_all add: metric_lines_def)

lemma fold_texts:
  "length vs = 7 \<Longrightarrow> Cancelled \<notin> set evs \<Longrightarrow>
   length (fold (texts_after env) evs vs) = 7 \<and>
   take 6 (fold (texts_after env) evs vs) =
     (if scraped evs = [] then take 6 vs else metric_lines env (last (scraped evs)))"
proof (induction evs rule: rev_induct)
  case (snoc ev evs)
  then show ?case by (cases ev) (simp_all add: texts_after_lines del: texts_after.simps)
qed simp

lemma takeWhile_live:
  assumes "Cancelled \<notin> set (butlast evs)"
  shows "\<exists>live. takeWhile (\<lambda>ev. ev \<noteq> Cancelled) evs = live \<and> Cancelled \<notin> set live \<and> scraped live = scraped evs"
proof (cases evs rule: rev_cases)
  case (snoc live ev)
  then have all: "\<forall>x \<in> set live. x \<noteq> Cancelled" using assms by auto
  then have "Cancelled \<notin> set live" by blast
  with snoc all show ?thesis by (cases "ev = Cancelled") (simp_all add: takeWhile_append)
qed simp

lemma render_logey_live:
  "Cancelled \<notin> set evs \<Longrightarrow> render_logey env evs out =
     (out @ concat (map (\<lambda>ev. case ev of Scraped ms since \<Rightarrow> logey_line env ms since | _ \<Rightarrow> []) evs), False)"
  by (induction env evs out rule: render_logey.induct) auto

lemma render_logey_cancelled:
  "Cancelled \<notin> set evs \<Longrightarrow> render_logey env (evs @ [Cancelled]) out =
     (out @ concat (map (\<lambda>ev. case ev of Scraped ms since \<Rightarrow> logey_line env ms since | _ \<Rightarrow> []) evs), True)"
  by (induction env evs out rule: render_logey.induct) auto

lemma render_logey_events:
  assumes "Cancelled \<notin> set (butlast evs)"
  shows "render_logey env evs out =
     (out @ concat (map (\<lambda>ev. case ev of Scraped ms since \<Rightarrow> logey_line env ms since | _ \<Rightarrow> []) evs),
      Cancelled \<in> set evs)"
  using assms
proof (cases evs rule: rev_cases)
  case (snoc live ev)
  with assms show ?thesis
    by (cases "ev = Cancelled") (auto simp: render_logey_live render_logey_cancelled simp del: render_logey.simps)
qed simp

section \<open>A run\<close>

definition example_ui :: "theme \<Rightarrow> ui" where
  "example_ui th = \<lparr>ui_theme = th, ui_opts = \<lparr>uo_MetricsURL = ''http://h/metrics'', uo_Start = 0, uo_Writer = Stderr, uo_RefreshPeriod = 5\<rparr>\<rparr>"

definition example_ui_env :: "nat ui_env" where
  "example_ui_env =
     \<lparr>ue_zero = 0, ue_add = (+), ue_show = (\<lambda>n. Itoa (int n)), ue_Bytes = (\<lambda>n. Itoa (int n) @ '' B''),
      ue_Hours = (\<lambda>d. d div 3600), ue_Minutes = (\<lambda>d. d div 60), ue_Seconds = (\<lambda>d. d), ue_show_duration = Itoa\<rparr>"

definition example_metrics :: "nat metric list" where
  "example_metrics =
     [\<lparr>mt_Name = ''hydrabooster_heads'', mt_Samples = [\<lparr>sm_Labels = [''peer_id'' \<mapsto> ''QmA''], sm_Value = 1\<rparr>]\<rparr>]"

text \<open>An answer is on its way, and has arrived.\<close>

definition example_sending :: "theme \<Rightarrow> nat ui_state" where
  "example_sending th =
     (ui_started (example_ui th) 0)\<lparr>us_fetch := Sending example_metrics, us_fetched := [example_metrics]\<rparr>"

definition example_shown :: "theme \<Rightarrow> nat ui_state" where
  "example_shown th = fetch_reset (example_ui th)
     (render_receive (Scraped example_metrics 0) (example_sending th))"

definition example_stuck :: "theme \<Rightarrow> nat ui_state" where
  "example_stuck th =
     (render_receive Cancelled ((example_sending th)\<lparr>us_ctxDone := True\<rparr>))\<lparr>us_returned := True\<rparr>"

lemma example_sending_reach: "(ui_step (example_ui th))\<^sup>*\<^sup>* (ui_started (example_ui th) 0) (example_sending th)"
proof -
  let ?s0 = "ui_started (example_ui th) 0 :: nat ui_state"
  have "ui_step (example_ui th) ?s0 (?s0\<lparr>us_fetch := Getting\<rparr>)"
    by (intro ui_step.fetch) (simp_all add: ui_started_def)
  moreover have "ui_step (example_ui th) (?s0\<lparr>us_fetch := Getting\<rparr>) (example_sending th)"
    using ui_step.answer [of "?s0\<lparr>us_fetch := Getting\<rparr>" "example_ui th" example_metrics]
    by (simp add: example_sending_def ui_started_def)
  ultimately show ?thesis by (meson converse_rtranclp_into_rtranclp rtranclp.rtrancl_refl)
qed

lemma example_shown_reach:
  "(ui_step (example_ui Gooey))\<^sup>*\<^sup>* (ui_started (example_ui Gooey) 0) (example_shown Gooey)"
proof -
  have "ui_step (example_ui Gooey) (example_sending Gooey) (example_shown Gooey)"
    using ui_step.deliver [of "example_sending Gooey" example_metrics "example_ui Gooey"]
    by (simp add: example_shown_def example_sending_def ui_started_def since_start_def example_ui_def)
  with example_sending_reach show ?thesis by (rule rtranclp.rtrancl_into_rtrancl)
qed

lemma example_stuck_reach:
  "(ui_step (example_ui Gooey))\<^sup>*\<^sup>* (ui_started (example_ui Gooey) 0) (example_stuck Gooey)"
proof -
  let ?s = "(example_sending Gooey)\<lparr>us_ctxDone := True\<rparr>"
  have "ui_step (example_ui Gooey) (example_sending Gooey) ?s" by (rule ui_step.cancel)
  moreover have "ui_step (example_ui Gooey) ?s (example_stuck Gooey)"
    unfolding example_stuck_def
    by (rule ui_step.leave) (simp_all add: example_sending_def ui_started_def example_ui_def)
  ultimately show ?thesis using example_sending_reach [of Gooey] by (meson rtranclp.rtrancl_into_rtrancl)
qed

section \<open>Properties\<close>

text \<open>
  C37: what is shown is what was fetched. In every reachable state of fetching and rendering, each
  answer of the endpoint has reached the loop exactly once and in order, except the one being sent;
  \<open>Render\<close> has not panicked, and it has returned exactly when it has seen the cancelled context. The
  interactive theme shows in its first six lines the values of the latest answer that arrived, and
  the logging theme has written one line for each answer, in order.
\<close>

theorem ui_shows_fetched:
  assumes "(ui_step u)\<^sup>*\<^sup>* (ui_started u now) s"
  shows "us_fetched s = scraped (us_events s) @ (case us_fetch s of Sending ms \<Rightarrow> [ms] | _ \<Rightarrow> []) \<and>
    (ui_theme u = Gooey \<longrightarrow>
       (\<exists>a out1. render_gooey env (us_events s) out = Ok (a, out1, us_returned s) \<and>
          Render u env (us_events s) out = Ok (out1, us_returned s) \<and>
          (scraped (us_events s) \<noteq> [] \<longrightarrow>
             take 6 (map dl_LastVal (ga_DataFields a)) = metric_lines env (last (scraped (us_events s)))))) \<and>
    (ui_theme u = Logey \<longrightarrow>
       Render u env (us_events s) out =
         Ok (out @ concat (map (\<lambda>ev. case ev of Scraped ms since \<Rightarrow> logey_line env ms since | _ \<Rightarrow> []) (us_events s)),
             us_returned s))"
proof -
  have inv: "ui_inv u s" using ui_steps_inv [OF assms ui_started_inv] .
  then have f: "us_fetched s = scraped (us_events s) @ sending s" "Cancelled \<notin> set (butlast (us_events s))"
    "ui_theme u \<noteq> Other_Theme \<Longrightarrow> us_returned s = (Cancelled \<in> set (us_events s))" by (simp_all add: ui_inv_def)
  obtain a out1 where g: "render_gooey env (us_events s) out = Ok (a, out1, Cancelled \<in> set (us_events s))"
      "map dl_LastVal (ga_DataFields a) =
         fold (texts_after env) (takeWhile (\<lambda>ev. ev \<noteq> Cancelled) (us_events s)) (replicate 7 [])"
    using render_gooey_shows_latest by blast
  obtain live where live: "takeWhile (\<lambda>ev. ev \<noteq> Cancelled) (us_events s) = live" "Cancelled \<notin> set live"
      "scraped live = scraped (us_events s)" using takeWhile_live [OF f(2)] by blast
  have "take 6 (map dl_LastVal (ga_DataFields a)) = metric_lines env (last (scraped (us_events s)))"
    if "scraped (us_events s) \<noteq> []"
    using fold_texts [of "replicate 7 []" live env] live that unfolding g(2) by simp
  with g(1) f show ?thesis
    by (auto simp: Render_def bind_ui_def sending_def render_logey_events)
qed

theorem ui_shows_fetched_witness:
  "\<exists>a out1. render_gooey example_ui_env (us_events (example_shown Gooey)) [] = Ok (a, out1, False) \<and>
     take 6 (map dl_LastVal (ga_DataFields a)) = metric_lines example_ui_env example_metrics \<and>
     hd (metric_lines example_ui_env example_metrics) = ''[QmA]''"
proof -
  have "scraped (us_events (example_shown Gooey)) = [example_metrics]" "\<not> us_returned (example_shown Gooey)"
      "ui_theme (example_ui Gooey) = Gooey"
    by (simp_all add: example_shown_def example_sending_def ui_defs ui_started_def example_ui_def scraped_def)
  with ui_shows_fetched [OF example_shown_reach, of example_ui_env "[]"]
  show ?thesis
    by (auto simp: metric_lines_def example_metrics_def labelValues_def nsName_def PrometheusNamespace_def Heads_def show_strings_def)
qed

text \<open>
  The interface keeps refreshing. As long as the context is not done, from every reachable state
  any answer of the endpoint can still reach the loop, so fetching and rendering never block each
  other.
\<close>

theorem ui_refreshes:
  assumes "(ui_step u)\<^sup>*\<^sup>* (ui_started u now) s" "ui_theme u \<noteq> Other_Theme" "\<not> us_ctxDone s"
  shows "\<exists>s' since. (ui_step u)\<^sup>*\<^sup>* s s' \<and> us_events s' \<noteq> [] \<and> last (us_events s') = Scraped ms since \<and> \<not> us_returned s'"
proof -
  have inv: "ui_inv u s" using ui_steps_inv [OF assms(1) ui_started_inv] .
  then have live: "\<not> us_returned s" "us_fetch s \<noteq> Stopped" using assms(2,3) by (auto simp: ui_inv_def)
  have send: "\<exists>s2 since. (ui_step u)\<^sup>*\<^sup>* s1 s2 \<and> us_events s2 \<noteq> [] \<and> last (us_events s2) = Scraped ms since \<and> \<not> us_returned s2"
    if "us_fetch s1 = Getting" "\<not> us_returned s1" for s1
  proof -
    let ?s1 = "s1\<lparr>us_fetch := Sending ms, us_fetched := us_fetched s1 @ [ms]\<rparr>"
    have "ui_step u s1 ?s1" using ui_step.answer that(1) by blast
    moreover have "ui_step u ?s1 (fetch_reset u (render_receive (Scraped ms (since_start u ?s1)) ?s1))"
      using that(2) by (intro ui_step.deliver) simp_all
    ultimately show ?thesis using that(2)
      by (intro exI [of _ "fetch_reset u (render_receive (Scraped ms (since_start u ?s1)) ?s1)"] exI [of _ "since_start u ?s1"])
        (auto simp: ui_defs)
  qed
  have get: "\<exists>s1. (ui_step u)\<^sup>*\<^sup>* s0 s1 \<and> us_fetch s1 = Getting \<and> \<not> us_returned s1"
    if idle: "us_fetch s0 = Idle" "\<not> us_returned s0" for s0
  proof -
    let ?d = "1 + max 0 (us_due s0 - us_now s0)"
    let ?s1 = "s0\<lparr>us_now := us_now s0 + ?d\<rparr>"
    have "ui_step u s0 ?s1" by (intro ui_step.tick) simp
    moreover have "ui_step u ?s1 (?s1\<lparr>us_fetch := Getting\<rparr>)" using idle(1) by (intro ui_step.fetch) simp_all
    ultimately show ?thesis using idle(2) by (intro exI [of _ "?s1\<lparr>us_fetch := Getting\<rparr>"]) auto
  qed
  obtain s1 where s1: "(ui_step u)\<^sup>*\<^sup>* s s1" "us_fetch s1 = Getting" "\<not> us_returned s1"
  proof (cases "us_fetch s")
    case Idle
    with get live that show thesis by blast
  next
    case (Sending ms0)
    let ?s0 = "fetch_reset u (render_receive (Scraped ms0 (since_start u s)) s)"
    have "ui_step u s ?s0" using ui_step.deliver [OF Sending live(1)] .
    moreover obtain s1 where "(ui_step u)\<^sup>*\<^sup>* ?s0 s1" "us_fetch s1 = Getting" "\<not> us_returned s1"
      using get [of ?s0] live(1) by (auto simp: ui_defs)
    ultimately show thesis using that by (meson converse_rtranclp_into_rtranclp)
  qed (use live that in blast)+
  from send [OF s1(2,3)] s1(1) show ?thesis by (meson rtranclp_trans)
qed

theorem ui_refreshes_witness:
  "\<exists>s' since. (ui_step (example_ui Gooey))\<^sup>*\<^sup>* (example_shown Gooey) s' \<and>
     last (us_events s') = Scraped example_metrics since"
proof -
  have "ui_theme (example_ui Gooey) \<noteq> Other_Theme" "\<not> us_ctxDone (example_shown Gooey)"
    by (simp_all add: example_ui_def example_shown_def example_sending_def ui_defs ui_started_def)
  from ui_refreshes [OF example_shown_reach this, of example_metrics] show ?thesis by blast
qed

text \<open>
  C38: a cancelled interface may keep its fetcher. When \<open>Render\<close> has returned while the fetching goroutine
  is sending an answer, nothing receives from the channel any more: in every continuation the
  goroutine is still at its send, so it never ends.
\<close>

theorem ui_fetcher_stuck:
  assumes "us_returned s" "us_fetch s = Sending ms" "(ui_step u)\<^sup>*\<^sup>* s s'"
  shows "us_fetch s' = Sending ms \<and> us_events s' = us_events s"
proof -
  have "us_returned s' \<and> us_fetch s' = Sending ms \<and> us_events s' = us_events s"
    using assms(3,1,2) by (induction rule: rtranclp_induct) (auto elim!: ui_stepE)
  then show ?thesis by simp
qed

theorem ui_fetcher_stuck_witness:
  "(ui_step (example_ui Gooey))\<^sup>*\<^sup>* (ui_started (example_ui Gooey) 0) (example_stuck Gooey) \<and>
   {s'. (ui_step (example_ui Gooey))\<^sup>*\<^sup>* (example_stuck Gooey) s'} \<subseteq> {s'. us_fetch s' = Sending example_metrics}"
proof -
  have "us_returned (example_stuck Gooey)" "us_fetch (example_stuck Gooey) = Sending example_metrics"
    by (simp_all add: example_stuck_def example_sending_def ui_defs)
  with ui_fetcher_stuck [of "example_stuck Gooey" example_metrics "example_ui Gooey"] example_stuck_reach
  show ?thesis by blast
qed

end
