(* ===== verification/Observation.thy ===== *)
theory Observation
  imports Rcmgr_Metrics Ui
begin

text \<open>
  What a hydra tells its observers: the measurements and the sketch of seen peers that \<open>NewHydra\<close> of
  \<^verbatim>\<open>src/hydra/hydra.go\<close> keeps for every head (the tags of the head's context, \<open>Heads\<close>, the notifications
  of connections, \<open>BootstrappedHeads\<close>), and \<open>GetUniquePeersCount\<close>. Then, end to end, how the rows of the
  registered views reach the interface of \<^verbatim>\<open>src/ui/ui.go\<close> through the Prometheus exporter.

  A head is named by its peer ID. The notifications of all heads are a list of observations, in any
  order; \<open>hyperLock\<close> makes each insertion into the sketch atomic. The sketch is the parameter
  \<open>hyperloglog\<close>, the exporter the hypothesis \<open>exports\<close>, and \<open>conv\<close> the conversion to \<open>float64\<close>.
\<close>

section \<open>The code\<close>

record 'l hyperloglog =
  hl_New :: 'l
  hl_Insert :: "bytes \<Rightarrow> 'l \<Rightarrow> 'l"
  hl_Estimate :: "'l \<Rightarrow> 64 word"

datatype observation =
    Head_Spawned string
  | Peer_Connected string bytes        \<comment> \<open>head and remote peer\<close>
  | Peer_Disconnected string
  | Head_Bootstrapped string           \<comment> \<open>\<open>status.Done\<close> in \<open>handleBootstrapStatus\<close>\<close>

record 'l observers =
  ob_hyperlog :: 'l
  ob_recorded :: "recording list"

text \<open>
  The contexts: the caller's \<open>ctx\<close>, with the name inserted if there is one, and \<open>hdCtx\<close>; \<open>None\<close> is the error
  of \<open>tag.New\<close>. The context that \<open>main\<close> passes to \<open>NewHydra\<close> has no tags, \<open>Map.empty\<close>.
\<close>

definition hydra_tags :: "tag_new \<Rightarrow> tags \<Rightarrow> string \<Rightarrow> tags option" where
  "hydra_tags newTags ctx name = (if name \<noteq> [] then newTags ctx [Insert KeyName name] else Some ctx)"

definition head_tags :: "tag_new \<Rightarrow> tags \<Rightarrow> string \<Rightarrow> tags option" where
  "head_tags newTags ctx hd_id = newTags ctx [Insert KeyPeerID hd_id]"

text \<open>\<open>stats.Record(hdCtx, m)\<close>; without a \<open>hdCtx\<close> the head has not been made.\<close>

definition record_for :: "tags option \<Rightarrow> measure \<Rightarrow> int \<Rightarrow> 'l observers \<Rightarrow> 'l observers" where
  "record_for hdCtx m v ob =
     (case hdCtx of None \<Rightarrow> ob | Some tags \<Rightarrow> ob\<lparr>ob_recorded := ob_recorded ob @ [(tags, [(m, v)])]\<rparr>)"

definition ConnectedF :: "'l hyperloglog \<Rightarrow> tags option \<Rightarrow> bytes \<Rightarrow> 'l observers \<Rightarrow> 'l observers" where
  "ConnectedF hl hdCtx remote ob =
     (let ob1 = ob\<lparr>ob_hyperlog := hl_Insert hl remote (ob_hyperlog ob)\<rparr>
      in record_for hdCtx ConnectedPeers 1 ob1)"

definition DisconnectedF :: "tags option \<Rightarrow> 'l observers \<Rightarrow> 'l observers" where
  "DisconnectedF hdCtx ob = record_for hdCtx ConnectedPeers (- 1) ob"

fun observe :: "'l hyperloglog \<Rightarrow> tag_new \<Rightarrow> tags \<Rightarrow> observation \<Rightarrow> 'l observers \<Rightarrow> 'l observers" where
  "observe hl newTags ctx (Head_Spawned h) ob = record_for (head_tags newTags ctx h) Heads 1 ob"
| "observe hl newTags ctx (Peer_Connected h remote) ob = ConnectedF hl (head_tags newTags ctx h) remote ob"
| "observe hl newTags ctx (Peer_Disconnected h) ob = DisconnectedF (head_tags newTags ctx h) ob"
| "observe hl newTags ctx (Head_Bootstrapped h) ob = record_for (head_tags newTags ctx h) BootstrappedHeads 1 ob"

definition new_observers :: "'l hyperloglog \<Rightarrow> 'l observers" where
  "new_observers hl = \<lparr>ob_hyperlog = hl_New hl, ob_recorded = []\<rparr>"

definition observed :: "'l hyperloglog \<Rightarrow> tag_new \<Rightarrow> tags \<Rightarrow> observation list \<Rightarrow> 'l observers" where
  "observed hl newTags ctx obs = fold (observe hl newTags ctx) obs (new_observers hl)"

definition GetUniquePeersCount :: "'l hyperloglog \<Rightarrow> 'l observers \<Rightarrow> 64 word" where
  "GetUniquePeersCount hl ob = hl_Estimate hl (ob_hyperlog ob)"

section \<open>Rows\<close>

text \<open>What one observation adds to a view of heads, under a name tag \<open>n\<close>.\<close>

fun ob_head :: "observation \<Rightarrow> string" where
  "ob_head (Head_Spawned h) = h"
| "ob_head (Peer_Connected h remote) = h"
| "ob_head (Peer_Disconnected h) = h"
| "ob_head (Head_Bootstrapped h) = h"

fun ob_measure :: "observation \<Rightarrow> measure" where
  "ob_measure (Head_Spawned h) = Heads"
| "ob_measure (Peer_Connected h remote) = ConnectedPeers"
| "ob_measure (Peer_Disconnected h) = ConnectedPeers"
| "ob_measure (Head_Bootstrapped h) = BootstrappedHeads"

fun ob_value :: "observation \<Rightarrow> int" where
  "ob_value (Peer_Disconnected h) = - 1"
| "ob_value _ = 1"

definition head_row :: "string \<Rightarrow> string \<Rightarrow> row" where
  "head_row name h = [Some name, Some h]"

definition recorded_as :: "string \<Rightarrow> observation \<Rightarrow> recording" where
  "recorded_as name ob = ([KeyName \<mapsto> name, KeyPeerID \<mapsto> ob_head ob], [(ob_measure ob, ob_value ob)])"

lemma hydra_tags_name:
  assumes "tag_library valid newTags" "name \<noteq> []" "valid name"
  shows "hydra_tags newTags Map.empty name = Some [KeyName \<mapsto> name]"
  using assms by (simp add: hydra_tags_def tag_library_def)

lemma head_tags_id:
  assumes "tag_library valid newTags" "valid h"
  shows "head_tags newTags [KeyName \<mapsto> name] h = Some [KeyName \<mapsto> name, KeyPeerID \<mapsto> h]"
  using assms by (simp add: head_tags_def tag_library_def)

lemma observe_records:
  assumes "tag_library valid newTags" "valid (ob_head ev)"
  shows "ob_recorded (observe hl newTags [KeyName \<mapsto> name] ev ob) = ob_recorded ob @ [recorded_as name ev]"
  using head_tags_id [OF assms, of name]
  by (cases ev) (simp_all add: record_for_def recorded_as_def ConnectedF_def DisconnectedF_def Let_def)

lemma observed_records:
  assumes "tag_library valid newTags" "\<forall>ev \<in> set evs. valid (ob_head ev)"
  shows "ob_recorded (fold (observe hl newTags [KeyName \<mapsto> name]) evs ob) =
    ob_recorded ob @ map (recorded_as name) evs"
  using assms(2) by (induction evs arbitrary: ob) (simp_all add: observe_records [OF assms(1)] del: key_defs)

lemma observed_recorded:
  assumes "tag_library valid newTags" "\<forall>ev \<in> set evs. valid (ob_head ev)"
  shows "ob_recorded (observed hl newTags [KeyName \<mapsto> name] evs) = map (recorded_as name) evs"
  by (simp add: observed_records [OF assms] observed_def new_observers_def del: key_defs)

definition value_in :: "measure \<Rightarrow> observation \<Rightarrow> int" where
  "value_in m ev = (if ob_measure ev = m then ob_value ev else 0)"

text \<open>The views with a row per head.\<close>

definition by_head :: "view \<Rightarrow> bool" where
  "by_head v \<longleftrightarrow> vw_TagKeys v = [KeyName, KeyPeerID] \<and> vw_Aggregation v = Sum"

lemma by_head_views [simp]: "by_head HeadsView" "by_head ConnectedPeersView" "by_head BootstrappedHeadsView"
  by (simp_all add: by_head_def HeadsView_def ConnectedPeersView_def BootstrappedHeadsView_def)

lemma row_of_recorded:
  "by_head v \<Longrightarrow> row_of v (fst (recorded_as name ev)) = head_row name (ob_head ev)"
  by (simp add: by_head_def row_of_def recorded_as_def head_row_def)

lemma row_total_recorded:
  assumes "by_head v"
  shows "row_total v (map (recorded_as name) evs) rw =
    sum_list (map (\<lambda>ev. if head_row name (ob_head ev) = rw then value_in (vw_Measure v) ev else 0) evs)"
proof (induction evs)
  case (Cons ev evs)
  have "row_of v [KeyName \<mapsto> name, KeyPeerID \<mapsto> ob_head ev] = head_row name (ob_head ev)"
    using row_of_recorded [OF assms, of name ev] by (simp add: recorded_as_def)
  with Cons show ?case by (simp add: recorded_as_def measured_def value_in_def del: key_defs)
qed simp

lemma head_views_registered:
  "{HeadsView, ConnectedPeersView, BootstrappedHeadsView} \<subseteq>
     set (registered_views (DefaultViews dht obsViews) clientViews)"
  by (simp add: registered_views_def DefaultViews_def)

text \<open>So a head's row shows what was observed of the head.\<close>

lemma head_row_total:
  assumes "by_head v"
  shows "row_total v (map (recorded_as name) evs) (head_row name h) =
    sum_list (map (value_in (vw_Measure v)) (filter (\<lambda>ev. ob_head ev = h) evs))"
  unfolding row_total_recorded [OF assms] by (induction evs) (simp_all add: head_row_def)

lemma head_measures [simp]:
  "Heads \<noteq> ConnectedPeers" "Heads \<noteq> BootstrappedHeads" "ConnectedPeers \<noteq> BootstrappedHeads"
  "ConnectedPeers \<noteq> Heads" "BootstrappedHeads \<noteq> Heads" "BootstrappedHeads \<noteq> ConnectedPeers"
  by (simp_all add: Heads_def ConnectedPeers_def BootstrappedHeads_def)

lemma view_measures [simp]:
  "vw_Measure HeadsView = Heads" "vw_Measure ConnectedPeersView = ConnectedPeers"
  "vw_Measure BootstrappedHeadsView = BootstrappedHeads"
  by (simp_all add: HeadsView_def ConnectedPeersView_def BootstrappedHeadsView_def)

definition connects :: "string \<Rightarrow> observation list \<Rightarrow> nat" where
  "connects h evs = length (filter (\<lambda>ev. \<exists>remote. ev = Peer_Connected h remote) evs)"

definition disconnects :: "string \<Rightarrow> observation list \<Rightarrow> nat" where
  "disconnects h evs = length (filter (\<lambda>ev. ev = Peer_Disconnected h) evs)"

lemma connected_value:
  "sum_list (map (value_in ConnectedPeers) (filter (\<lambda>ev. ob_head ev = h) evs)) =
    int (connects h evs) - int (disconnects h evs)"
proof (induction evs)
  case (Cons ev evs)
  then show ?case by (cases ev) (auto simp: value_in_def connects_def disconnects_def)
qed (simp add: connects_def disconnects_def)

lemma spawned_value:
  "sum_list (map (value_in Heads) (filter (\<lambda>ev. ob_head ev = h) evs)) =
    int (length (filter (\<lambda>ev. ev = Head_Spawned h) evs))"
proof (induction evs)
  case (Cons ev evs)
  then show ?case by (cases ev) (auto simp: value_in_def)
qed simp

lemma bootstrapped_value:
  "sum_list (map (value_in BootstrappedHeads) (filter (\<lambda>ev. ob_head ev = h) evs)) =
    int (length (filter (\<lambda>ev. ev = Head_Bootstrapped h) evs))"
proof (induction evs)
  case (Cons ev evs)
  then show ?case by (cases ev) (auto simp: value_in_def)
qed simp

section \<open>The exporter\<close>

text \<open>
  What the code relies on of the Prometheus exporter: for every registered view that sums, the scraped
  metrics have one metric of the view's name in the namespace, with one sample for each row something
  was recorded in, labelled with the tags of the row; a view without rows is not there.
\<close>

definition rows_of :: "view \<Rightarrow> recording list \<Rightarrow> row set" where
  "rows_of v recs = row_of v ` fst ` {rec \<in> set recs. vw_Measure v \<in> fst ` set (snd rec)}"

definition row_labels :: "view \<Rightarrow> row \<Rightarrow> tags" where
  "row_labels v rw k = (case map_of (zip (vw_TagKeys v) rw) k of None \<Rightarrow> None | Some val \<Rightarrow> val)"

definition exports :: "(int \<Rightarrow> 'f) \<Rightarrow> view list \<Rightarrow> recording list \<Rightarrow> 'f metric list \<Rightarrow> bool" where
  "exports conv views recs ms \<longleftrightarrow>
     (\<forall>v \<in> set views. vw_Aggregation v = Sum \<longrightarrow>
        (\<exists>rows. distinct rows \<and> set rows = rows_of v recs \<and>
           findByName ms (nsName (vw_Measure v)) =
             (if rows = [] then None
              else Some \<lparr>mt_Name = nsName (vw_Measure v),
                mt_Samples = map (\<lambda>rw. \<lparr>sm_Labels = row_labels v rw, sm_Value = conv (row_total v recs rw)\<rparr>) rows\<rparr>)))"

lemma exportsD:
  "exports conv views recs ms \<Longrightarrow> v \<in> set views \<Longrightarrow> by_head v \<Longrightarrow>
   \<exists>rows. distinct rows \<and> set rows = rows_of v recs \<and>
     findByName ms (nsName (vw_Measure v)) =
       (if rows = [] then None
        else Some \<lparr>mt_Name = nsName (vw_Measure v),
          mt_Samples = map (\<lambda>rw. \<lparr>sm_Labels = row_labels v rw, sm_Value = conv (row_total v recs rw)\<rparr>) rows\<rparr>)"
  unfolding exports_def by_head_def by blast

text \<open>\<open>float64\<close> adds small integers exactly.\<close>

definition adds_exactly :: "'f ui_env \<Rightarrow> (int \<Rightarrow> 'f) \<Rightarrow> bool" where
  "adds_exactly env conv \<longleftrightarrow> conv 0 = ue_zero env \<and>
     (\<forall>a b. \<bar>a\<bar> \<le> 2 ^ 53 \<and> \<bar>b\<bar> \<le> 2 ^ 53 \<and> \<bar>a + b\<bar> \<le> 2 ^ 53 \<longrightarrow> ue_add env (conv a) (conv b) = conv (a + b))"

lemma rows_of_recorded:
  assumes "by_head v"
  shows "rows_of v (map (recorded_as name) evs) =
    (\<lambda>ev. head_row name (ob_head ev)) ` {ev \<in> set evs. ob_measure ev = vw_Measure v}"
proof -
  have "{rec \<in> set (map (recorded_as name) evs). vw_Measure v \<in> fst ` set (snd rec)} =
      recorded_as name ` {ev \<in> set evs. ob_measure ev = vw_Measure v}"
    by (auto simp: recorded_as_def simp del: key_defs)
  then show ?thesis
    using row_of_recorded [OF assms, of name] by (simp add: rows_of_def image_image)
qed

text \<open>Such an exporter exists: one metric for every summing view with rows, in the order of the views,
  provided the names of the views are distinct.\<close>

definition row_list :: "view \<Rightarrow> recording list \<Rightarrow> row list" where
  "row_list v recs = remdups (map (row_of v \<circ> fst) (filter (\<lambda>rec. vw_Measure v \<in> fst ` set (snd rec)) recs))"

definition exporter :: "(int \<Rightarrow> 'f) \<Rightarrow> view list \<Rightarrow> recording list \<Rightarrow> 'f metric list" where
  "exporter conv views recs =
     map (\<lambda>v. \<lparr>mt_Name = nsName (vw_Measure v),
         mt_Samples = map (\<lambda>rw. \<lparr>sm_Labels = row_labels v rw, sm_Value = conv (row_total v recs rw)\<rparr>) (row_list v recs)\<rparr>)
       (filter (\<lambda>v. vw_Aggregation v = Sum \<and> row_list v recs \<noteq> []) views)"

lemma findByName_map:
  "distinct (map (mt_Name \<circ> f) xs) \<Longrightarrow> x \<in> set xs \<Longrightarrow> findByName (map f xs) (mt_Name (f x)) = Some (f x)"
  by (induction xs) force+

lemma findByName_None: "(\<And>m. m \<in> set ms \<Longrightarrow> mt_Name m \<noteq> n) \<Longrightarrow> findByName ms n = None"
  by (induction ms) simp_all

lemma exporter_exports:
  assumes "distinct (map (nsName \<circ> vw_Measure) (filter (\<lambda>v. vw_Aggregation v = Sum) views))"
  shows "exports conv views recs (exporter conv views recs)"
proof -
  let ?metric = "\<lambda>v. \<lparr>mt_Name = nsName (vw_Measure v),
    mt_Samples = map (\<lambda>rw. \<lparr>sm_Labels = row_labels v rw, sm_Value = conv (row_total v recs rw)\<rparr>) (row_list v recs)\<rparr>"
  let ?kept = "filter (\<lambda>v. vw_Aggregation v = Sum \<and> row_list v recs \<noteq> []) views"
  have inj: "inj_on (nsName \<circ> vw_Measure) {v \<in> set views. vw_Aggregation v = Sum}"
    using assms by (simp add: distinct_map)
  have "?kept = filter (\<lambda>v. row_list v recs \<noteq> []) (filter (\<lambda>v. vw_Aggregation v = Sum) views)"
    by (simp add: conj_commute)
  then have dist: "distinct (map (nsName \<circ> vw_Measure) ?kept)"
    using distinct_map_filter [OF assms, of "\<lambda>v. row_list v recs \<noteq> []"] by (simp only:)
  have "distinct (row_list v recs) \<and> set (row_list v recs) = rows_of v recs \<and>
      findByName (exporter conv views recs) (nsName (vw_Measure v)) =
        (if row_list v recs = [] then None else Some (?metric v))"
    if "v \<in> set views" "vw_Aggregation v = Sum" for v
  proof (intro conjI)
    show "distinct (row_list v recs)" by (simp add: row_list_def)
    show "set (row_list v recs) = rows_of v recs" by (auto simp: row_list_def rows_of_def)
    show "findByName (exporter conv views recs) (nsName (vw_Measure v)) =
        (if row_list v recs = [] then None else Some (?metric v))"
    proof (cases "row_list v recs = []")
      case True
      have "mt_Name m \<noteq> nsName (vw_Measure v)" if m: "m \<in> set (exporter conv views recs)" for m
      proof
        assume "mt_Name m = nsName (vw_Measure v)"
        moreover obtain v' where v': "v' \<in> set views" "vw_Aggregation v' = Sum" "row_list v' recs \<noteq> []"
            "mt_Name m = nsName (vw_Measure v')"
          using m by (auto simp: exporter_def)
        ultimately have "v' = v" using inj_onD [OF inj, of v' v] \<open>v \<in> set views\<close> \<open>vw_Aggregation v = Sum\<close> by simp
        with True v'(3) show False by simp
      qed
      then show ?thesis using True by (simp add: findByName_None)
    next
      case False
      then have "v \<in> set ?kept" using that by simp
      then show ?thesis
        using findByName_map [of ?metric ?kept v] dist False by (simp add: exporter_def comp_def)
    qed
  qed
  then show ?thesis unfolding exports_def by blast
qed

text \<open>Summing the rows of a view gives the sum over everything that was observed.\<close>

lemma rows_sum:
  assumes "by_head v" "distinct rows"
  shows "sum_list (map (row_total v (map (recorded_as name) evs)) rows) =
    sum_list (map (\<lambda>ev. if head_row name (ob_head ev) \<in> set rows then value_in (vw_Measure v) ev else 0) evs)"
  using assms(2)
proof (induction rows)
  case Nil
  show ?case by (simp add: sum_list_0)
next
  case (Cons rw rows)
  have "row_total v (map (recorded_as name) evs) rw +
      sum_list (map (\<lambda>ev. if head_row name (ob_head ev) \<in> set rows then value_in (vw_Measure v) ev else 0) evs) =
    sum_list (map (\<lambda>ev. (if head_row name (ob_head ev) = rw then value_in (vw_Measure v) ev else 0) +
      (if head_row name (ob_head ev) \<in> set rows then value_in (vw_Measure v) ev else 0)) evs)"
    by (simp add: row_total_recorded [OF assms(1)] sum_list_addf)
  also have "\<dots> = sum_list (map (\<lambda>ev. if head_row name (ob_head ev) \<in> set (rw # rows)
      then value_in (vw_Measure v) ev else 0) evs)"
    using Cons.prems by (intro arg_cong [of _ _ sum_list] map_cong) auto
  finally show ?case using Cons by simp
qed

lemma rows_sum_bound:
  assumes "by_head v" "distinct rows"
  shows "\<bar>sum_list (map (row_total v (map (recorded_as name) evs)) rows)\<bar> \<le> int (length evs)"
proof -
  have one: "\<bar>value_in m ev\<bar> \<le> 1" for m ev by (cases ev) (simp_all add: value_in_def)
  have "\<bar>sum_list (map (\<lambda>ev. if P ev then value_in m ev else 0) evs)\<bar> \<le> int (length evs)" for P m
  proof (induction evs)
    case (Cons ev evs)
    have "\<bar>if P ev then value_in m ev else 0\<bar> \<le> 1" using one [of m ev] by simp
    with Cons abs_triangle_ineq [of "if P ev then value_in m ev else 0"
        "sum_list (map (\<lambda>ev. if P ev then value_in m ev else 0) evs)"] show ?case by simp
  qed simp
  from this [of "\<lambda>ev. head_row name (ob_head ev) \<in> set rows" "vw_Measure v"]
  show ?thesis unfolding rows_sum [OF assms] .
qed

lemma sum_samples:
  assumes "adds_exactly env conv" "\<And>rows1 rows2. rows = rows1 @ rows2 \<Longrightarrow> \<bar>sum_list (map f rows1)\<bar> \<le> 2 ^ 53"
    and "\<And>rw. rw \<in> set rows \<Longrightarrow> \<bar>f rw\<bar> \<le> 2 ^ 53"
  shows "foldl (\<lambda>val s. ue_add env val (sm_Value s)) (ue_zero env)
      (map (\<lambda>rw. \<lparr>sm_Labels = L rw, sm_Value = conv (f rw)\<rparr>) rows) = conv (sum_list (map f rows))"
  using assms(2,3)
proof (induction rows rule: rev_induct)
  case Nil
  then show ?case using assms(1) by (simp add: adds_exactly_def)
next
  case (snoc rw rows)
  have "foldl (\<lambda>val s. ue_add env val (sm_Value s)) (ue_zero env)
      (map (\<lambda>rw. \<lparr>sm_Labels = L rw, sm_Value = conv (f rw)\<rparr>) rows) = conv (sum_list (map f rows))"
    by (rule snoc.IH) (use snoc.prems in auto)
  moreover have "\<bar>sum_list (map f rows)\<bar> \<le> 2 ^ 53" "\<bar>f rw\<bar> \<le> 2 ^ 53" "\<bar>sum_list (map f rows) + f rw\<bar> \<le> 2 ^ 53"
    using snoc.prems(1) [of rows "[rw]"] snoc.prems(2) [of rw] snoc.prems(1) [of "rows @ [rw]" "[]"] by simp_all
  ultimately show ?case using assms(1) by (simp add: adds_exactly_def)
qed

section \<open>The unique peers\<close>

text \<open>What the code relies on of the sketch: the order and the repetition of insertions do not matter.\<close>

definition sketch :: "'l hyperloglog \<Rightarrow> bool" where
  "sketch hl \<longleftrightarrow> (\<forall>a b s. hl_Insert hl a (hl_Insert hl b s) = hl_Insert hl b (hl_Insert hl a s)) \<and>
     (\<forall>a s. hl_Insert hl a (hl_Insert hl a s) = hl_Insert hl a s)"

definition remotes :: "observation list \<Rightarrow> bytes list" where
  "remotes evs = concat (map (\<lambda>ev. case ev of Peer_Connected h remote \<Rightarrow> [remote] | _ \<Rightarrow> []) evs)"

lemma record_for_hyperlog [simp]: "ob_hyperlog (record_for hdCtx m v ob) = ob_hyperlog ob"
  by (simp add: record_for_def split: option.split)

lemma observe_hyperlog:
  "ob_hyperlog (fold (observe hl newTags ctx) evs ob) = fold (hl_Insert hl) (remotes evs) (ob_hyperlog ob)"
proof (induction evs arbitrary: ob)
  case (Cons ev evs)
  then show ?case by (cases ev) (simp_all add: remotes_def ConnectedF_def DisconnectedF_def Let_def)
qed (simp add: remotes_def)

lemma insert_sketch: "sketch hl \<Longrightarrow> a \<in> set xs \<Longrightarrow> fold (hl_Insert hl) xs (hl_Insert hl a s) = fold (hl_Insert hl) xs s"
proof (induction xs arbitrary: s)
  case (Cons x xs)
  show ?case
  proof (cases "a = x")
    case True
    with Cons.prems(1) show ?thesis by (simp add: sketch_def)
  next
    case False
    then have "fold (hl_Insert hl) xs (hl_Insert hl a (hl_Insert hl x s)) = fold (hl_Insert hl) xs (hl_Insert hl x s)"
      using Cons by simp
    moreover have "hl_Insert hl x (hl_Insert hl a s) = hl_Insert hl a (hl_Insert hl x s)"
      using Cons.prems(1) by (simp add: sketch_def)
    ultimately show ?thesis by simp
  qed
qed simp

lemma fold_sketch_commute:
  "sketch hl \<Longrightarrow> fold (hl_Insert hl) xs (hl_Insert hl a s) = hl_Insert hl a (fold (hl_Insert hl) xs s)"
proof (induction xs arbitrary: s)
  case (Cons x xs)
  moreover have "hl_Insert hl x (hl_Insert hl a s) = hl_Insert hl a (hl_Insert hl x s)"
    using Cons.prems by (simp add: sketch_def)
  ultimately show ?case by simp
qed simp

lemma fold_sketch_remdups: "sketch hl \<Longrightarrow> fold (hl_Insert hl) (remdups xs) s = fold (hl_Insert hl) xs s"
  by (induction xs arbitrary: s) (simp_all add: insert_sketch)

lemma fold_sketch_set:
  assumes "sketch hl" "set xs = set ys"
  shows "fold (hl_Insert hl) xs s = fold (hl_Insert hl) ys s"
proof -
  have "mset (remdups xs) = mset (remdups ys)"
    using assms(2) by (simp add: set_eq_iff_mset_remdups_eq)
  moreover have "hl_Insert hl a \<circ> hl_Insert hl b = hl_Insert hl b \<circ> hl_Insert hl a" for a b
    using assms(1) by (auto simp: sketch_def)
  ultimately have "fold (hl_Insert hl) (remdups xs) = fold (hl_Insert hl) (remdups ys)"
    by (intro fold_multiset_equiv) auto
  then show ?thesis using fold_sketch_remdups [OF assms(1)] by metis
qed

section \<open>An example\<close>

text \<open>A sketch that keeps every peer, a history of two heads, and the exporter above.\<close>

definition exact_sketch :: "bytes set hyperloglog" where
  "exact_sketch = \<lparr>hl_New = {}, hl_Insert = insert, hl_Estimate = (\<lambda>s. of_nat (card s))\<rparr>"

definition example_history :: "observation list" where
  "example_history =
     [Head_Spawned ''a'', Head_Spawned ''b'', Peer_Connected ''a'' [7], Peer_Connected ''b'' [7],
      Head_Bootstrapped ''a'', Peer_Connected ''b'' [9], Peer_Disconnected ''b'']"

definition example_dht :: dht_metrics where
  "example_dht =
     \<lparr>dh_ReceivedMessages = Int64 ''r'' [] UnitDimensionless, dh_ReceivedMessageErrors = Int64 ''re'' [] UnitDimensionless,
      dh_ReceivedBytes = Int64 ''rb'' [] UnitDimensionless, dh_InboundRequestLatency = Float64 ''i'' [] UnitDimensionless,
      dh_OutboundRequestLatency = Float64 ''o'' [] UnitDimensionless, dh_SentMessages = Int64 ''s'' [] UnitDimensionless,
      dh_SentMessageErrors = Int64 ''se'' [] UnitDimensionless, dh_SentRequests = Int64 ''q'' [] UnitDimensionless,
      dh_SentRequestErrors = Int64 ''qe'' [] UnitDimensionless, dh_SentBytes = Int64 ''sb'' [] UnitDimensionless,
      dh_KeyMessageType = ''message_type''\<rparr>"

definition example_views :: "view list" where
  "example_views = registered_views (DefaultViews example_dht []) []"

definition int_env :: "int ui_env" where
  "int_env =
     \<lparr>ue_zero = 0, ue_add = (+), ue_show = Itoa, ue_Bytes = Itoa, ue_Hours = (\<lambda>t. t div 3600000000000),
      ue_Minutes = (\<lambda>t. t div 60000000000), ue_Seconds = (\<lambda>t. t div 1000000000), ue_show_duration = Itoa\<rparr>"

lemma example_summing_names: "distinct (map (nsName \<circ> vw_Measure) (filter (\<lambda>v. vw_Aggregation v = Sum) example_views))"
  by code_simp

lemma example_tags: "hydra_tags apply_mutators Map.empty ''h'' = Some [KeyName \<mapsto> ''h'']"
  using hydra_tags_name [OF apply_mutators_library, of "''h''"] by (simp add: always_valid_def)

lemma exact_sketch_sketch: "sketch exact_sketch"
  by (auto simp: sketch_def exact_sketch_def)

section \<open>Properties\<close>

text \<open>
  C39: the rows of a head are the head's own history. Whatever the order in which heads are spawned,
  connect, disconnect and report, under a valid name in \<open>main\<close>'s context the row of each head in the registered views
  shows how often it was spawned, its connections minus its disconnections, and how often it reported
  the end of its bootstrapping; and the estimate of unique peers depends only on the set of remote
  peers that have connected, not on the heads, the order or the number of their connections.
\<close>

theorem head_rows_are_history:
  assumes "tag_library valid newTags" "name \<noteq> []" "valid name" "\<forall>ev \<in> set evs. valid (ob_head ev)"
    and "hydra_tags newTags Map.empty name = Some ctx"
  shows "let recs = ob_recorded (observed hl newTags ctx evs)
    in row_total HeadsView recs [Some name, Some h] = int (length (filter (\<lambda>ev. ev = Head_Spawned h) evs)) \<and>
       row_total ConnectedPeersView recs [Some name, Some h] =
         int (length (filter (\<lambda>ev. \<exists>remote. ev = Peer_Connected h remote) evs)) -
         int (length (filter (\<lambda>ev. ev = Peer_Disconnected h) evs)) \<and>
       row_total BootstrappedHeadsView recs [Some name, Some h] =
         int (length (filter (\<lambda>ev. ev = Head_Bootstrapped h) evs)) \<and>
       {HeadsView, ConnectedPeersView, BootstrappedHeadsView} \<subseteq>
         set (registered_views (DefaultViews dht obsViews) clientViews) \<and>
       (\<forall>evs'. sketch hl \<and> set (remotes evs') = set (remotes evs) \<longrightarrow>
          GetUniquePeersCount hl (observed hl newTags ctx evs') = GetUniquePeersCount hl (observed hl newTags ctx evs))"
proof -
  have ctx: "ctx = [KeyName \<mapsto> name]" using hydra_tags_name [OF assms(1-3)] assms(5) by (simp del: key_defs)
  have recs: "ob_recorded (observed hl newTags ctx evs) = map (recorded_as name) evs"
    unfolding ctx by (rule observed_recorded [OF assms(1,4)])
  have total: "row_total v (map (recorded_as name) evs) [Some name, Some h] =
      sum_list (map (value_in (vw_Measure v)) (filter (\<lambda>ev. ob_head ev = h) evs))" if "by_head v" for v
    using head_row_total [OF that] by (simp add: head_row_def)
  have "GetUniquePeersCount hl (observed hl newTags ctx evs') = GetUniquePeersCount hl (observed hl newTags ctx evs)"
    if "sketch hl" "set (remotes evs') = set (remotes evs)" for evs'
    using fold_sketch_set [OF that] by (simp add: GetUniquePeersCount_def observed_def observe_hyperlog)
  moreover have "row_total HeadsView (map (recorded_as name) evs) [Some name, Some h] =
      int (length (filter (\<lambda>ev. ev = Head_Spawned h) evs))"
    using total [of HeadsView] by (simp add: spawned_value)
  moreover have "row_total ConnectedPeersView (map (recorded_as name) evs) [Some name, Some h] =
      int (length (filter (\<lambda>ev. \<exists>remote. ev = Peer_Connected h remote) evs)) -
      int (length (filter (\<lambda>ev. ev = Peer_Disconnected h) evs))"
    using total [of ConnectedPeersView] by (simp add: connected_value connects_def disconnects_def)
  moreover have "row_total BootstrappedHeadsView (map (recorded_as name) evs) [Some name, Some h] =
      int (length (filter (\<lambda>ev. ev = Head_Bootstrapped h) evs))"
    using total [of BootstrappedHeadsView] by (simp add: bootstrapped_value)
  ultimately show ?thesis unfolding Let_def recs using head_views_registered by blast
qed

theorem head_rows_are_history_witness:
  "row_total ConnectedPeersView (ob_recorded (observed exact_sketch apply_mutators [KeyName \<mapsto> ''h''] example_history))
     [Some ''h'', Some ''b''] = 1 \<and>
   GetUniquePeersCount exact_sketch (observed exact_sketch apply_mutators [KeyName \<mapsto> ''h''] example_history) =
   GetUniquePeersCount exact_sketch (observed exact_sketch apply_mutators [KeyName \<mapsto> ''h'']
     [Peer_Connected ''c'' [9], Peer_Connected ''c'' [7]])"
proof -
  have valid: "''h'' \<noteq> []" "always_valid ''h''" "\<forall>ev \<in> set example_history. always_valid (ob_head ev)"
    by (simp_all add: always_valid_def)
  note here = head_rows_are_history [OF apply_mutators_library valid example_tags, of exact_sketch "''b''"
      example_dht "[]" "[]", unfolded Let_def]
  have "int (length (filter (\<lambda>ev. \<exists>remote. ev = Peer_Connected ''b'' remote) example_history)) -
      int (length (filter (\<lambda>ev. ev = Peer_Disconnected ''b'') example_history)) = 1"
    by (simp add: example_history_def)
  moreover have "sketch exact_sketch \<and>
      set (remotes [Peer_Connected ''c'' [9], Peer_Connected ''c'' [7]]) = set (remotes example_history)"
    by (auto simp: exact_sketch_sketch remotes_def example_history_def)
  ultimately show ?thesis
    using here [THEN conjunct2, THEN conjunct1]
      here [THEN conjunct2, THEN conjunct2, THEN conjunct2, THEN conjunct2, THEN spec, THEN mp] by metis
qed

lemma head_row_labels: "row_labels HeadsView (head_row name h) ''peer_id'' = Some h"
  by (simp add: row_labels_def HeadsView_def head_row_def)

lemma value_in_simps:
  "value_in m (Head_Spawned h) = (if Heads = m then 1 else 0)"
  "value_in m (Peer_Connected h remote) = (if ConnectedPeers = m then 1 else 0)"
  "value_in m (Peer_Disconnected h) = (if ConnectedPeers = m then - 1 else 0)"
  "value_in m (Head_Bootstrapped h) = (if BootstrappedHeads = m then 1 else 0)"
  by (simp_all add: value_in_def)

lemma all_value:
  "sum_list (map (value_in ConnectedPeers) evs) =
     int (length (filter (\<lambda>ev. \<exists>h remote. ev = Peer_Connected h remote) evs)) -
     int (length (filter (\<lambda>ev. \<exists>h. ev = Peer_Disconnected h) evs))"
  "sum_list (map (value_in BootstrappedHeads) evs) = int (length (filter (\<lambda>ev. \<exists>h. ev = Head_Bootstrapped h) evs))"
proof (induction evs)
  case (Cons ev evs)
  show "sum_list (map (value_in ConnectedPeers) (ev # evs)) =
     int (length (filter (\<lambda>ev. \<exists>h remote. ev = Peer_Connected h remote) (ev # evs))) -
     int (length (filter (\<lambda>ev. \<exists>h. ev = Peer_Disconnected h) (ev # evs)))"
    using Cons(1) by (cases ev) (simp_all add: value_in_simps)
  show "sum_list (map (value_in BootstrappedHeads) (ev # evs)) =
     int (length (filter (\<lambda>ev. \<exists>h. ev = Head_Bootstrapped h) (ev # evs)))"
    using Cons(2) by (cases ev) (simp_all add: value_in_simps)
qed simp_all

lemma exported_sum:
  assumes "exports conv views (map (recorded_as name) evs) ms" "v \<in> set views" "by_head v"
    and "adds_exactly env conv" "int (length evs) \<le> 2 ^ 53"
  shows "metric_value env ms (nsName (vw_Measure v)) = conv (sum_list (map (value_in (vw_Measure v)) evs))"
proof -
  let ?recs = "map (recorded_as name) evs"
  obtain rows where rows: "distinct rows" "set rows = rows_of v ?recs"
      "findByName ms (nsName (vw_Measure v)) =
         (if rows = [] then None
          else Some \<lparr>mt_Name = nsName (vw_Measure v),
            mt_Samples = map (\<lambda>rw. \<lparr>sm_Labels = row_labels v rw, sm_Value = conv (row_total v ?recs rw)\<rparr>) rows\<rparr>)"
    using exportsD [OF assms(1-3)] by blast
  have bound: "\<bar>sum_list (map (row_total v ?recs) rows1)\<bar> \<le> 2 ^ 53" if "distinct rows1" for rows1
    using rows_sum_bound [OF assms(3) that, of name evs] assms(5) by linarith
  have "\<bar>row_total v ?recs rw\<bar> \<le> 2 ^ 53" for rw using bound [of "[rw]"] by simp
  moreover have "\<bar>sum_list (map (row_total v ?recs) rows1)\<bar> \<le> 2 ^ 53" if "rows = rows1 @ rows2" for rows1 rows2
    using bound that rows(1) by simp
  ultimately have "metric_value env ms (nsName (vw_Measure v)) = conv (sum_list (map (row_total v ?recs) rows))"
    using sum_samples [OF assms(4), of rows "row_total v ?recs" "row_labels v"] rows(3) assms(4)
    by (auto simp: metric_value_def sumSamples_def adds_exactly_def)
  moreover have "sum_list (map (row_total v ?recs) rows) = sum_list (map (value_in (vw_Measure v)) evs)"
    unfolding rows_sum [OF assms(3) rows(1)] rows(2) rows_of_recorded [OF assms(3)]
    by (intro arg_cong [of _ _ sum_list] map_cong) (auto simp: value_in_def)
  ultimately show ?thesis by simp
qed

text \<open>
  C9: the interface shows the hydra. If the exporter passes on the rows of the registered views, then
  after any history of a named hydra (of up to \<open>2^53\<close> observations, which \<open>float64\<close> adds exactly) the head
  IDs in the interface are the IDs of the spawned heads, each once; the number of connections is that
  of all connections made minus all that were closed, counted per connection and not per peer; and
  the number of bootstraps is the number of heads that have reported the end of theirs.
\<close>

theorem ui_shows_hydra:
  assumes "tag_library valid newTags" "name \<noteq> []" "valid name" "\<forall>ev \<in> set evs. valid (ob_head ev)"
    and "hydra_tags newTags Map.empty name = Some ctx"
    and "exports conv (registered_views (DefaultViews dht obsViews) clientViews)
           (ob_recorded (observed hl newTags ctx evs)) ms"
    and "adds_exactly env conv" "int (length evs) \<le> 2 ^ 53"
  shows "let ids = labelValues (findByName ms (nsName Heads)) ''peer_id''
    in distinct ids \<and> set ids = {h. Head_Spawned h \<in> set evs} \<and>
       metric_value env ms (nsName ConnectedPeers) =
         conv (int (length (filter (\<lambda>ev. \<exists>h remote. ev = Peer_Connected h remote) evs)) -
           int (length (filter (\<lambda>ev. \<exists>h. ev = Peer_Disconnected h) evs))) \<and>
       metric_value env ms (nsName BootstrappedHeads) =
         conv (int (length (filter (\<lambda>ev. \<exists>h. ev = Head_Bootstrapped h) evs)))"
proof -
  have ctx: "ctx = [KeyName \<mapsto> name]" using hydra_tags_name [OF assms(1-3)] assms(5) by (simp del: key_defs)
  have recs: "ob_recorded (observed hl newTags ctx evs) = map (recorded_as name) evs"
    unfolding ctx by (rule observed_recorded [OF assms(1,4)])
  note ex = assms(6) [unfolded recs]
  have reg: "HeadsView \<in> set (registered_views (DefaultViews dht obsViews) clientViews)"
      "ConnectedPeersView \<in> set (registered_views (DefaultViews dht obsViews) clientViews)"
      "BootstrappedHeadsView \<in> set (registered_views (DefaultViews dht obsViews) clientViews)"
    using head_views_registered [of dht obsViews clientViews] by simp_all
  obtain rows where rows: "distinct rows" "set rows = rows_of HeadsView (map (recorded_as name) evs)"
      "findByName ms (nsName Heads) =
         (if rows = [] then None
          else Some \<lparr>mt_Name = nsName Heads, mt_Samples = map (\<lambda>rw. \<lparr>sm_Labels = row_labels HeadsView rw,
            sm_Value = conv (row_total HeadsView (map (recorded_as name) evs) rw)\<rparr>) rows\<rparr>)"
    using exportsD [OF ex reg(1) by_head_views(1)] unfolding view_measures by blast
  define hs where "hs = map (\<lambda>rw. the (rw ! 1)) rows"
  have heads: "rw = head_row name (the (rw ! 1)) \<and> Head_Spawned (the (rw ! 1)) \<in> set evs" if rw: "rw \<in> set rows" for rw
  proof -
    obtain ev where "ev \<in> set evs" "ob_measure ev = Heads" "rw = head_row name (ob_head ev)"
      using rw rows(2) rows_of_recorded [OF by_head_views(1), of name evs] by auto
    moreover from this(2) have "ev = Head_Spawned (ob_head ev)" by (cases ev) simp_all
    ultimately show ?thesis by (simp add: head_row_def)
  qed
  have ids: "labelValues (findByName ms (nsName Heads)) ''peer_id'' = hs"
  proof -
    have "row_labels HeadsView rw ''peer_id'' = Some (the (rw ! 1))" if "rw \<in> set rows" for rw
      using heads [OF that] head_row_labels [of name "the (rw ! 1)"] by metis
    then have "map (\<lambda>rw. case row_labels HeadsView rw ''peer_id'' of None \<Rightarrow> [] | Some v \<Rightarrow> v) rows = hs"
      unfolding hs_def by (intro map_cong) auto
    then show ?thesis
      unfolding rows(3) by (cases "rows = []") (simp_all add: labelValues_def comp_def hs_def)
  qed
  have "inj_on (\<lambda>rw. the (rw ! 1)) (set rows)"
    by (rule inj_on_inverseI [where g = "head_row name"], rule heads [THEN conjunct1, symmetric])
  then have "distinct hs" by (simp add: hs_def distinct_map rows(1))
  moreover have "set hs = {h. Head_Spawned h \<in> set evs}"
  proof
    show "set hs \<subseteq> {h. Head_Spawned h \<in> set evs}" using heads by (auto simp: hs_def)
    have "h \<in> set hs" if "Head_Spawned h \<in> set evs" for h
    proof -
      have "head_row name h \<in> set rows"
        using that rows(2) rows_of_recorded [OF by_head_views(1), of name evs]
        by (auto intro!: image_eqI [of _ _ "Head_Spawned h"])
      then show ?thesis by (auto simp: hs_def head_row_def intro!: image_eqI [of _ _ "head_row name h"])
    qed
    then show "{h. Head_Spawned h \<in> set evs} \<subseteq> set hs" by blast
  qed
  moreover note exported_sum [OF ex reg(2) by_head_views(2) assms(7,8), unfolded view_measures all_value]
    exported_sum [OF ex reg(3) by_head_views(3) assms(7,8), unfolded view_measures all_value]
  ultimately show ?thesis unfolding Let_def ids by blast
qed

theorem ui_shows_hydra_witness:
  "let ms = exporter id example_views
       (ob_recorded (observed exact_sketch apply_mutators [KeyName \<mapsto> ''h''] example_history))
   in set (labelValues (findByName ms (nsName Heads)) ''peer_id'') = {''a'', ''b''} \<and>
      metric_value int_env ms (nsName ConnectedPeers) = 2 \<and>
      metric_value int_env ms (nsName BootstrappedHeads) = 1"
proof -
  let ?recs = "ob_recorded (observed exact_sketch apply_mutators [KeyName \<mapsto> ''h''] example_history)"
  have valid: "''h'' \<noteq> []" "always_valid ''h''" "\<forall>ev \<in> set example_history. always_valid (ob_head ev)"
    by (simp_all add: always_valid_def)
  have adds: "adds_exactly int_env id" by (simp add: adds_exactly_def int_env_def)
  have ex: "exports id (registered_views (DefaultViews example_dht []) []) ?recs (exporter id example_views ?recs)"
    using exporter_exports [OF example_summing_names] by (simp add: example_views_def)
  have small: "int (length example_history) \<le> 2 ^ 53" by (simp add: example_history_def)
  note here = ui_shows_hydra [OF apply_mutators_library valid example_tags ex adds small, unfolded Let_def]
  have "{h. Head_Spawned h \<in> set example_history} = {''a'', ''b''}" by (auto simp: example_history_def)
  moreover have "int (length (filter (\<lambda>ev. \<exists>h remote. ev = Peer_Connected h remote) example_history)) -
      int (length (filter (\<lambda>ev. \<exists>h. ev = Peer_Disconnected h) example_history)) = 2"
    "int (length (filter (\<lambda>ev. \<exists>h. ev = Head_Bootstrapped h) example_history)) = 1"
    by (simp_all add: example_history_def)
  ultimately show ?thesis using here unfolding Let_def id_apply by metis
qed

end
