(* ===== verification/Periodic_Tasks.thy ===== *)
theory Periodic_Tasks
  imports Hydra_Prelude
begin

text \<open>
  \<^verbatim>\<open>src/periodictasks/runner.go\<close>: one goroutine per task, each with its timer. A step is what a
  goroutine does between two waits: the timer fires and \<open>Run\<close> begins, \<open>Run\<close> ends and the timer is reset,
  or the done context is seen. Time passes in steps of any length, and the context may be cancelled at
  any moment. When the timer has fired and the context is done, Go's \<open>select\<close> takes either case, so
  both steps are possible.

  \<open>run i\<close> is the function of task \<open>i\<close> on a world \<open>'w\<close>; a run takes effect when it ends. \<open>tk_starts\<close> and
  \<open>rn_printed\<close> record the times at which runs began and the errors that were printed.
\<close>

section \<open>State and steps\<close>

datatype task_phase = Waiting | Running | Returned

record task =
  tk_Interval :: int
  tk_phase :: task_phase
  tk_due :: int                   \<comment> \<open>when the timer fires\<close>
  tk_starts :: "int list"

record 'w runner =
  rn_now :: int
  rn_ctxDone :: bool
  rn_tasks :: "task list"
  rn_printed :: "go_error list"
  rn_world :: 'w

type_synonym 'w task_run = "nat \<Rightarrow> 'w \<Rightarrow> 'w \<times> go_error option"

text \<open>\<open>time.NewTimer(t.Interval)\<close> in each new goroutine.\<close>

definition RunTasks :: "int \<Rightarrow> int list \<Rightarrow> 'w \<Rightarrow> 'w runner" where
  "RunTasks now intervals w =
     \<lparr>rn_now = now, rn_ctxDone = False,
      rn_tasks = map (\<lambda>iv. \<lparr>tk_Interval = iv, tk_phase = Waiting, tk_due = now + iv, tk_starts = []\<rparr>) intervals,
      rn_printed = [], rn_world = w\<rparr>"

definition task_fire :: "int \<Rightarrow> task \<Rightarrow> task" where
  "task_fire now t = t\<lparr>tk_phase := Running, tk_starts := tk_starts t @ [now]\<rparr>"

definition task_reset :: "int \<Rightarrow> task \<Rightarrow> task" where
  "task_reset now t = t\<lparr>tk_phase := Waiting, tk_due := now + tk_Interval t\<rparr>"

definition set_task :: "nat \<Rightarrow> task \<Rightarrow> 'w runner \<Rightarrow> 'w runner" where
  "set_task i t s = s\<lparr>rn_tasks := (rn_tasks s)[i := t]\<rparr>"

definition task_finish :: "'w task_run \<Rightarrow> nat \<Rightarrow> 'w runner \<Rightarrow> 'w runner" where
  "task_finish run i s =
     (let (w, err) = run i (rn_world s);
          printed = (case err of None \<Rightarrow> [] | Some e \<Rightarrow> [Wrapf ''failed to run periodic task: '' e])
      in (set_task i (task_reset (rn_now s) (rn_tasks s ! i)) s)
           \<lparr>rn_world := w, rn_printed := rn_printed s @ printed\<rparr>)"

inductive task_step :: "'w task_run \<Rightarrow> 'w runner \<Rightarrow> 'w runner \<Rightarrow> bool" for run where
  tick: "0 < d \<Longrightarrow> task_step run s (s\<lparr>rn_now := rn_now s + d\<rparr>)"
| cancel: "task_step run s (s\<lparr>rn_ctxDone := True\<rparr>)"
| fire: "i < length (rn_tasks s) \<Longrightarrow> tk_phase (rn_tasks s ! i) = Waiting \<Longrightarrow>
    tk_due (rn_tasks s ! i) \<le> rn_now s \<Longrightarrow>
    task_step run s (set_task i (task_fire (rn_now s) (rn_tasks s ! i)) s)"
| finish: "i < length (rn_tasks s) \<Longrightarrow> tk_phase (rn_tasks s ! i) = Running \<Longrightarrow>
    task_step run s (task_finish run i s)"
| stop: "i < length (rn_tasks s) \<Longrightarrow> tk_phase (rn_tasks s ! i) = Waiting \<Longrightarrow> rn_ctxDone s \<Longrightarrow>
    task_step run s (set_task i ((rn_tasks s ! i)\<lparr>tk_phase := Returned\<rparr>) s)"

inductive task_steps :: "'w task_run \<Rightarrow> 'w runner \<Rightarrow> 'w runner \<Rightarrow> bool" for run where
  refl: "task_steps run s s"
| step: "task_steps run s s' \<Longrightarrow> task_step run s' s'' \<Longrightarrow> task_steps run s s''"

lemmas task_defs = task_fire_def task_reset_def set_task_def task_finish_def

section \<open>The rate of a task\<close>

text \<open>Times at least \<open>iv\<close> apart, from \<open>t0\<close> on.\<close>

fun spaced :: "int \<Rightarrow> int \<Rightarrow> int list \<Rightarrow> bool" where
  "spaced iv t0 [] = True"
| "spaced iv t0 (t # ts) = (t0 + iv \<le> t \<and> spaced iv t ts)"

definition latest :: "int \<Rightarrow> int list \<Rightarrow> int" where
  "latest t0 ts = (if ts = [] then t0 else last ts)"

lemma spaced_snoc: "spaced iv t0 (ts @ [t]) \<longleftrightarrow> spaced iv t0 ts \<and> latest t0 ts + iv \<le> t"
  by (induction ts arbitrary: t0) (auto simp: latest_def)

lemma latest_snoc [simp]: "latest t0 (ts @ [t]) = t"
  by (simp add: latest_def)

lemma spaced_length: "spaced iv t0 ts \<Longrightarrow> t0 + iv * int (length ts) \<le> latest t0 ts"
proof (induction ts arbitrary: t0)
  case (Cons t ts)
  then have "t + iv * int (length ts) \<le> latest t ts" "t0 + iv \<le> t" by simp_all
  moreover have "latest t0 (t # ts) = latest t ts" by (simp add: latest_def)
  ultimately show ?case by (simp add: algebra_simps)
qed (simp add: latest_def)

definition task_ok :: "int \<Rightarrow> int \<Rightarrow> bool \<Rightarrow> task \<Rightarrow> bool" where
  "task_ok t0 now ctxDone t \<longleftrightarrow>
     spaced (tk_Interval t) t0 (tk_starts t) \<and> latest t0 (tk_starts t) \<le> now \<and>
     (tk_phase t = Waiting \<longrightarrow> latest t0 (tk_starts t) + tk_Interval t \<le> tk_due t) \<and>
     (tk_phase t = Returned \<longrightarrow> ctxDone)"

definition runner_ok :: "int \<Rightarrow> int list \<Rightarrow> 'w runner \<Rightarrow> bool" where
  "runner_ok t0 intervals s \<longleftrightarrow>
     map tk_Interval (rn_tasks s) = intervals \<and> t0 \<le> rn_now s \<and>
     (\<forall>t \<in> set (rn_tasks s). task_ok t0 (rn_now s) (rn_ctxDone s) t)"

lemma runner_ok_nth:
  "runner_ok t0 ivs s \<Longrightarrow> i < length (rn_tasks s) \<Longrightarrow> task_ok t0 (rn_now s) (rn_ctxDone s) (rn_tasks s ! i)"
  by (simp add: runner_ok_def)

lemma runner_ok_set_task:
  assumes "runner_ok t0 ivs s" "i < length (rn_tasks s)"
    "task_ok t0 (rn_now s) (rn_ctxDone s) t" "tk_Interval t = tk_Interval (rn_tasks s ! i)"
  shows "runner_ok t0 ivs (set_task i t s)"
  using assms
  by (auto simp: runner_ok_def set_task_def map_update list_update_same_conv
      dest!: set_update_subset_insert [THEN subsetD])

lemma RunTasks_ok: "runner_ok t0 ivs (RunTasks t0 ivs w)"
  by (auto simp: runner_ok_def RunTasks_def task_ok_def latest_def comp_def)

lemma task_step_ok: "task_step run s s' \<Longrightarrow> runner_ok t0 ivs s \<Longrightarrow> runner_ok t0 ivs s'"
proof (induction rule: task_step.induct)
  case (tick d s)
  then show ?case by (force simp: runner_ok_def task_ok_def)
next
  case (cancel s)
  then show ?case by (force simp: runner_ok_def task_ok_def)
next
  case (fire i s)
  with runner_ok_nth [OF fire.prems fire.hyps(1)] show ?case
    by (intro runner_ok_set_task) (auto simp: task_ok_def task_fire_def spaced_snoc)
next
  case (finish i s)
  have "runner_ok t0 ivs (set_task i (task_reset (rn_now s) (rn_tasks s ! i)) s)"
    using runner_ok_nth [OF finish.prems finish.hyps(1)] finish
    by (intro runner_ok_set_task) (auto simp: task_ok_def task_reset_def)
  then show ?case by (simp add: task_finish_def runner_ok_def split: prod.split)
next
  case (stop i s)
  with runner_ok_nth [OF stop.prems stop.hyps(1)] show ?case
    by (intro runner_ok_set_task) (auto simp: task_ok_def)
qed

lemma task_steps_ok: "task_steps run s s' \<Longrightarrow> runner_ok t0 ivs s \<Longrightarrow> runner_ok t0 ivs s'"
  by (induction rule: task_steps.induct) (auto intro: task_step_ok)

section \<open>Progress\<close>

lemma task_steps_trans: "task_steps run s s' \<Longrightarrow> task_steps run s' s'' \<Longrightarrow> task_steps run s s''"
  by (rotate_tac, induction rule: task_steps.induct) (auto intro: task_steps.step)

lemma task_steps_one: "task_step run s s' \<Longrightarrow> task_steps run s s'"
  by (blast intro: task_steps.intros)

lemma rn_tasks_set_task [simp]:
  "rn_tasks (set_task i t s) = (rn_tasks s)[i := t]" "rn_now (set_task i t s) = rn_now s"
  "rn_ctxDone (set_task i t s) = rn_ctxDone s"
  by (simp_all add: set_task_def)

text \<open>A running task can finish; then it waits.\<close>

lemma can_wait:
  assumes "i < length (rn_tasks s)" "tk_phase (rn_tasks s ! i) \<noteq> Returned"
  obtains s' where "task_steps run s s'" "length (rn_tasks s') = length (rn_tasks s)"
    "tk_phase (rn_tasks s' ! i) = Waiting" "tk_starts (rn_tasks s' ! i) = tk_starts (rn_tasks s ! i)"
    "rn_ctxDone s' = rn_ctxDone s"
proof (cases "tk_phase (rn_tasks s ! i)")
  case Waiting
  then show ?thesis using that [OF task_steps.refl] by simp
next
  case Running
  have "rn_tasks (task_finish run i s) = (rn_tasks s)[i := task_reset (rn_now s) (rn_tasks s ! i)]"
    "rn_ctxDone (task_finish run i s) = rn_ctxDone s"
    by (simp_all add: task_finish_def split: prod.split)
  with that [OF task_steps_one [OF task_step.finish [OF assms(1) Running]]] assms(1) show ?thesis
    by (simp add: task_reset_def)
qed (use assms in simp)

lemma can_fire:
  assumes "i < length (rn_tasks s)" "tk_phase (rn_tasks s ! i) = Waiting"
  obtains s' where "task_steps run s s'" "tk_starts (rn_tasks s' ! i) = tk_starts (rn_tasks s ! i) @ [rn_now s']"
proof -
  let ?d = "tk_due (rn_tasks s ! i) - rn_now s"
  obtain s0 where s0: "task_steps run s s0" "rn_tasks s0 = rn_tasks s" "tk_due (rn_tasks s ! i) \<le> rn_now s0"
  proof (cases "0 < ?d")
    case True
    then show ?thesis using that [OF task_steps_one [OF task_step.tick [OF True]]] by simp
  next
    case False
    then show ?thesis using that [OF task_steps.refl] by simp
  qed
  then have "task_step run s0 (set_task i (task_fire (rn_now s0) (rn_tasks s0 ! i)) s0)"
    using assms by (intro task_step.fire) simp_all
  with s0(1) have "task_steps run s (set_task i (task_fire (rn_now s0) (rn_tasks s0 ! i)) s0)"
    by (rule task_steps.step)
  with that show ?thesis using assms(1) s0(2) by (simp add: task_fire_def)
qed

section \<open>Properties\<close>

text \<open>
  C32: no task runs too often or twice at once. In every reachable state, whatever the other tasks do
  and however long runs take, the runs of a task began at least one interval apart, the first at
  least one interval after the start; so at most as many runs have begun as intervals have passed.
\<close>

theorem periodic_task_rate:
  assumes "task_steps run (RunTasks t0 intervals w) s" "i < length intervals"
  shows "spaced (intervals ! i) t0 (tk_starts (rn_tasks s ! i)) \<and>
    t0 + intervals ! i * int (length (tk_starts (rn_tasks s ! i))) \<le> rn_now s"
proof -
  have ok: "runner_ok t0 intervals s" using task_steps_ok [OF assms(1) RunTasks_ok] .
  then have "map tk_Interval (rn_tasks s) = intervals" by (simp add: runner_ok_def)
  then have i: "i < length (rn_tasks s)" "tk_Interval (rn_tasks s ! i) = intervals ! i"
    using assms(2) by auto
  show ?thesis
    using runner_ok_nth [OF ok i(1)] spaced_length [of "intervals ! i" t0 "tk_starts (rn_tasks s ! i)"]
    by (simp add: task_ok_def i(2))
qed

definition example_run :: "nat \<Rightarrow> nat \<Rightarrow> nat \<times> go_error option" where
  "example_run i w = (Suc w, if i = 0 then Some (Errorf ''down'') else None)"

lemma example_fire:
  "task_steps example_run (RunTasks 0 [5] 0) (set_task 0 (task_fire 5 (rn_tasks (RunTasks 0 [5] (0 :: nat)) ! 0))
     ((RunTasks 0 [5] 0)\<lparr>rn_now := 5\<rparr>))"
proof -
  have "task_step example_run (RunTasks 0 [5] (0 :: nat)) ((RunTasks 0 [5] 0)\<lparr>rn_now := 0 + 5\<rparr>)"
    using task_step.tick [of 5 example_run "RunTasks 0 [5] (0 :: nat)"] by (simp add: RunTasks_def)
  moreover have "task_step example_run ((RunTasks 0 [5] (0 :: nat))\<lparr>rn_now := 5\<rparr>)
      (set_task 0 (task_fire 5 (rn_tasks (RunTasks 0 [5] (0 :: nat)) ! 0)) ((RunTasks 0 [5] 0)\<lparr>rn_now := 5\<rparr>))"
    using task_step.fire [of 0 "(RunTasks 0 [5] (0 :: nat))\<lparr>rn_now := 5\<rparr>" example_run]
    by (simp add: RunTasks_def)
  ultimately show ?thesis by (simp add: task_steps.step [OF task_steps_one])
qed

theorem periodic_task_rate_witness:
  "spaced 5 0 [5] \<and> (0 :: int) + 5 * 1 \<le> 5"
  using periodic_task_rate [OF example_fire, of 0] by (simp add: RunTasks_def task_fire_def)

text \<open>
  Errors do not stop a task. As long as the context is not done, from every reachable state every
  task can begin another run, whatever its runs returned; and once the context is done, every task
  can return.
\<close>

theorem periodic_tasks_survive:
  assumes "task_steps run (RunTasks t0 intervals w) s" "i < length intervals"
  shows "(\<not> rn_ctxDone s \<longrightarrow> (\<exists>s'. task_steps run s s' \<and>
      length (tk_starts (rn_tasks s' ! i)) = Suc (length (tk_starts (rn_tasks s ! i))))) \<and>
    (rn_ctxDone s \<longrightarrow> (\<exists>s'. task_steps run s s' \<and> tk_phase (rn_tasks s' ! i) = Returned))"
proof -
  have ok: "runner_ok t0 intervals s" using task_steps_ok [OF assms(1) RunTasks_ok] .
  then have i: "i < length (rn_tasks s)" using assms(2) by (auto simp: runner_ok_def)
  show ?thesis
  proof (cases "tk_phase (rn_tasks s ! i) = Returned")
    case True
    then show ?thesis using runner_ok_nth [OF ok i] task_steps.refl by (auto simp: task_ok_def)
  next
    case False
    obtain s1 where s1: "task_steps run s s1" "length (rn_tasks s1) = length (rn_tasks s)"
      "tk_phase (rn_tasks s1 ! i) = Waiting" "tk_starts (rn_tasks s1 ! i) = tk_starts (rn_tasks s ! i)"
      "rn_ctxDone s1 = rn_ctxDone s"
      using can_wait [OF i False] .
    have i1: "i < length (rn_tasks s1)" using i s1(2) by simp
    obtain s2 where "task_steps run s1 s2" "tk_starts (rn_tasks s2 ! i) = tk_starts (rn_tasks s1 ! i) @ [rn_now s2]"
      using can_fire [OF i1 s1(3)] .
    moreover have "rn_ctxDone s \<Longrightarrow>
        \<exists>s'. task_step run s1 s' \<and> tk_phase (rn_tasks s' ! i) = Returned"
      using task_step.stop [OF i1 s1(3)] s1(5) i1 by fastforce
    ultimately show ?thesis
      using s1(1,4) task_steps_trans task_steps.step by (metis length_append_singleton)
  qed
qed

theorem periodic_tasks_survive_witness:
  "\<exists>s'. task_steps example_run (RunTasks 0 [5] 0) s' \<and> length (tk_starts (rn_tasks s' ! 0)) = 1"
  using periodic_tasks_survive [of example_run 0 "[5]" 0 "RunTasks 0 [5] 0" 0, OF task_steps.refl]
  by (simp add: RunTasks_def)

end
