(* ===== verification/Metric_Tasks.thy ===== *)
theory Metric_Tasks
  imports Periodic_Tasks Measures
begin

text \<open>
  \<^verbatim>\<open>src/metricstasks/metricstasks.go\<close>: the tasks that measure a hydra from time to time, and
  \<^verbatim>\<open>src/datastore/postgres.go\<close>: opening the PostgreSQL datastore one of them asks.

  What a task records is a list of measures with their values. The loop over the results of a query
  is a function of the events its \<open>select\<close> receives; if they end before the channel is closed or the
  context is done, the loop is still waiting, which is \<open>None\<close>. \<open>'f\<close> is \<open>float64\<close> with the parameter
  \<open>int64\<close> for its conversion. The unsigned counts are 64-bit words, and \<open>sint\<close> is Go's conversion.
\<close>

section \<open>Counting provider records\<close>

type_synonym measurements = "(measure \<times> int) list"

text \<open>A returned error or \<open>nil\<close>, with what was recorded.\<close>

type_synonym task_result = "go_error option \<times> measurements"

datatype query_event = Result "go_error option" | Channel_Closed | Ctx_Done

fun count_results :: "query_event list \<Rightarrow> int \<Rightarrow> task_result option" where
  "count_results [] provRecords = None"
| "count_results (Channel_Closed # evs) provRecords = Some (None, [(ProviderRecords, provRecords)])"
| "count_results (Ctx_Done # evs) provRecords = Some (None, [])"
| "count_results (Result err # evs) provRecords =
     count_results evs (if err = None then provRecords + 1 else provRecords)"

definition countProviderRecordsExactly :: "query_event list outcome \<Rightarrow> task_result option" where
  "countProviderRecordsExactly results =
     (case results of
        Error e \<Rightarrow> Some (Some e, [])
      | Panic p \<Rightarrow> None
      | Ok evs \<Rightarrow> count_results evs 0)"

definition countProviderRecordsApproximately :: "('f \<Rightarrow> int) \<Rightarrow> 'f outcome \<Rightarrow> task_result option" where
  "countProviderRecordsApproximately int64 scanned =
     (case scanned of
        Error e \<Rightarrow> Some (Some e, [])
      | Panic p \<Rightarrow> None
      | Ok n \<Rightarrow> Some (None, [(ProviderRecords, int64 n)]))"

definition recordFromProviderRecordCounter :: "int outcome \<Rightarrow> task_result option" where
  "recordFromProviderRecordCounter counted =
     (case counted of
        Error e \<Rightarrow> Some (Some e, [])
      | Panic p \<Rightarrow> None
      | Ok n \<Rightarrow> Some (None, [(ProviderRecords, n)]))"

text \<open>What the sources answer during one run.\<close>

record 'f count_answers =
  ca_query :: "query_event list outcome"     \<comment> \<open>\<open>datastore.Query\<close> with prefix \<open>/providers\<close>\<close>
  ca_scan :: "'f outcome"                    \<comment> \<open>the estimate of the table, scanned\<close>
  ca_count :: "int outcome"                  \<comment> \<open>\<open>CountProviderRecords\<close>\<close>

record 'a metric_task =
  pt_Interval :: int
  pt_Run :: "'a \<Rightarrow> task_result option"

text \<open>The two type assertions are Boolean arguments.\<close>

definition NewProviderRecordsTask ::
    "('f \<Rightarrow> int) \<Rightarrow> bool \<Rightarrow> bool \<Rightarrow> int \<Rightarrow> 'f count_answers metric_task" where
  "NewProviderRecordsTask int64 withPgxPool isCounter d =
     \<lparr>pt_Interval = d,
      pt_Run = (\<lambda>ans.
        if withPgxPool then countProviderRecordsApproximately int64 (ca_scan ans)
        else if isCounter then recordFromProviderRecordCounter (ca_count ans)
        else countProviderRecordsExactly (ca_query ans))\<rparr>"

definition NewRoutingTableSizeTask :: "('a \<Rightarrow> int) \<Rightarrow> int \<Rightarrow> 'a metric_task" where
  "NewRoutingTableSizeTask getRoutingTableSize d =
     \<lparr>pt_Interval = d, pt_Run = (\<lambda>a. Some (None, [(RoutingTableSize, getRoutingTableSize a)]))\<rparr>"

definition NewUniquePeersTask :: "('a \<Rightarrow> 64 word) \<Rightarrow> int \<Rightarrow> 'a metric_task" where
  "NewUniquePeersTask getUniquePeersCount d =
     \<lparr>pt_Interval = d, pt_Run = (\<lambda>a. Some (None, [(UniquePeers, sint (getUniquePeersCount a))]))\<rparr>"

definition NewIPNSRecordsTask :: "('a \<Rightarrow> 64 word outcome) \<Rightarrow> int \<Rightarrow> 'a metric_task" where
  "NewIPNSRecordsTask entryCount d =
     \<lparr>pt_Interval = d,
      pt_Run = (\<lambda>a. case entryCount a of
        Error e \<Rightarrow> Some (Some e, [])
      | Panic p \<Rightarrow> None
      | Ok n \<Rightarrow> Some (None, [(IPNSRecords, sint n)]))\<rparr>"

section \<open>Opening PostgreSQL\<close>

record ('w, 'c, 'p, 'h) pg_env =
  pe_ParseConfig :: "string \<Rightarrow> 'c outcome"
  pe_ConnectConfig :: "'c \<Rightarrow> 'w \<Rightarrow> 'w \<times> 'p outcome"
  pe_Exec :: "'p \<Rightarrow> string \<Rightarrow> 'w \<Rightarrow> 'w \<times> go_error option"
  pe_Close :: "'p \<Rightarrow> 'w \<Rightarrow> 'w"
  pe_NewDatastore :: "string \<Rightarrow> string \<Rightarrow> 'w \<Rightarrow> 'w \<times> 'h outcome"

definition TableName :: string where "TableName = ''records''"

definition create_table :: string where
  "create_table = ''CREATE TABLE IF NOT EXISTS '' @ TableName @ '' (key TEXT NOT NULL UNIQUE, data BYTEA)''"

definition create_index :: string where
  "create_index = ''CREATE INDEX IF NOT EXISTS '' @ TableName @ ''_key_text_pattern_ops_idx ON '' @
     TableName @ '' (key text_pattern_ops)''"

definition create_db :: "('w, 'c, 'p, 'h) pg_env \<Rightarrow> string \<Rightarrow> 'w \<Rightarrow> 'w \<times> unit outcome" where
  "create_db env connstr w =
     (case pe_ParseConfig env connstr of
        Error e \<Rightarrow> (w, Error e)
      | Panic p \<Rightarrow> (w, Panic p)
      | Ok connConf \<Rightarrow>
          (case pe_ConnectConfig env connConf w of
             (w1, Error e) \<Rightarrow> (w1, Error e)
           | (w1, Panic p) \<Rightarrow> (w1, Panic p)
           | (w1, Ok pool) \<Rightarrow>
               (case pe_Exec env pool create_table w1 of
                  (w2, Some e) \<Rightarrow> (w2, Error e)
                | (w2, None) \<Rightarrow>
                    (case pe_Exec env pool create_index w2 of
                       (w3, Some e) \<Rightarrow> (w3, Error e)
                     | (w3, None) \<Rightarrow> (pe_Close env pool w3, Ok ())))))"

definition NewPostgreSQLDatastore ::
    "('w, 'c, 'p, 'h) pg_env \<Rightarrow> string \<Rightarrow> bool \<Rightarrow> 'w \<Rightarrow> 'w \<times> 'h outcome" where
  "NewPostgreSQLDatastore env connstr createDB w =
     (case (if createDB then create_db env connstr w else (w, Ok ())) of
        (w1, Error e) \<Rightarrow> (w1, Error e)
      | (w1, Panic p) \<Rightarrow> (w1, Panic p)
      | (w1, Ok _) \<Rightarrow> pe_NewDatastore env connstr TableName w1)"

section \<open>Facts\<close>

text \<open>The events of a query whose channel is closed or whose context is done at last.\<close>

lemma count_results_closed:
  "count_results (map Result errs @ Channel_Closed # evs) n =
    Some (None, [(ProviderRecords, n + int (length (filter (\<lambda>e. e = None) errs)))])"
  by (induction errs arbitrary: n) simp_all

lemma count_results_done: "count_results (map Result errs @ Ctx_Done # evs) n = Some (None, [])"
  by (induction errs arbitrary: n) simp_all

lemma count_results_waiting: "count_results (map Result errs) n = None"
  by (induction errs arbitrary: n) simp_all

text \<open>If creating the table or the index fails, the pool that was opened is not closed: no \<open>Close\<close> is
  among the effects.\<close>

lemma create_db_failure_keeps_pool_open:
  assumes "pe_ParseConfig env connstr = Ok conf" "pe_ConnectConfig env conf w = (w1, Ok pool)"
    "pe_Exec env pool create_table w1 = (w2, Some e)"
  shows "NewPostgreSQLDatastore env connstr True w = (w2, Error e)"
  using assms by (simp add: NewPostgreSQLDatastore_def create_db_def)

lemma create_db_closes_pool:
  assumes "pe_ParseConfig env connstr = Ok conf" "pe_ConnectConfig env conf w = (w1, Ok pool)"
    "pe_Exec env pool create_table w1 = (w2, None)" "pe_Exec env pool create_index w2 = (w3, None)"
  shows "NewPostgreSQLDatastore env connstr True w =
    pe_NewDatastore env connstr TableName (pe_Close env pool w3)"
  using assms by (simp add: NewPostgreSQLDatastore_def create_db_def)

text \<open>A count of \<open>2^63\<close> entries or more would be recorded as a negative number.\<close>

lemma IPNS_count_wraps:
  "pt_Run (NewIPNSRecordsTask (\<lambda>c. Ok c) d) (- 1) = Some (None, [(IPNSRecords, - 1)])"
  by (simp add: NewIPNSRecordsTask_def)

section \<open>Properties\<close>

text \<open>
  the provider record task asks the cheapest source it has: the estimate of the database if the
  datastore has a connection pool, else the provider store's own counter, else a query over all keys.
  The query counts exactly the results without an error and records the count once, when the channel
  is closed; when the context is done first, it records nothing and still returns no error. If the
  source fails, the error is returned and nothing is recorded.
\<close>

theorem provider_records_task_correct:
  "pt_Interval (NewProviderRecordsTask int64 pg counter d) = d \<and>
   (\<not> pg \<and> \<not> counter \<and> ca_query ans = Ok (map Result errs @ last_event # rest) \<longrightarrow>
      (last_event = Channel_Closed \<longrightarrow> pt_Run (NewProviderRecordsTask int64 pg counter d) ans =
         Some (None, [(ProviderRecords, int (length (filter (\<lambda>e. e = None) errs)))])) \<and>
      (last_event = Ctx_Done \<longrightarrow> pt_Run (NewProviderRecordsTask int64 pg counter d) ans = Some (None, []))) \<and>
   (pg \<and> ca_scan ans = Ok n \<longrightarrow> pt_Run (NewProviderRecordsTask int64 pg counter d) ans =
      Some (None, [(ProviderRecords, int64 n)])) \<and>
   (\<not> pg \<and> counter \<and> ca_count ans = Ok c \<longrightarrow> pt_Run (NewProviderRecordsTask int64 pg counter d) ans =
      Some (None, [(ProviderRecords, c)])) \<and>
   (\<forall>e. (if pg then ca_scan ans = Error e else if counter then ca_count ans = Error e
         else ca_query ans = Error e) \<longrightarrow>
      pt_Run (NewProviderRecordsTask int64 pg counter d) ans = Some (Some e, []))"
  by (simp add: NewProviderRecordsTask_def countProviderRecordsExactly_def
      countProviderRecordsApproximately_def recordFromProviderRecordCounter_def
      count_results_closed count_results_done)

theorem provider_records_task_correct_witness:
  "pt_Run (NewProviderRecordsTask (id :: int \<Rightarrow> int) False False 300)
     \<lparr>ca_query = Ok [Result None, Result (Some TypedNil), Result None, Channel_Closed],
      ca_scan = Ok 0, ca_count = Ok 9\<rparr> = Some (None, [(ProviderRecords, 2)])"
proof -
  let ?ans = "\<lparr>ca_query = Ok [Result None, Result (Some TypedNil), Result None, Channel_Closed],
      ca_scan = Ok (0 :: int), ca_count = Ok 9\<rparr>"
  have "ca_query ?ans = Ok (map Result [None, Some TypedNil, None] @ Channel_Closed # [])" by simp
  then show ?thesis
    using provider_records_task_correct [of "id :: int \<Rightarrow> int" False False 300 ?ans
        "[None, Some TypedNil, None]" Channel_Closed "[]"] by simp
qed

end
