(* ===== verification/Hydra_Tasks.thy ===== *)
theory Hydra_Tasks
  imports Observation Metric_Tasks Periodic_Tasks Hydra
begin

text \<open>
  The end of \<open>NewHydra\<close> in \<^verbatim>\<open>src/hydra/hydra.go\<close>: the two metric tasks of a hydra (theory \<open>Metric_Tasks\<close>),
  run by the periodic runner (theory \<open>Periodic_Tasks\<close>) while the heads of the hydra report their
  connections (theory \<open>Observation\<close>) and their routing tables change.

  The world of the runner holds what has been recorded, the sketch of seen peers and the size of each
  routing table; \<open>hw_history\<close> collects what the heads have reported. The steps are those of the runner,
  a report of a head, and a change of the routing tables, in any order.
\<close>

section \<open>The code\<close>

definition routingTableSizeTaskInterval :: int where
  "routingTableSizeTaskInterval = 5 * 1000000000"

definition uniquePeersTaskInterval :: int where
  "uniquePeersTaskInterval = 5 * 1000000000"

record ('l, 'h) hydra_world =
  hw_observers :: "'l observers"
  hw_tableSize :: "'h \<Rightarrow> int"
  hw_history :: "observation list"

definition hydra_tasks :: "'l hyperloglog \<Rightarrow> 'h hydra \<Rightarrow> ('l, 'h) hydra_world metric_task list" where
  "hydra_tasks hl hy =
     [NewRoutingTableSizeTask (\<lambda>w. GetRoutingTableSize (hw_tableSize w) hy) routingTableSizeTaskInterval,
      NewUniquePeersTask (\<lambda>w. GetUniquePeersCount hl (hw_observers w)) uniquePeersTaskInterval]"

text \<open>\<open>stats.Record(ctx, ...)\<close> of a task, with the tags of the hydra's context.\<close>

definition record_task :: "tags \<Rightarrow> task_result option \<Rightarrow> ('l, 'h) hydra_world \<Rightarrow> ('l, 'h) hydra_world \<times> go_error option" where
  "record_task ctx res w =
     (case res of
        None \<Rightarrow> (w, None)
      | Some (err, ms) \<Rightarrow>
          (w\<lparr>hw_observers := (hw_observers w)
             \<lparr>ob_recorded := ob_recorded (hw_observers w) @ (if ms = [] then [] else [(ctx, ms)])\<rparr>\<rparr>, err))"

definition hydra_run :: "tags \<Rightarrow> 'l hyperloglog \<Rightarrow> 'h hydra \<Rightarrow> ('l, 'h) hydra_world task_run" where
  "hydra_run ctx hl hy i w = record_task ctx (pt_Run (hydra_tasks hl hy ! i) w) w"

definition run_hydra_tasks ::
    "int \<Rightarrow> 'l hyperloglog \<Rightarrow> 'h hydra \<Rightarrow> ('l, 'h) hydra_world \<Rightarrow> ('l, 'h) hydra_world runner" where
  "run_hydra_tasks now hl hy w = RunTasks now (map pt_Interval (hydra_tasks hl hy)) w"

definition head_reports ::
    "'l hyperloglog \<Rightarrow> tag_new \<Rightarrow> tags \<Rightarrow> observation \<Rightarrow> ('l, 'h) hydra_world \<Rightarrow> ('l, 'h) hydra_world" where
  "head_reports hl newTags ctx ev w =
     w\<lparr>hw_observers := observe hl newTags ctx ev (hw_observers w), hw_history := hw_history w @ [ev]\<rparr>"

inductive hydra_step ::
    "(string \<Rightarrow> bool) \<Rightarrow> 'l hyperloglog \<Rightarrow> tag_new \<Rightarrow> tags \<Rightarrow> 'h hydra \<Rightarrow>
     ('l, 'h) hydra_world runner \<Rightarrow> ('l, 'h) hydra_world runner \<Rightarrow> bool"
  for valid hl newTags ctx hy where
  task: "task_step (hydra_run ctx hl hy) s s' \<Longrightarrow> hydra_step valid hl newTags ctx hy s s'"
| report: "valid (ob_head ev) \<Longrightarrow>
    hydra_step valid hl newTags ctx hy s (s\<lparr>rn_world := head_reports hl newTags ctx ev (rn_world s)\<rparr>)"
| tables: "hydra_step valid hl newTags ctx hy s (s\<lparr>rn_world := (rn_world s)\<lparr>hw_tableSize := f\<rparr>\<rparr>)"

section \<open>The rows of a view that keeps the last value\<close>

definition row_values :: "view \<Rightarrow> recording list \<Rightarrow> row \<Rightarrow> int list" where
  "row_values v recs r =
     concat (map (\<lambda>(tags, ms). if row_of v tags = r then map snd (filter (\<lambda>(m, x). m = vw_Measure v) ms) else []) recs)"

definition row_last :: "view \<Rightarrow> recording list \<Rightarrow> row \<Rightarrow> int option" where
  "row_last v recs r = (if row_values v recs r = [] then None else Some (last (row_values v recs r)))"

lemma row_values_append [simp]: "row_values v (recs @ recs') r = row_values v recs r @ row_values v recs' r"
  by (simp add: row_values_def)

lemma row_last_snoc: "row_values v recs' r = [x] \<Longrightarrow> row_last v (recs @ recs') r = Some x"
  by (simp add: row_last_def)

definition seen :: "'l hyperloglog \<Rightarrow> observation list \<Rightarrow> int" where
  "seen hl evs = sint (hl_Estimate hl (fold (hl_Insert hl) (remotes evs) (hl_New hl)))"

lemma hydra_runs:
  "hydra_run ctx hl hy 0 w =
     (w\<lparr>hw_observers := (hw_observers w)\<lparr>ob_recorded := ob_recorded (hw_observers w) @
        [(ctx, [(RoutingTableSize, GetRoutingTableSize (hw_tableSize w) hy)])]\<rparr>\<rparr>, None)"
  "hydra_run ctx hl hy (Suc 0) w =
     (w\<lparr>hw_observers := (hw_observers w)\<lparr>ob_recorded := ob_recorded (hw_observers w) @
        [(ctx, [(UniquePeers, sint (GetUniquePeersCount hl (hw_observers w)))])]\<rparr>\<rparr>, None)"
  by (simp_all add: hydra_run_def hydra_tasks_def NewRoutingTableSizeTask_def NewUniquePeersTask_def record_task_def)

lemma other_measures [simp]:
  "UniquePeers \<noteq> RoutingTableSize" "RoutingTableSize \<noteq> UniquePeers"
  "UniquePeers \<noteq> Heads" "UniquePeers \<noteq> ConnectedPeers" "UniquePeers \<noteq> BootstrappedHeads"
  "RoutingTableSize \<noteq> Heads" "RoutingTableSize \<noteq> ConnectedPeers" "RoutingTableSize \<noteq> BootstrappedHeads"
  by (simp_all add: measure_defs)

lemmas other_measures_sym [simp] = other_measures(3-8) [symmetric]

lemma reported_measure: "ob_measure ev \<in> {Heads, ConnectedPeers, BootstrappedHeads}"
  by (cases ev) simp_all

lemma reported_values:
  "row_values UniquePeersView [recorded_as name ev] r = []" "row_values RoutingTableSizeView [recorded_as name ev] r = []"
  using reported_measure [of ev] other_measures
  by (auto simp: row_values_def recorded_as_def UniquePeersView_def RoutingTableSizeView_def simp del: key_defs)

lemma task_values:
  "row_values UniquePeersView [([KeyName \<mapsto> name], [(UniquePeers, x)])] [Some name] = [x]"
  "row_values UniquePeersView [([KeyName \<mapsto> name], [(RoutingTableSize, x)])] [Some name] = []"
  "row_values RoutingTableSizeView [([KeyName \<mapsto> name], [(RoutingTableSize, x)])] [Some name] = [x]"
  by (simp_all add: row_values_def row_of_def UniquePeersView_def RoutingTableSizeView_def)

lemma task_total:
  "vw_Measure v \<in> {Heads, ConnectedPeers, BootstrappedHeads} \<Longrightarrow> m \<in> {UniquePeers, RoutingTableSize} \<Longrightarrow>
   row_total v (recs @ [(ctx, [(m, x)])]) r = row_total v recs r"
  using other_measures by (auto simp: measured_def)

section \<open>The invariant\<close>

text \<open>The rows of heads show the history; the values of the unique peers are those of growing parts of it.\<close>

definition hydra_inv :: "'l hyperloglog \<Rightarrow> string \<Rightarrow> ('l, 'h) hydra_world \<Rightarrow> bool" where
  "hydra_inv hl name w \<longleftrightarrow>
     ob_hyperlog (hw_observers w) = fold (hl_Insert hl) (remotes (hw_history w)) (hl_New hl) \<and>
     (\<forall>v r. vw_Measure v \<in> {Heads, ConnectedPeers, BootstrappedHeads} \<longrightarrow>
        row_total v (ob_recorded (hw_observers w)) r = row_total v (map (recorded_as name) (hw_history w)) r) \<and>
     (\<exists>ns. sorted ns \<and> (\<forall>n \<in> set ns. n \<le> length (hw_history w)) \<and>
        row_values UniquePeersView (ob_recorded (hw_observers w)) [Some name] =
          map (\<lambda>n. seen hl (take n (hw_history w))) ns)"

lemma hydra_inv_report:
  assumes "hydra_inv hl name w" "tag_library valid newTags" "valid (ob_head ev)"
  shows "hydra_inv hl name (head_reports hl newTags [KeyName \<mapsto> name] ev w)"
proof -
  have rec: "ob_recorded (observe hl newTags [KeyName \<mapsto> name] ev (hw_observers w)) =
      ob_recorded (hw_observers w) @ [recorded_as name ev]"
    by (rule observe_records [OF assms(2,3)])
  have log: "ob_hyperlog (observe hl newTags [KeyName \<mapsto> name] ev (hw_observers w)) =
      fold (hl_Insert hl) (remotes (hw_history w @ [ev])) (hl_New hl)"
    using assms(1) observe_hyperlog [of hl newTags "[KeyName \<mapsto> name]" "[ev]" "hw_observers w"]
    by (simp add: hydra_inv_def remotes_def del: key_defs)
  obtain ns where ns: "sorted ns" "\<forall>n \<in> set ns. n \<le> length (hw_history w)"
      "row_values UniquePeersView (ob_recorded (hw_observers w)) [Some name] =
        map (\<lambda>n. seen hl (take n (hw_history w))) ns"
    using assms(1) by (auto simp: hydra_inv_def)
  have "map (\<lambda>n. seen hl (take n (hw_history w))) ns = map (\<lambda>n. seen hl (take n (hw_history w @ [ev]))) ns"
    using ns(2) by (intro map_cong) simp_all
  with ns have "\<exists>ns. sorted ns \<and> (\<forall>n \<in> set ns. n \<le> length (hw_history w @ [ev])) \<and>
      row_values UniquePeersView (ob_recorded (hw_observers w) @ [recorded_as name ev]) [Some name] =
        map (\<lambda>n. seen hl (take n (hw_history w @ [ev]))) ns"
    by (intro exI [of _ ns]) (auto simp: reported_values)
  with assms(1) log show ?thesis
    by (simp add: hydra_inv_def head_reports_def rec del: key_defs)
qed

lemma hydra_inv_run:
  assumes "hydra_inv hl name w" "i < length (hydra_tasks hl hy)"
  shows "hydra_inv hl name (fst (hydra_run [KeyName \<mapsto> name] hl hy i w))"
proof -
  have "i = 0 \<or> i = Suc 0" using assms(2) by (auto simp: hydra_tasks_def)
  then show ?thesis
  proof
    assume "i = 0"
    then show ?thesis using assms(1) task_total by (simp add: hydra_inv_def hydra_runs task_values del: key_defs)
  next
    assume i: "i = Suc 0"
    obtain ns where ns: "sorted ns" "\<forall>n \<in> set ns. n \<le> length (hw_history w)"
        "row_values UniquePeersView (ob_recorded (hw_observers w)) [Some name] =
          map (\<lambda>n. seen hl (take n (hw_history w))) ns"
      using assms(1) by (auto simp: hydra_inv_def)
    have now: "sint (GetUniquePeersCount hl (hw_observers w)) = seen hl (hw_history w)"
      using assms(1) by (simp add: hydra_inv_def GetUniquePeersCount_def seen_def)
    have "sorted (ns @ [length (hw_history w)])" using ns(1,2) by (simp add: sorted_append)
    with ns show ?thesis using assms(1) task_total i
      by (simp add: hydra_inv_def hydra_runs task_values now del: key_defs)
        (intro exI [of _ "ns @ [length (hw_history w)]"], auto)
  qed
qed

definition runs_ok :: "'l hyperloglog \<Rightarrow> string \<Rightarrow> int \<Rightarrow> 'h hydra \<Rightarrow> ('l, 'h) hydra_world runner \<Rightarrow> bool" where
  "runs_ok hl name t0 hy s \<longleftrightarrow>
     runner_ok t0 (map pt_Interval (hydra_tasks hl hy)) s \<and> hydra_inv hl name (rn_world s)"

lemma runner_ok_world [simp]: "runner_ok t0 ivs (s\<lparr>rn_world := w\<rparr>) = runner_ok t0 ivs s"
  by (simp add: runner_ok_def)

lemma runner_ok_length: "runner_ok t0 ivs s \<Longrightarrow> length (rn_tasks s) = length ivs"
  unfolding runner_ok_def by (metis length_map)

lemma hydra_step_ok:
  assumes "hydra_step valid hl newTags [KeyName \<mapsto> name] hy s s'" "runs_ok hl name t0 hy s" "tag_library valid newTags"
  shows "runs_ok hl name t0 hy s'"
  using assms(1)
proof cases
  case task
  have ok: "runner_ok t0 (map pt_Interval (hydra_tasks hl hy)) s'"
    using task_step_ok [OF task] assms(2) by (simp add: runs_ok_def)
  from task have "hydra_inv hl name (rn_world s')"
  proof cases
    case (finish i)
    then have "i < length (hydra_tasks hl hy)"
      using assms(2) runner_ok_length unfolding runs_ok_def by fastforce
    then show ?thesis
      using hydra_inv_run [of hl name "rn_world s" i hy] assms(2) finish(1)
      by (simp add: task_finish_def runs_ok_def split: prod.splits)
  qed (use assms(2) in \<open>simp_all add: runs_ok_def set_task_def\<close>)
  with ok show ?thesis by (simp add: runs_ok_def)
next
  case (report ev)
  with assms(2,3) show ?thesis by (simp add: runs_ok_def hydra_inv_report del: key_defs)
next
  case (tables f)
  with assms(2) show ?thesis by (simp add: runs_ok_def hydra_inv_def)
qed

lemma hydra_steps_ok:
  assumes "(hydra_step valid hl newTags [KeyName \<mapsto> name] hy)\<^sup>*\<^sup>* s s'" "runs_ok hl name t0 hy s"
    "tag_library valid newTags"
  shows "runs_ok hl name t0 hy s'"
  using assms by (induction rule: rtranclp_induct) (auto intro: hydra_step_ok)

lemma hydra_start_ok:
  assumes "tag_library valid newTags" "\<forall>ev \<in> set evs. valid (ob_head ev)"
  shows "runs_ok hl name now hy (run_hydra_tasks now hl hy
    \<lparr>hw_observers = observed hl newTags [KeyName \<mapsto> name] evs, hw_tableSize = f, hw_history = evs\<rparr>)"
proof -
  have none: "row_values UniquePeersView (map (recorded_as name) evs) [Some name] = []"
  proof (induction evs)
    case (Cons ev evs)
    then show ?case
      using row_values_append [of UniquePeersView "[recorded_as name ev]" "map (recorded_as name) evs" "[Some name]"]
      by (simp add: reported_values)
  qed (simp add: row_values_def)
  have log: "ob_hyperlog (observed hl newTags [KeyName \<mapsto> name] evs) = fold (hl_Insert hl) (remotes evs) (hl_New hl)"
    by (simp add: observed_def observe_hyperlog new_observers_def)
  have "hydra_inv hl name
      \<lparr>hw_observers = observed hl newTags [KeyName \<mapsto> name] evs, hw_tableSize = f, hw_history = evs\<rparr>"
    unfolding hydra_inv_def using none log observed_recorded [OF assms, of hl name]
    by (auto simp del: key_defs intro!: exI [of _ "[]"])
  moreover have "rn_world (RunTasks now ivs w) = w" for ivs and w :: "('a, 'b) hydra_world"
    by (simp add: RunTasks_def)
  ultimately show ?thesis
    using RunTasks_ok by (simp add: runs_ok_def run_hydra_tasks_def del: key_defs)
qed

section \<open>Progress\<close>

lemma can_run:
  assumes "i < length (rn_tasks s)" "tk_phase (rn_tasks s ! i) \<noteq> Returned"
  obtains s' where "task_steps run s s'" "i < length (rn_tasks s')" "tk_phase (rn_tasks s' ! i) = Running"
proof -
  obtain s1 where s1: "task_steps run s s1" "length (rn_tasks s1) = length (rn_tasks s)"
      "tk_phase (rn_tasks s1 ! i) = Waiting"
    using can_wait [OF assms] by metis
  define s2 where "s2 = s1\<lparr>rn_now := rn_now s1 + max 1 (tk_due (rn_tasks s1 ! i) - rn_now s1)\<rparr>"
  have "task_step run s1 s2" unfolding s2_def by (rule task_step.tick) simp
  moreover have "task_step run s2 (set_task i (task_fire (rn_now s2) (rn_tasks s2 ! i)) s2)"
    by (rule task_step.fire) (use s1 assms(1) in \<open>auto simp: s2_def\<close>)
  ultimately have "task_steps run s (set_task i (task_fire (rn_now s2) (rn_tasks s2 ! i)) s2)"
    using s1(1) task_steps.step by metis
  with that show ?thesis using s1(2) assms(1) by (simp add: s2_def task_fire_def)
qed

lemma runner_keeps:
  assumes "task_steps (hydra_run ctx hl hy) s s'"
  shows "hw_history (rn_world s') = hw_history (rn_world s) \<and> hw_tableSize (rn_world s') = hw_tableSize (rn_world s) \<and>
    ob_hyperlog (hw_observers (rn_world s')) = ob_hyperlog (hw_observers (rn_world s))"
  using assms
proof (induction rule: task_steps.induct)
  case (step s s' s'')
  have "hw_history (fst (record_task ctx res w)) = hw_history w \<and> hw_tableSize (fst (record_task ctx res w)) = hw_tableSize w \<and>
      ob_hyperlog (hw_observers (fst (record_task ctx res w))) = ob_hyperlog (hw_observers w)" for res and w :: "('a, 'b) hydra_world"
    by (simp add: record_task_def split: option.split prod.split)
  then have run: "hw_history (fst (hydra_run ctx hl hy i w)) = hw_history w \<and> hw_tableSize (fst (hydra_run ctx hl hy i w)) = hw_tableSize w \<and>
      ob_hyperlog (hw_observers (fst (hydra_run ctx hl hy i w))) = ob_hyperlog (hw_observers w)" for i w
    by (simp add: hydra_run_def)
  from step(2) have "hw_history (rn_world s'') = hw_history (rn_world s') \<and> hw_tableSize (rn_world s'') = hw_tableSize (rn_world s') \<and>
    ob_hyperlog (hw_observers (rn_world s'')) = ob_hyperlog (hw_observers (rn_world s'))"
  proof cases
    case (finish i)
    then show ?thesis using run [of i "rn_world s'"] by (simp add: task_finish_def split: prod.splits)
  qed (simp_all add: set_task_def)
  with step.IH show ?case by simp
qed simp

lemma task_steps_hydra:
  "task_steps (hydra_run ctx hl hy) s s' \<Longrightarrow> (hydra_step valid hl newTags ctx hy)\<^sup>*\<^sup>* s s'"
  by (induction rule: task_steps.induct) (auto intro: hydra_step.task rtranclp.rtrancl_into_rtrancl)

text \<open>Each task can report what is the case now.\<close>

lemma can_report:
  assumes "runs_ok hl name t0 hy s" "\<not> rn_ctxDone s" "i < length (hydra_tasks hl hy)"
  obtains s' w where "(hydra_step valid hl newTags ctx hy)\<^sup>*\<^sup>* s s'" "rn_world s' = fst (hydra_run ctx hl hy i w)"
    "hw_history w = hw_history (rn_world s)" "hw_tableSize w = hw_tableSize (rn_world s)"
    "ob_hyperlog (hw_observers w) = ob_hyperlog (hw_observers (rn_world s))"
proof -
  have ok: "runner_ok t0 (map pt_Interval (hydra_tasks hl hy)) s" using assms(1) by (simp add: runs_ok_def)
  then have i: "i < length (rn_tasks s)" using runner_ok_length assms(3) by fastforce
  then have "tk_phase (rn_tasks s ! i) \<noteq> Returned"
    using runner_ok_nth [OF ok] assms(2) by (auto simp: task_ok_def)
  from can_run [OF i this] obtain s1 where s1: "task_steps (hydra_run ctx hl hy) s s1" "i < length (rn_tasks s1)"
      "tk_phase (rn_tasks s1 ! i) = Running" by metis
  have "task_steps (hydra_run ctx hl hy) s (task_finish (hydra_run ctx hl hy) i s1)"
    using s1 task_step.finish task_steps.step by metis
  moreover have "rn_world (task_finish (hydra_run ctx hl hy) i s1) = fst (hydra_run ctx hl hy i (rn_world s1))"
    by (simp add: task_finish_def split: prod.split)
  ultimately show ?thesis using that [OF task_steps_hydra] runner_keeps [OF s1(1)] by metis
qed

section \<open>Properties\<close>

text \<open>
  C14: what the tasks of a hydra report. Let the two tasks of a named hydra run while its heads report
  and its routing tables change, in any order. In every reachable state the values recorded for the
  unique peers are the estimates over growing initial parts of what the heads have reported; the
  recordings of the tasks leave the rows of the heads what they are, their own histories; and, unless
  the context is done, the runner can go on so that the rows of unique peers and of the routing table
  size show the present values: the estimate over the whole history, and the sum over all heads.
\<close>

theorem hydra_tasks_report:
  assumes "tag_library valid newTags" "name \<noteq> []" "valid name" "\<forall>ev \<in> set evs. valid (ob_head ev)"
    and "hydra_tags newTags Map.empty name = Some ctx"
    and "(hydra_step valid hl newTags ctx hy)\<^sup>*\<^sup>* (run_hydra_tasks now hl hy
           \<lparr>hw_observers = observed hl newTags ctx evs, hw_tableSize = f, hw_history = evs\<rparr>) s"
  shows "let w = rn_world s; recs = ob_recorded (hw_observers w)
    in (\<exists>ns. sorted ns \<and> (\<forall>n \<in> set ns. n \<le> length (hw_history w)) \<and>
          row_values UniquePeersView recs [Some name] = map (\<lambda>n. seen hl (take n (hw_history w))) ns) \<and>
       (\<forall>h. row_total ConnectedPeersView recs [Some name, Some h] =
          int (connects h (hw_history w)) - int (disconnects h (hw_history w))) \<and>
       (\<not> rn_ctxDone s \<longrightarrow>
          (\<exists>s'. (hydra_step valid hl newTags ctx hy)\<^sup>*\<^sup>* s s' \<and>
             row_last UniquePeersView (ob_recorded (hw_observers (rn_world s'))) [Some name] = Some (seen hl (hw_history w))) \<and>
          (\<exists>s'. (hydra_step valid hl newTags ctx hy)\<^sup>*\<^sup>* s s' \<and>
             row_last RoutingTableSizeView (ob_recorded (hw_observers (rn_world s'))) [Some name] =
               Some (\<Sum>hed \<leftarrow> hydra_Heads hy. hw_tableSize w (hd_Routing hed))))"
proof -
  have ctx: "ctx = [KeyName \<mapsto> name]" using hydra_tags_name [OF assms(1-3)] assms(5) by (simp del: key_defs)
  have ok: "runs_ok hl name now hy s"
    using hydra_steps_ok [OF assms(6) [unfolded ctx] hydra_start_ok [OF assms(1,4)] assms(1)] .
  let ?w = "rn_world s"
  have two: "0 < length (hydra_tasks hl hy)" "Suc 0 < length (hydra_tasks hl hy)" by (simp_all add: hydra_tasks_def)
  have inv: "hydra_inv hl name ?w" using ok by (simp add: runs_ok_def)
  have "row_total ConnectedPeersView (ob_recorded (hw_observers ?w)) [Some name, Some h] =
      int (connects h (hw_history ?w)) - int (disconnects h (hw_history ?w))" for h
    using inv head_row_total [of ConnectedPeersView name "hw_history ?w" h]
    by (simp add: hydra_inv_def connected_value head_row_def)
  moreover have "\<exists>s'. (hydra_step valid hl newTags ctx hy)\<^sup>*\<^sup>* s s' \<and>
      row_last UniquePeersView (ob_recorded (hw_observers (rn_world s'))) [Some name] = Some (seen hl (hw_history ?w))"
    if live: "\<not> rn_ctxDone s"
  proof -
    obtain s' w where "(hydra_step valid hl newTags ctx hy)\<^sup>*\<^sup>* s s'" "rn_world s' = fst (hydra_run ctx hl hy (Suc 0) w)"
        "hw_history w = hw_history ?w" "hw_tableSize w = hw_tableSize ?w" "ob_hyperlog (hw_observers w) = ob_hyperlog (hw_observers ?w)"
      by (rule can_report [OF ok live two(2)])
    with inv show ?thesis
      by (intro exI [of _ s'])
        (simp add: ctx hydra_runs row_last_snoc task_values GetUniquePeersCount_def seen_def hydra_inv_def del: key_defs)
  qed
  moreover have "\<exists>s'. (hydra_step valid hl newTags ctx hy)\<^sup>*\<^sup>* s s' \<and>
      row_last RoutingTableSizeView (ob_recorded (hw_observers (rn_world s'))) [Some name] =
        Some (\<Sum>hed \<leftarrow> hydra_Heads hy. hw_tableSize ?w (hd_Routing hed))"
    if live: "\<not> rn_ctxDone s"
  proof -
    obtain s' w where "(hydra_step valid hl newTags ctx hy)\<^sup>*\<^sup>* s s'" "rn_world s' = fst (hydra_run ctx hl hy 0 w)"
        "hw_history w = hw_history ?w" "hw_tableSize w = hw_tableSize ?w" "ob_hyperlog (hw_observers w) = ob_hyperlog (hw_observers ?w)"
      by (rule can_report [OF ok live two(1)])
    moreover have "foldl (\<lambda>rts hed. rts + g (hd_Routing hed)) a hds = a + (\<Sum>hed \<leftarrow> hds. g (hd_Routing hed))"
      for g :: "'b \<Rightarrow> int" and a and hds :: "('b, store_builder) head list"
      by (induction hds arbitrary: a) simp_all
    ultimately show ?thesis
      by (intro exI [of _ s'])
        (simp add: ctx hydra_runs row_last_snoc task_values GetRoutingTableSize_def del: key_defs)
  qed
  moreover have "\<exists>ns. sorted ns \<and> (\<forall>n \<in> set ns. n \<le> length (hw_history ?w)) \<and>
      row_values UniquePeersView (ob_recorded (hw_observers ?w)) [Some name] = map (\<lambda>n. seen hl (take n (hw_history ?w))) ns"
    using inv unfolding hydra_inv_def by blast
  ultimately show ?thesis unfolding Let_def by blast
qed

text \<open>A hydra with two heads, right after it has started its tasks.\<close>

definition example_head :: "nat \<Rightarrow> (nat, store_builder) head" where
  "example_head n = \<lparr>hd_Host = n, hd_Datastore = None, hd_Routing = n, hd_cfg = zero_options\<rparr>"

definition example_hydra :: "nat hydra" where
  "example_hydra = \<lparr>hydra_Heads = [example_head 1, example_head 2], hydra_SharedDatastore = 0\<rparr>"

definition example_started :: "(bytes set, nat) hydra_world runner" where
  "example_started = run_hydra_tasks 0 exact_sketch example_hydra
     \<lparr>hw_observers = observed exact_sketch apply_mutators [KeyName \<mapsto> ''h''] example_history,
      hw_tableSize = (\<lambda>n. int n * 10), hw_history = example_history\<rparr>"

lemma example_seen: "seen exact_sketch example_history = 2"
  by (simp add: seen_def exact_sketch_def example_history_def remotes_def)

theorem hydra_tasks_report_witness:
  "(\<exists>s'. (hydra_step always_valid exact_sketch apply_mutators [KeyName \<mapsto> ''h''] example_hydra)\<^sup>*\<^sup>* example_started s' \<and>
      row_last UniquePeersView (ob_recorded (hw_observers (rn_world s'))) [Some ''h''] = Some 2) \<and>
   (\<exists>s'. (hydra_step always_valid exact_sketch apply_mutators [KeyName \<mapsto> ''h''] example_hydra)\<^sup>*\<^sup>* example_started s' \<and>
      row_last RoutingTableSizeView (ob_recorded (hw_observers (rn_world s'))) [Some ''h''] = Some 30)"
proof -
  have valid: "''h'' \<noteq> []" "always_valid ''h''" "\<forall>ev \<in> set example_history. always_valid (ob_head ev)"
    by (simp_all add: always_valid_def)
  have w: "\<not> rn_ctxDone example_started" "hw_history (rn_world example_started) = example_history"
    "hw_tableSize (rn_world example_started) = (\<lambda>n. int n * 10)"
    by (simp_all add: example_started_def run_hydra_tasks_def RunTasks_def)
  have sizes: "(\<Sum>hed \<leftarrow> hydra_Heads example_hydra. int (hd_Routing hed) * 10) = 30"
    by (simp add: example_hydra_def example_head_def)
  note here = hydra_tasks_report [OF apply_mutators_library valid example_tags rtranclp.rtrancl_refl,
      where hl = exact_sketch and hy = example_hydra and now = 0 and f = "\<lambda>n. int n * 10",
      folded example_started_def, unfolded Let_def w example_seen sizes]
  from here [THEN conjunct2, THEN conjunct2, THEN mp, OF w(1)] show ?thesis .
qed

end
