(* ===== verification/Head_Access.thy ===== *)
theory Head_Access
  imports Head Hydra Http_Api Provider_Stores Rcmgr_Metrics
begin

text \<open>
  What others reach through a head: \<open>RoutingTable\<close> and \<open>AddProvider\<close> of \<^verbatim>\<open>src/head/head.go\<close>, with which the
  hydra counts its routing tables and \<^verbatim>\<open>/records/fetch\<close> stores what it finds; and three small wrappers:
  the datastore with a pool (\<^verbatim>\<open>src/datastore/pgxpool.go\<close>), the installation of the AWS middleware
  (\<^verbatim>\<open>src/metrics/aws.go\<close>) and the version (\<^verbatim>\<open>src/version/version.go\<close>).

  The type assertion to the DHT is the parameter \<open>asDHT\<close>; its second result is ignored, so when it
  fails the method is called on a nil pointer.
\<close>

section \<open>The code\<close>

record ('s, 'ma, 't) ipfs_dht =
  di_RoutingTable :: 't
  di_ProviderStore :: "('s, 'ma) provider_ops"

definition RoutingTable ::
    "('h \<Rightarrow> ('s, 'ma, 't) ipfs_dht option) \<Rightarrow> ('h, 'b) head \<Rightarrow> 't outcome" where
  "RoutingTable asDHT hed =
     (case asDHT (hd_Routing hed) of None \<Rightarrow> Panic NilDereference | Some dht \<Rightarrow> Ok (di_RoutingTable dht))"

text \<open>The error of the store is dropped.\<close>

definition Head_AddProvider ::
    "('h \<Rightarrow> ('s, 'ma, 't) ipfs_dht option) \<Rightarrow> ('cid \<Rightarrow> bytes) \<Rightarrow> ('h, 'b) head \<Rightarrow> 'cid \<Rightarrow> peer_id \<Rightarrow> 's \<Rightarrow>
     's \<times> unit outcome" where
  "Head_AddProvider asDHT hash_of hed c pid s =
     (case asDHT (hd_Routing hed) of
        None \<Rightarrow> (s, Panic NilDereference)
      | Some dht \<Rightarrow> (fst (ps_AddProvider (di_ProviderStore dht) (hash_of c) \<lparr>ai_ID = pid, ai_Addrs = []\<rparr> s), Ok ()))"

record ('pool, 'batching) BatchingWithPgxPool =
  bp_Pool :: 'pool
  bp_Batching :: 'batching

definition PgxPool :: "('pool \<Rightarrow> 'p) \<Rightarrow> ('pool, 'batching) BatchingWithPgxPool \<Rightarrow> 'p" where
  "PgxPool poolOf x = poolOf (bp_Pool x)"

datatype relative_position = Before_others | After_others

definition AWSMetricsMiddleware_ID :: string where
  "AWSMetricsMiddleware_ID = ''AWSMetrics''"

definition AddAWSSDKMiddleware ::
    "(string \<Rightarrow> relative_position \<Rightarrow> 'stack \<Rightarrow> 'stack \<times> go_error option) \<Rightarrow> 'stack \<Rightarrow> 'stack \<times> go_error option" where
  "AddAWSSDKMiddleware finalizeAdd stack = finalizeAdd AWSMetricsMiddleware_ID Before_others stack"

definition Version :: string where
  "Version = ''0.7.4''"

definition UserAgent :: string where
  "UserAgent = ''hydra-booster/'' @ Version"

section \<open>Facts\<close>

text \<open>The routing table size of a hydra is the sum over the routing tables of its heads, when all of them
  route through a DHT; otherwise it panics.\<close>

fun table_sizes :: "('h \<Rightarrow> ('s, 'ma, 't) ipfs_dht option) \<Rightarrow> ('t \<Rightarrow> int) \<Rightarrow> ('h, 'b) head list \<Rightarrow> int outcome" where
  "table_sizes asDHT size_of [] = Ok 0"
| "table_sizes asDHT size_of (hed # hds) =
     (case RoutingTable asDHT hed of
        Ok t \<Rightarrow> (case table_sizes asDHT size_of hds of Ok n \<Rightarrow> Ok (size_of t + n) | r \<Rightarrow> r)
      | Error e \<Rightarrow> Error e | Panic p \<Rightarrow> Panic p)"

lemma foldl_add_start: "foldl (\<lambda>n x. n + f x) (a + b) xs = a + foldl (\<lambda>n x. n + f x) (b :: int) xs"
  by (induction xs arbitrary: b) (simp_all add: add.assoc)

lemma routing_table_size:
  assumes "\<forall>hed \<in> set (hydra_Heads hy). asDHT (hd_Routing hed) \<noteq> None"
  shows "table_sizes asDHT size_of (hydra_Heads hy) =
    Ok (GetRoutingTableSize (\<lambda>h. size_of (di_RoutingTable (the (asDHT h)))) hy)"
proof -
  have "table_sizes asDHT size_of hds =
      Ok (foldl (\<lambda>n hed. n + size_of (di_RoutingTable (the (asDHT (hd_Routing hed))))) 0 hds)"
    if "\<forall>hed \<in> set hds. asDHT (hd_Routing hed) \<noteq> None" for hds
    using that
  proof (induction hds)
    case (Cons hed hds)
    then show ?case
      using foldl_add_start [of "\<lambda>hed. size_of (di_RoutingTable (the (asDHT (hd_Routing hed))))"
        "size_of (di_RoutingTable (the (asDHT (hd_Routing hed))))" 0 hds]
      by (auto simp: RoutingTable_def)
  qed simp
  with assms show ?thesis by (simp add: GetRoutingTableSize_def)
qed

text \<open>
  A record fetched over the HTTP API goes to the provider store of the first head, under the hash of
  its CID: over a store that keeps the contract, no other key gets a provider, and that key only the
  providers that the network has returned.
\<close>

lemma record_fetch_adds_found:
  assumes "asDHT (hd_Routing hed) = Some dht" "store_ok ids (di_ProviderStore dht)"
    and "ae_AddProvider env = (\<lambda>c pid s. fst (Head_AddProvider asDHT hash_of hed c pid s))"
    and "recordFetchHandler env cidStr nStr s w = (s', r)"
  shows "ids s' k \<subseteq> ids s k \<union>
    {p. \<exists>c n. ae_cidDecode env cidStr = Ok c \<and> k = hash_of c \<and> p \<in> ai_ID ` set (ae_FindProviders env c n s)}"
proof -
  have add: "ids (ae_AddProvider env c pid t) k \<subseteq> ids t k \<union> (if k = hash_of c then {pid} else {})" for c pid t
    using store_okD(1) [OF assms(2), of "hash_of c" "\<lparr>ai_ID = pid, ai_Addrs = []\<rparr>" t k] assms(1,3)
    by (cases "k = hash_of c") (auto simp: Head_AddProvider_def)
  have loop: "ids (fst (fetch_loop env c infos (t, v, f))) k \<subseteq> ids t k \<union> {p. k = hash_of c \<and> p \<in> ai_ID ` set infos}"
    for c infos t v f
  proof (induction infos arbitrary: t v f)
    case (Cons info infos)
    show ?case using Cons [of "ae_AddProvider env c (ai_ID info) t"] add [of c "ai_ID info" t]
      by (auto split: if_splits)
  qed simp
  show ?thesis
  proof (cases "ae_cidDecode env cidStr")
    case (Ok c)
    show ?thesis
    proof (cases "if nStr \<noteq> [] then Atoi nStr else Ok 1")
      case n: (Ok n)
      have "s' = s \<or> s' = fst (fetch_loop env c (ae_FindProviders env c n s) (s, w, True))"
        using assms(4) Ok n by (auto simp: recordFetchHandler_def split: if_splits prod.splits)
      then have "ids s' k \<subseteq> ids s k \<union> {p. k = hash_of c \<and> p \<in> ai_ID ` set (ae_FindProviders env c n s)}"
        using loop [of c "ae_FindProviders env c n s" s w True] by auto
      with Ok show ?thesis by blast
    qed (use assms(4) Ok in \<open>auto simp: recordFetchHandler_def\<close>)
  qed (use assms(4) in \<open>auto simp: recordFetchHandler_def\<close>)
qed

text \<open>Installing the middleware puts it before the others, once.\<close>

definition middleware_stack :: "(string \<Rightarrow> relative_position \<Rightarrow> string list \<Rightarrow> string list \<times> go_error option) \<Rightarrow> bool" where
  "middleware_stack finalizeAdd \<longleftrightarrow>
     (\<forall>i stack. i \<notin> set stack \<longrightarrow> finalizeAdd i Before_others stack = (i # stack, None)) \<and>
     (\<forall>i p stack. i \<in> set stack \<longrightarrow> (\<exists>e. finalizeAdd i p stack = (stack, Some e)))"

lemma AddAWSSDKMiddleware_once:
  assumes "middleware_stack finalizeAdd" "AWSMetricsMiddleware_ID \<notin> set stack"
  shows "AddAWSSDKMiddleware finalizeAdd stack = (AWSMetricsMiddleware_ID # stack, None)"
    "\<exists>e. AddAWSSDKMiddleware finalizeAdd (AWSMetricsMiddleware_ID # stack) = (AWSMetricsMiddleware_ID # stack, Some e)"
  using assms by (simp_all add: AddAWSSDKMiddleware_def middleware_stack_def)

end
