(* ===== verification/Spec2Isabelle.thy ===== *)
theory Spec2Isabelle
  imports Caching_Store Bootstrap_Status Test_Heads Main_Lifecycle Metrics_Server Ui_Fetch Hydra_Tasks Head_Access
begin

text \<open>
  A verification library of hydra-booster, a DHT indexer node: one process, the hydra, runs many DHT
  nodes, its heads, over a shared datastore.

  \<^bold>\<open>How the program is put together.\<close> \<^verbatim>\<open>main\<close> settles its configuration from flags and environment
  variables and calls \<open>NewHydra\<close>, which opens the datastore, chooses a builder for the provider store
  and spawns the heads. The private key of every head comes from an identity generator that balances
  the heads over the key space; the generator is local, or it is another hydra's, reached over HTTP
  and wrapped so that its keys are given back at the end. Every head builds its libp2p host and its
  DHT, puts a cache in front of its provider store that fetches missing records in the background
  through a finder shared by all heads, and connects to its bootstrap peers under a limiter shared by
  all heads. An HTTP API, metrics, periodic tasks and a terminal interface observe the hydra.

  \<^bold>\<open>Theories and sources\<close> (below \<^verbatim>\<open>src/\<close>).
  \<^item> \<open>Hydra_Prelude\<close>: errors, panics and results of Go, short-circuit connectives, shared lemmas.
    \<open>Go_Strings\<close>, \<open>Go_Time\<close>, \<open>Go_Base64\<close>: the parts of the standard library the code depends on
    (splitting, decimal and Boolean parsing, durations, base64), executable, with their round trips.
  \<^item> \<open>Xor_Trie\<close>: \<^verbatim>\<open>idgen/xortrie.go\<close>. \<open>Id_Gen\<close>: \<^verbatim>\<open>idgen/idgen.go\<close>. \<open>Cleaning_Id_Gen\<close>: \<^verbatim>\<open>idgen/cleaning.go\<close>.
    \<open>Delegated_Id_Gen\<close>: \<^verbatim>\<open>idgen/delegated.go\<close>. \<open>Swarm_Id_Gen\<close>: many hydras that share one identity
    server, the composition of the four with the HTTP handlers; the requests of a call and its
    bookkeeping are separate steps, which interleave with those of the other hydras.
  \<^item> \<open>Providers_Finder\<close>: \<^verbatim>\<open>providers/finder.go\<close>. \<open>Provider_Stores\<close>: \<^verbatim>\<open>providers/noop.go\<close>,
    \<^verbatim>\<open>unsupported.go\<close>, \<^verbatim>\<open>combined.go\<close>, \<^verbatim>\<open>httpapi.go\<close>. \<open>Ddb_Store\<close>: \<^verbatim>\<open>providers/ddb.go\<close>.
    \<open>Caching_Store\<close>: \<^verbatim>\<open>providers/caching.go\<close>, over the finder and any provider store.
  \<^item> \<open>Utils\<close>: \<^verbatim>\<open>utils/\<close>. \<open>Head_Options\<close>: \<^verbatim>\<open>head/opts/options.go\<close>. \<open>Head\<close> and \<open>Bootstrap\<close>: \<^verbatim>\<open>head/head.go\<close>.
    \<open>Bootstrap_Status\<close>: the goroutines of all heads that bootstrap, composed with the goroutines of
    \<^verbatim>\<open>hydra/hydra.go\<close> that read their statuses. \<open>Head_Access\<close>: what the API and the hydra reach through
    a head, \<^verbatim>\<open>datastore/pgxpool.go\<close> and \<^verbatim>\<open>version/version.go\<close>. \<open>Test_Heads\<close>: \<^verbatim>\<open>head/testing.go\<close>, \<^verbatim>\<open>testing/\<close>.
  \<^item> \<open>Hydra\<close>: \<^verbatim>\<open>hydra/hydra.go\<close>. \<open>Main_Config\<close>: the settings of \<^verbatim>\<open>main.go\<close>. \<open>Main_Lifecycle\<close>: the course of
    \<^verbatim>\<open>main\<close> to its end, over \<open>NewHydra\<close> and the identity generators. \<open>Http_Api\<close>: \<^verbatim>\<open>httpapi/httpapi.go\<close>.
  \<^item> \<open>Measures\<close> and \<open>Metric_Views\<close>: \<^verbatim>\<open>metrics/definitions.go\<close>. \<open>Metrics_Server\<close>: \<^verbatim>\<open>metrics/metrics.go\<close>.
    \<open>Rcmgr_Metrics\<close>: \<^verbatim>\<open>metrics/rcmgr.go\<close>, \<^verbatim>\<open>aws.go\<close>. \<open>Periodic_Tasks\<close>: \<^verbatim>\<open>periodictasks/runner.go\<close>.
    \<open>Metric_Tasks\<close>: \<^verbatim>\<open>metricstasks/metricstasks.go\<close> and \<^verbatim>\<open>datastore/postgres.go\<close>.
  \<^item> \<open>Ui_Gooey\<close>, \<open>Ui\<close>: \<^verbatim>\<open>ui/\<close>. \<open>Ui_Fetch\<close>: the fetching goroutine composed with the rendering loop.
    \<open>Observation\<close>: from the notifications of the heads through the registered views and the exporter
    to what the interface shows. \<open>Hydra_Tasks\<close>: the metric tasks of a hydra, run by the periodic runner
    while its heads report.

  \<^bold>\<open>How state and operations are modelled.\<close> A struct is a \<open>record\<close> and a method a function that
  returns the new record with the result; a Go interface is a group of functions on an abstract state.
  An error is a value of \<open>go_error\<close>, a panic a value of \<open>panic\<close>, both in \<open>'a outcome\<close>; where only a
  panic is possible, it is \<open>None\<close>. Goroutines are inductive step relations whose steps are what runs
  between two blocking operations, so every interleaving is covered: the workers of the finder, the
  bootstrapping of the heads and its readers, the periodic tasks, the interface and its fetcher. Maps
  whose order Go leaves open take the order as an argument. Words have their width (salt counter, ports,
  trie bytes, limits of DynamoDB, unsigned counts); the other integers of Go have 64 bits and are \<open>int\<close>
  here: counters that grow by one (the count of a generator, the beginning of a log) and the sum of the
  sizes of routing tables would wrap only beyond \<open>2 ^ 63\<close>. Of a context the model keeps its tags
  (\<open>hydra_tags\<close>), or its name tag (\<open>hydra_context\<close>); the caller's context is an argument of \<open>NewHydra\<close>, and
  \<^verbatim>\<open>main\<close> passes one without tags.

  \<^bold>\<open>Code that is not in the repository\<close> is a parameter: key generation, peer IDs and the Kademlia hash
  (\<open>crypto_env\<close>), marshalling of keys (\<open>key_codec\<close>), the DynamoDB client (\<open>ddb_env\<close>, the locale
  \<open>dynamo_table\<close> and the documented answers to queries \<open>dynamo_answers\<close>), the time cache, libp2p, the DHT and the datastores (\<open>head_env\<close>, \<open>hydra_env\<close>),
  OpenCensus tags (\<open>tag_library\<close>), the Prometheus exporter (\<open>exports\<close>, which the example \<open>exporter\<close>
  satisfies), the collectors, pages and listening of the metrics endpoint (\<open>server_env\<close>, \<open>pages_apart\<close>), the sketch
  of seen peers (\<open>hyperloglog\<close>, \<open>sketch\<close>), PostgreSQL (\<open>pg_env\<close>) and floating point in the interface
  (\<open>ui_env\<close>, \<open>adds_exactly\<close>). Hypotheses on a parameter are predicates of their own and state documented behaviour.

  \<^bold>\<open>What the lemmas show.\<close>
  \<^item> Identities: the trie is a set of keys in a canonical, fully shrunk form, with the depth of each leaf
    the least depth that separates its key; inserting and removing are inverse; the generator keeps the
    shallower of two candidates, its count is the number of keys, and an offset resumes its sequence.
    A cleaning session leaves the generator as it was; delegation over HTTP is transparent; in a swarm
    all identities in use are different, none is handed out again before it was given back, and
    nothing is left behind.
  \<^item> Providers: what DynamoDB has for a key is returned newest first; the finder's pending map is exact and its requests are accounted for and can always be
    finished; merging, combining, querying DynamoDB and caching never invent providers, and a miss is
    fetched in the background.
  \<^item> Hydra: configuration precedence and its round trip through the environment, the options and number
    of heads, the provider store strings. The bootstrap keeps its limit, can always end, and its counter
    is exact; a head that gives up leaves its reader and its token behind. When \<^verbatim>\<open>main\<close> ends on a signal
    or a panic its identities have been returned; a fatal error ends it in the world that \<open>NewHydra\<close> left,
    with the identities at the server. A hydra needs a name, from its options or the caller's context.
  \<^item> Observation: the recordings fit the registered views and the rows count what happened, whatever the
    order of the notifications of the heads; the endpoint registers the views and answers every request by a
    table of handlers, or fails in one of its named ways;
    what the interface shows is what was fetched, and through the exporter it is the state of the hydra;
    tasks keep their rate and can always report the present values; the log of the interface shows the
    last messages in order.
  The interfaces are locales: \<open>identity_generator\<close> (interpreted on the balanced and on the delegated
  generator), \<open>provider_store\<close> with \<open>delegating_store\<close>, \<open>combined_store\<close>, \<open>http_router\<close>, \<open>dynamo_table\<close>
  and \<open>caching_store\<close>.

  \<^bold>\<open>Termination and fuel.\<close> The two loops of the code that may run for ever, the retry loop of
  \<open>genUniqueID\<close> and the query loop of the DynamoDB store, are \<open>partial_function (option)\<close>; that they
  return, and when, are properties. No fuel is used elsewhere: all other loops run over a list or a
  number that decreases.

  \<^bold>\<open>Not modelled\<close>: the sockets behind \<^verbatim>\<open>ListenAndServe\<close> and HTTP clients (a server that fails is an event,
  an answer is a value), an error that ends the metrics endpoint after it has come to serve, answers of the
  identity server that are lost after it has handled the request, the inside of libraries, the flag package, the constants for terminal colours
  that are not used, callbacks that do nothing, and the text printed on standard output. When an
  insertion into the trie panics half-way, Go's trie may be left changed; the model keeps the old state,
  and no property speaks of the state after a panic.

  \<^bold>\<open>Possible extensions\<close>: the finder shared by the caching stores of several heads, and the heads of a
  hydra going up and down while the API reads them.
\<close>

end
